(* ===== verification/Prelude.thy ===== *)
theory Prelude
  imports Complex_Main "HOL-Library.AList"
begin

text \<open>
  Shared ground of the development: the exceptions of the program as values, Python
  dictionaries as ordered association lists, and the theorem collections the component
  theories feed.

  \<^item> \<open>exn\<close> is the union of the exception classes of \<open>errors.py\<close>,
    \<open>protocol/validation.py\<close>, \<open>transport/errors.py\<close>, \<open>protocol/config_contract.py\<close>
    and of the builtin exceptions the code raises or lets through; the class hierarchy is the
    predicates \<open>is_protocol_error\<close> and \<open>is_transport_error\<close>.
  \<^item> A Python \<open>dict\<close> is an association list in insertion order. Assignment to an
    existing key keeps its position (\<open>AList.update\<close>), \<open>pop\<close> is \<open>AList.delete\<close>,
    \<open>get\<close> is \<open>map_of\<close>.
  \<^item> A Python \<open>float\<close> that the code computes with (clock readings, delays, rates) is an
    exact rational; rounding is not modelled.
\<close>

section \<open>Exceptions and results\<close>

datatype exn =
    ValidationError string
  | InvalidJson
  | UnsupportedVersionError string
  | TransportError string
  | AgentNotFoundError string
  | TransportTimeoutError string
  | DeliveryError string "exn option"
  | PyTypeError
  | PyValueError string
  | PyRuntimeError string
  | PyNotImplementedError string
  | PyTimeoutError
  | PyOSError string
  | HTTPException string
  | UserException string

type_synonym 'a result = "exn + 'a"

type_synonym seconds = rat

fun is_protocol_error :: "exn \<Rightarrow> bool" where
  "is_protocol_error (ValidationError m) = True"
| "is_protocol_error InvalidJson = True"
| "is_protocol_error (UnsupportedVersionError m) = True"
| "is_protocol_error e = False"

fun is_transport_error :: "exn \<Rightarrow> bool" where
  "is_transport_error (TransportError m) = True"
| "is_transport_error (AgentNotFoundError m) = True"
| "is_transport_error (TransportTimeoutError m) = True"
| "is_transport_error (DeliveryError m c) = True"
| "is_transport_error e = False"

text \<open>\<open>OSError\<close> as the code catches it: \<open>TimeoutError\<close> is a subclass, and the transport
  timeout inherits from it.\<close>

fun is_os_error :: "exn \<Rightarrow> bool" where
  "is_os_error (PyOSError m) = True"
| "is_os_error PyTimeoutError = True"
| "is_os_error (TransportTimeoutError m) = True"
| "is_os_error e = False"

lemma protocol_not_transport [dest]: "is_protocol_error e \<Longrightarrow> \<not> is_transport_error e"
  by (cases e) auto

section \<open>Theorem collections\<close>

named_theorems dict_simps \<open>lookups in updated dictionaries\<close>
named_theorems wf_intros \<open>well-formedness is kept\<close>
named_theorems result_errors \<open>the check a chain of checks failed at\<close>
named_theorems result_simps \<open>what a chain of checks passed through\<close>

text \<open>A chain of checks that gave a value passed every check.\<close>

lemma case_sum_Inr [result_simps]:
  "(case x of Inl e \<Rightarrow> Inl e | Inr y \<Rightarrow> f y) = Inr v \<longleftrightarrow> (\<exists>y. x = Inr y \<and> f y = Inr v)"
  by (cases x) auto

lemma case_option_Inr [result_simps]:
  "(case x of None \<Rightarrow> Inl e | Some y \<Rightarrow> f y) = Inr v \<longleftrightarrow> (\<exists>y. x = Some y \<and> f y = Inr v)"
  by (cases x) auto

lemma if_Inl_Inr [result_simps]: "(if c then Inl e else x) = Inr v \<longleftrightarrow> \<not> c \<and> x = Inr v"
  by simp

lemma case_sum_Inl [result_errors]:
  "(case x of Inl e \<Rightarrow> Inl e | Inr y \<Rightarrow> f y) = Inl r \<longleftrightarrow> x = Inl r \<or> (\<exists>y. x = Inr y \<and> f y = Inl r)"
  by (cases x) auto

lemma case_option_Inl [result_errors]:
  "(case x of None \<Rightarrow> Inl e | Some y \<Rightarrow> f y) = Inl r \<longleftrightarrow> x = None \<and> e = r \<or> (\<exists>y. x = Some y \<and> f y = Inl r)"
  by (cases x) auto

lemma if_Inl_Inl [result_errors]: "(if c then Inl e else x) = Inl r \<longleftrightarrow> c \<and> e = r \<or> \<not> c \<and> x = Inl r"
  by simp

section \<open>Dictionaries\<close>

type_synonym ('k, 'v) dict = "('k \<times> 'v) list"

abbreviation dict_get :: "('k, 'v) dict \<Rightarrow> 'k \<Rightarrow> 'v option" where
  "dict_get d k \<equiv> map_of d k"

definition dict_set :: "'k \<Rightarrow> 'v \<Rightarrow> ('k, 'v) dict \<Rightarrow> ('k, 'v) dict" where
  "dict_set k v d = AList.update k v d"

definition dict_pop :: "'k \<Rightarrow> ('k, 'v) dict \<Rightarrow> ('k, 'v) dict" where
  "dict_pop k d = AList.delete k d"

definition dict_setdefault :: "'k \<Rightarrow> 'v \<Rightarrow> ('k, 'v) dict \<Rightarrow> ('k, 'v) dict" where
  "dict_setdefault k v d = (case dict_get d k of None \<Rightarrow> dict_set k v d | Some _ \<Rightarrow> d)"

definition dict_has :: "('k, 'v) dict \<Rightarrow> 'k \<Rightarrow> bool" where
  "dict_has d k = (dict_get d k \<noteq> None)"

definition dict_keys :: "('k, 'v) dict \<Rightarrow> 'k set" where
  "dict_keys d = dom (map_of d)"

definition wf_dict :: "('k, 'v) dict \<Rightarrow> bool" where
  "wf_dict d = distinct (map fst d)"

text \<open>The dictionary a sequence of assignments builds, in the order of a Python literal.\<close>

definition dict_of_pairs :: "('k \<times> 'v) list \<Rightarrow> ('k, 'v) dict" where
  "dict_of_pairs ps = fold (\<lambda>(k, v) d. dict_set k v d) ps []"

lemma get_set [dict_simps]: "dict_get (dict_set k v d) k' = (if k' = k then Some v else dict_get d k')"
  by (simp add: dict_set_def update_conv')

lemma get_pop [dict_simps]: "dict_get (dict_pop k d) k' = (if k' = k then None else dict_get d k')"
  by (simp add: dict_pop_def delete_conv')

lemma get_setdefault [dict_simps]:
  "dict_get (dict_setdefault k v d) k' =
     (if k' = k then Some (case dict_get d k of None \<Rightarrow> v | Some w \<Rightarrow> w) else dict_get d k')"
  by (auto simp: dict_setdefault_def dict_simps split: option.splits)

lemma has_set [dict_simps]: "dict_has (dict_set k v d) k' = (k' = k \<or> dict_has d k')"
  by (simp add: dict_has_def dict_simps)

lemma has_pop [dict_simps]: "dict_has (dict_pop k d) k' = (k' \<noteq> k \<and> dict_has d k')"
  by (simp add: dict_has_def dict_simps)

lemma has_setdefault [dict_simps]: "dict_has (dict_setdefault k v d) k' = (k' = k \<or> dict_has d k')"
  by (simp add: dict_has_def dict_simps)

lemma keys_set [dict_simps]: "dict_keys (dict_set k v d) = insert k (dict_keys d)"
  by (auto simp: dict_keys_def dict_set_def update_conv')

lemma keys_pop [dict_simps]: "dict_keys (dict_pop k d) = dict_keys d - {k}"
  by (auto simp: dict_keys_def dict_pop_def delete_conv')

lemma keys_setdefault [dict_simps]: "dict_keys (dict_setdefault k v d) = insert k (dict_keys d)"
  by (auto simp: dict_setdefault_def dict_simps dict_keys_def split: option.splits)

lemma keys_Nil [dict_simps]: "dict_keys [] = {}"
  by (simp add: dict_keys_def)

lemma has_iff_keys: "dict_has d k \<longleftrightarrow> k \<in> dict_keys d"
  by (auto simp: dict_has_def dict_keys_def)

lemma get_Some_keys: "dict_get d k = Some v \<Longrightarrow> k \<in> dict_keys d"
  by (auto simp: dict_keys_def)

lemma keys_get: "k \<in> dict_keys d \<Longrightarrow> \<exists>v. dict_get d k = Some v"
  by (auto simp: dict_keys_def)

lemma get_None_keys: "dict_get d k = None \<longleftrightarrow> k \<notin> dict_keys d"
  by (auto simp: dict_keys_def)

lemma keys_fst: "dict_keys d = fst ` set d"
  by (simp add: dict_keys_def dom_map_of_conv_image_fst)

lemma wf_dict_Nil [wf_intros, simp]: "wf_dict []"
  by (simp add: wf_dict_def)

lemma wf_dict_set [wf_intros]: "wf_dict d \<Longrightarrow> wf_dict (dict_set k v d)"
  by (simp add: wf_dict_def dict_set_def distinct_update)

lemma wf_dict_pop [wf_intros]: "wf_dict d \<Longrightarrow> wf_dict (dict_pop k d)"
  by (simp add: wf_dict_def dict_pop_def distinct_delete)

lemma wf_dict_setdefault [wf_intros]: "wf_dict d \<Longrightarrow> wf_dict (dict_setdefault k v d)"
  by (simp add: dict_setdefault_def wf_dict_set split: option.splits)

lemma set_fresh: "k \<notin> fst ` set d \<Longrightarrow> dict_set k v d = d @ [(k, v)]"
  by (induction d) (auto simp: dict_set_def)

lemma fold_set_fresh:
  "distinct (map fst (d @ ps)) \<Longrightarrow> fold (\<lambda>(k, v) d. dict_set k v d) ps d = d @ ps"
proof (induction ps arbitrary: d)
  case Nil
  then show ?case by simp
next
  case (Cons p ps)
  obtain k v where p: "p = (k, v)" by (cases p)
  from Cons.prems p have fresh: "k \<notin> fst ` set d" by auto
  from Cons.prems p have "distinct (map fst ((d @ [(k, v)]) @ ps))" by auto
  then have "fold (\<lambda>(k, v) d. dict_set k v d) ps (d @ [(k, v)]) = (d @ [(k, v)]) @ ps"
    by (rule Cons.IH)
  with p fresh show ?case by (simp add: set_fresh)
qed

text \<open>Re-building a well-formed dictionary from its items gives it back, order included.\<close>

lemma dict_of_pairs_wf: "wf_dict d \<Longrightarrow> dict_of_pairs d = d"
  by (simp add: dict_of_pairs_def wf_dict_def fold_set_fresh)

lemma wf_fold_set: "wf_dict d \<Longrightarrow> wf_dict (fold (\<lambda>(k, v) d. dict_set k v d) ps d)"
  by (induction ps arbitrary: d) (auto simp: wf_dict_set split: prod.splits)

lemma wf_dict_of_pairs [wf_intros]: "wf_dict (dict_of_pairs ps)"
  by (simp add: dict_of_pairs_def wf_fold_set)

lemma get_in_set: "dict_get d k = Some v \<Longrightarrow> (k, v) \<in> set d"
  by (rule map_of_SomeD)

lemma wf_get_iff: "wf_dict d \<Longrightarrow> dict_get d k = Some v \<longleftrightarrow> (k, v) \<in> set d"
  by (simp add: wf_dict_def)

section \<open>Lists\<close>

text \<open>\<open>xs[-n:]\<close> for a positive \<open>n\<close>, and a \<open>deque(maxlen=n)\<close> after an append.\<close>

definition last_n :: "nat \<Rightarrow> 'a list \<Rightarrow> 'a list" where
  "last_n n xs = drop (length xs - n) xs"

definition deque_append :: "nat \<Rightarrow> 'a list \<Rightarrow> 'a \<Rightarrow> 'a list" where
  "deque_append n xs x = last_n n (xs @ [x])"

lemma length_last_n [simp]: "length (last_n n xs) = min n (length xs)"
  by (simp add: last_n_def)

lemma last_n_all: "length xs \<le> n \<Longrightarrow> last_n n xs = xs"
  by (simp add: last_n_def)

lemma last_n_suffix: "\<exists>pre. xs = pre @ last_n n xs"
  by (metis append_take_drop_id last_n_def)

lemma last_n_append: "last_n n (last_n n xs @ ys) = last_n n (xs @ ys)"
  by (cases "length xs \<le> n") (auto simp: last_n_def min_def add.commute)

end
