(* ===== verification/Pytext.thy ===== *)
theory Pytext
  imports Prelude
begin

text \<open>
  The part of Python's \<open>str\<close>, \<open>int\<close>, \<open>float\<close>, \<open>repr\<close> and \<open>urllib.parse\<close> that the
  program calls. A Python string is a \<open>string\<close> (a list of 8-bit characters), so the model
  covers strings over Latin-1; escapes that denote other code points are refused or left
  alone where a comment says so. Nothing here is code of the repository: the component
  theories apply these functions where the source calls the library.
\<close>

section \<open>Characters\<close>

abbreviation ord :: "char \<Rightarrow> nat" where
  "ord c \<equiv> of_char c"

definition is_digit :: "char \<Rightarrow> bool" where
  "is_digit c = (48 \<le> ord c \<and> ord c \<le> 57)"

definition digit_val :: "char \<Rightarrow> nat" where
  "digit_val c = ord c - 48"

definition digit_char :: "nat \<Rightarrow> char" where
  "digit_char n = char_of (48 + n)"

definition hex_val :: "char \<Rightarrow> nat option" where
  "hex_val c =
     (let n = ord c in
      if 48 \<le> n \<and> n \<le> 57 then Some (n - 48)
      else if 97 \<le> n \<and> n \<le> 102 then Some (n - 87)
      else if 65 \<le> n \<and> n \<le> 70 then Some (n - 55)
      else None)"

definition hex_char :: "nat \<Rightarrow> char" where
  "hex_char n = (if n < 10 then char_of (48 + n) else char_of (87 + n))"

text \<open>The characters \<open>str.strip\<close> removes, and ASCII/Latin-1 lower case.\<close>

definition is_space :: "char \<Rightarrow> bool" where
  "is_space c = (let n = ord c in
     (9 \<le> n \<and> n \<le> 13) \<or> (28 \<le> n \<and> n \<le> 32) \<or> n = 133 \<or> n = 160)"

definition lower_char :: "char \<Rightarrow> char" where
  "lower_char c = (let n = ord c in
     if (65 \<le> n \<and> n \<le> 90) \<or> (192 \<le> n \<and> n \<le> 222 \<and> n \<noteq> 215) then char_of (n + 32) else c)"

definition py_strip :: "string \<Rightarrow> string" where
  "py_strip s = rev (dropWhile is_space (rev (dropWhile is_space s)))"

definition py_lower :: "string \<Rightarrow> string" where
  "py_lower s = map lower_char s"

lemma digit_char_props:
  assumes "n < 10"
  shows "is_digit (digit_char n)" "digit_val (digit_char n) = n"
proof -
  have "ord (digit_char n) = 48 + n"
    using assms by (simp add: digit_char_def)
  with assms show "is_digit (digit_char n)" "digit_val (digit_char n) = n"
    by (simp_all add: is_digit_def digit_val_def)
qed

lemma hex_char_val: "n < 16 \<Longrightarrow> hex_val (hex_char n) = Some n"
  by (auto simp: hex_val_def hex_char_def Let_def)

section \<open>Splitting\<close>

definition starts_with :: "string \<Rightarrow> string \<Rightarrow> bool" where
  "starts_with p s = (take (length p) s = p)"

text \<open>\<open>s.split(c)\<close> for a one-character separator: never the empty list.\<close>

fun split_on :: "char \<Rightarrow> string \<Rightarrow> string list" where
  "split_on c [] = [[]]"
| "split_on c (x # xs) =
     (if x = c then [] # split_on c xs
      else (case split_on c xs of [] \<Rightarrow> [[x]] | w # ws \<Rightarrow> (x # w) # ws))"

text \<open>\<open>s.partition(c)\<close>, without the separator itself.\<close>

definition before :: "char \<Rightarrow> string \<Rightarrow> string" where
  "before c s = takeWhile (\<lambda>x. x \<noteq> c) s"

definition after :: "char \<Rightarrow> string \<Rightarrow> string" where
  "after c s = drop 1 (dropWhile (\<lambda>x. x \<noteq> c) s)"

text \<open>\<open>s.split()\<close>: maximal runs of characters that are not white space.\<close>

fun split_ws :: "string \<Rightarrow> string \<Rightarrow> string list" where
  "split_ws w [] = (if w = [] then [] else [rev w])"
| "split_ws w (x # xs) =
     (if is_space x then (if w = [] then split_ws [] xs else rev w # split_ws [] xs)
      else split_ws (x # w) xs)"

lemma split_on_nonempty [simp]: "split_on c s \<noteq> []"
  by (induction s) (auto split: list.splits)

lemma split_on_no_sep: "w \<in> set (split_on c s) \<Longrightarrow> c \<notin> set w"
  by (induction s arbitrary: w) (auto split: list.splits if_splits)

lemma hd_split_on: "hd (split_on c s) = before c s"
  by (induction s) (auto simp: before_def split: list.splits)

section \<open>Integers\<close>

definition digits_val :: "string \<Rightarrow> nat" where
  "digits_val ds = foldl (\<lambda>n c. 10 * n + digit_val c) 0 ds"

fun nat_str :: "nat \<Rightarrow> string" where
  "nat_str n = (if n < 10 then [digit_char n] else nat_str (n div 10) @ [digit_char (n mod 10)])"

declare nat_str.simps [simp del]

definition int_str :: "int \<Rightarrow> string" where
  "int_str i = (if i < 0 then CHR ''-'' # nat_str (nat (- i)) else nat_str (nat i))"

lemma nat_str_digits: "list_all is_digit (nat_str n)"
proof (induction n rule: nat_str.induct)
  case (1 n)
  show ?case
  proof (cases "n < 10")
    case True
    then show ?thesis by (subst nat_str.simps) (simp add: digit_char_props)
  next
    case False
    with 1 show ?thesis by (subst nat_str.simps) (simp add: digit_char_props)
  qed
qed

lemma nat_str_nonempty [simp]: "nat_str n \<noteq> []"
  by (subst nat_str.simps) simp

lemma digits_val_nat_str: "digits_val (nat_str n) = n"
proof (induction n rule: nat_str.induct)
  case (1 n)
  show ?case
  proof (cases "n < 10")
    case True
    then show ?thesis by (subst nat_str.simps) (simp add: digits_val_def digit_char_props)
  next
    case False
    with 1 have "digits_val (nat_str (n div 10)) = n div 10" by simp
    with False show ?thesis
      by (subst nat_str.simps) (simp add: digits_val_def digit_char_props)
  qed
qed

text \<open>
  Underscores may group digits in the argument of \<open>int\<close> and \<open>float\<close>: each one stands
  between two digits. \<open>None\<close> is a misplaced one.
\<close>

fun strip_underscores :: "bool \<Rightarrow> string \<Rightarrow> string option" where
  "strip_underscores p [] = Some []"
| "strip_underscores p (c # cs) =
     (if c = CHR ''_''
      then (if p \<and> cs \<noteq> [] \<and> is_digit (hd cs) then strip_underscores False cs else None)
      else map_option (\<lambda>r. c # r) (strip_underscores (is_digit c) cs))"

text \<open>A leading sign: whether it is a minus, and the rest.\<close>

definition split_sign :: "string \<Rightarrow> bool \<times> string" where
  "split_sign s = (case s of
       [] \<Rightarrow> (False, [])
     | c # cs \<Rightarrow> if c = CHR ''-'' then (True, cs) else if c = CHR ''+'' then (False, cs) else (False, s))"

text \<open>\<open>int(s)\<close>; \<open>None\<close> is \<open>ValueError\<close>.\<close>

definition py_int :: "string \<Rightarrow> int option" where
  "py_int s = (case split_sign (py_strip s) of (neg, t) \<Rightarrow>
     (case strip_underscores False t of
        None \<Rightarrow> None
      | Some ds \<Rightarrow>
          if ds \<noteq> [] \<and> list_all is_digit ds
          then Some (if neg then - int (digits_val ds) else int (digits_val ds)) else None))"

lemma digit_not_underscore: "is_digit c \<Longrightarrow> c \<noteq> CHR ''_''"
  by (auto simp: is_digit_def)

lemma digit_not_space: "is_digit c \<Longrightarrow> \<not> is_space c"
  by (auto simp: is_digit_def is_space_def Let_def)

lemma digit_not_sign: "is_digit c \<Longrightarrow> c \<noteq> CHR ''-''" "is_digit c \<Longrightarrow> c \<noteq> CHR ''+''"
  by (auto simp: is_digit_def)

lemma strip_underscores_digits: "list_all is_digit ds \<Longrightarrow> strip_underscores p ds = Some ds"
  by (induction ds arbitrary: p) (auto dest: digit_not_underscore)

lemma py_strip_id:
  assumes "s \<noteq> []" "\<not> is_space (hd s)" "\<not> is_space (last s)"
  shows "py_strip s = s"
proof -
  have "dropWhile is_space s = s" using assms(1,2) by (cases s) auto
  moreover have "dropWhile is_space (rev s) = rev s"
    using assms(1,3) by (cases "rev s") (auto simp: last_rev hd_rev[symmetric])
  ultimately show ?thesis by (simp add: py_strip_def)
qed

lemma digits_ends:
  assumes "list_all is_digit ds" "ds \<noteq> []"
  shows "is_digit (hd ds)" "is_digit (last ds)"
  using assms by (auto simp: list_all_iff)

text \<open>Printing and reading back an integer is the identity.\<close>

lemma py_int_int_str: "py_int (int_str i) = Some i"
proof -
  let ?n = "nat_str (nat \<bar>i\<bar>)"
  note ds = nat_str_digits[of "nat \<bar>i\<bar>"]
  have e: "is_digit (hd ?n)" "is_digit (last ?n)"
    using digits_ends[OF ds] by simp_all
  have s: "\<not> is_space (CHR ''-'')" by (simp add: is_space_def)
  show ?thesis
  proof (cases "i < 0")
    case True
    then have i: "int_str i = CHR ''-'' # ?n" by (simp add: int_str_def)
    have "py_strip (int_str i) = int_str i"
      unfolding i by (rule py_strip_id) (use e s in \<open>auto dest: digit_not_space\<close>)
    with i ds True show ?thesis
      by (simp add: py_int_def split_sign_def strip_underscores_digits digits_val_nat_str)
  next
    case False
    then have i: "int_str i = ?n" by (simp add: int_str_def)
    have "py_strip (int_str i) = int_str i"
      unfolding i by (rule py_strip_id) (use e in \<open>auto dest: digit_not_space\<close>)
    moreover have "split_sign ?n = (False, ?n)"
      using e digit_not_sign[OF e(1)] by (cases ?n) (auto simp: split_sign_def)
    ultimately show ?thesis
      using i ds False by (simp add: py_int_def strip_underscores_digits digits_val_nat_str)
  qed
qed

section \<open>Floats read from text\<close>

datatype pyfloat = Fin rat | PosInf | NegInf | NaN

text \<open>
  The comparisons of \<open>float\<close> values: every one with a NaN is false. \<open>min(a, b)\<close> and
  \<open>max(a, b)\<close> return \<open>a\<close> unless \<open>b\<close> is strictly smaller (larger).
\<close>

fun pf_less :: "pyfloat \<Rightarrow> pyfloat \<Rightarrow> bool" where
  "pf_less NaN y = False"
| "pf_less x NaN = False"
| "pf_less (Fin a) (Fin b) = (a < b)"
| "pf_less NegInf NegInf = False"
| "pf_less NegInf y = True"
| "pf_less x PosInf = (x \<noteq> PosInf)"
| "pf_less x y = False"

fun pf_le :: "pyfloat \<Rightarrow> pyfloat \<Rightarrow> bool" where
  "pf_le NaN y = False"
| "pf_le x NaN = False"
| "pf_le x y = (\<not> pf_less y x)"

definition pf_min :: "pyfloat \<Rightarrow> pyfloat \<Rightarrow> pyfloat" where
  "pf_min a b = (if pf_less b a then b else a)"

definition pf_max :: "pyfloat \<Rightarrow> pyfloat \<Rightarrow> pyfloat" where
  "pf_max a b = (if pf_less a b then b else a)"

definition digits_rat :: "string \<Rightarrow> rat" where
  "digits_rat ds = of_nat (digits_val ds)"

definition scale10 :: "bool \<Rightarrow> nat \<Rightarrow> rat \<Rightarrow> rat" where
  "scale10 neg n x = (if neg then x / 10 ^ n else x * 10 ^ n)"

text \<open>
  A decimal literal after the sign: integer digits, optional fraction, optional exponent,
  with a digit in the mantissa. Values beyond the range of a double stay exact rationals.
\<close>

definition parse_decimal :: "string \<Rightarrow> rat option" where
  "parse_decimal t =
     (let ip = takeWhile is_digit t; r1 = dropWhile is_digit t;
          (fp, r2) = (case r1 of [] \<Rightarrow> ([], []) | c # cs \<Rightarrow>
             if c = CHR ''.'' then (takeWhile is_digit cs, dropWhile is_digit cs) else ([], r1));
          m = digits_rat (ip @ fp) / 10 ^ length fp
      in if ip = [] \<and> fp = [] then None
         else (case r2 of [] \<Rightarrow> Some m | c # cs \<Rightarrow>
           if c = CHR ''e'' \<or> c = CHR ''E'' then
             (case split_sign cs of (neg, ds) \<Rightarrow>
                if ds \<noteq> [] \<and> list_all is_digit ds then Some (scale10 neg (digits_val ds) m) else None)
           else None))"

text \<open>\<open>float(s)\<close>; \<open>None\<close> is \<open>ValueError\<close>.\<close>

definition py_float :: "string \<Rightarrow> pyfloat option" where
  "py_float s = (case split_sign (py_strip s) of (neg, t) \<Rightarrow>
     (let l = py_lower t in
      if l = ''inf'' \<or> l = ''infinity'' then Some (if neg then NegInf else PosInf)
      else if l = ''nan'' then Some NaN
      else (case strip_underscores False t of
          None \<Rightarrow> None
        | Some u \<Rightarrow> map_option (\<lambda>x. Fin (if neg then - x else x)) (parse_decimal u))))"

section \<open>repr\<close>

definition hex2 :: "nat \<Rightarrow> string" where
  "hex2 n = [hex_char (n div 16), hex_char (n mod 16)]"

definition repr_char :: "char \<Rightarrow> char \<Rightarrow> string" where
  "repr_char q c = (let n = ord c in
     if c = q \<or> c = CHR 0x5C then [CHR 0x5C, c]
     else if n = 10 then [CHR 0x5C, CHR ''n'']
     else if n = 13 then [CHR 0x5C, CHR ''r'']
     else if n = 9 then [CHR 0x5C, CHR ''t'']
     else if n < 32 \<or> (127 \<le> n \<and> n \<le> 160) \<or> n = 173 then CHR 0x5C # CHR ''x'' # hex2 n
     else [c])"

text \<open>\<open>repr\<close> of a string: single quotes, unless only single quotes occur inside.\<close>

definition repr_str :: "string \<Rightarrow> string" where
  "repr_str s =
     (let q = (if CHR 0x27 \<in> set s \<and> CHR 0x22 \<notin> set s then CHR 0x22 else CHR 0x27)
      in q # concat (map (repr_char q) s) @ [q])"

fun join_with :: "string \<Rightarrow> string list \<Rightarrow> string" where
  "join_with sep [] = []"
| "join_with sep [w] = w"
| "join_with sep (w # ws) = w @ sep @ join_with sep ws"

section \<open>UTF-8 bodies and request targets\<close>

text \<open>
  \<open>bytes.decode("utf-8")\<close> on a list of bytes held as characters. Two-byte sequences for the
  code points below 256 are decoded; \<open>None\<close> is \<open>UnicodeDecodeError\<close>, and also a longer
  sequence, whose character is outside the model's alphabet.
\<close>

fun utf8_decode :: "string \<Rightarrow> string option" where
  "utf8_decode [] = Some []"
| "utf8_decode [a] = (if ord a < 128 then Some [a] else None)"
| "utf8_decode (a # b # cs) =
     (if ord a < 128 then map_option (\<lambda>r. a # r) (utf8_decode (b # cs))
      else if (ord a = 194 \<or> ord a = 195) \<and> 128 \<le> ord b \<and> ord b \<le> 191
      then map_option (\<lambda>r. char_of ((ord a - 192) * 64 + (ord b - 128)) # r) (utf8_decode cs)
      else None)"

definition is_ascii :: "string \<Rightarrow> bool" where
  "is_ascii s = list_all (\<lambda>c. ord c < 128) s"

lemma utf8_decode_ascii: "is_ascii s \<Longrightarrow> utf8_decode s = Some s"
  by (induction s rule: utf8_decode.induct) (auto simp: is_ascii_def)

text \<open>
  \<open>urlsplit(target).path\<close> and \<open>.query\<close> for a request target in origin form (it starts
  with a slash, as every HTTP client of the program sends it).
\<close>

definition url_path :: "string \<Rightarrow> string" where
  "url_path t = takeWhile (\<lambda>c. c \<noteq> CHR ''?'' \<and> c \<noteq> CHR ''#'') t"

definition url_query :: "string \<Rightarrow> string" where
  "url_query t = after (CHR ''?'') (before (CHR ''#'') t)"

text \<open>
  \<open>unquote\<close> with \<open>+\<close> read as a space: the bytes of percent escapes are decoded as UTF-8. Escapes
  that are no UTF-8, or of a character outside the model's alphabet, are left as written.
\<close>

fun percent_byte :: "string \<Rightarrow> (nat \<times> string) option" where
  "percent_byte (a # b # c # cs) =
     (if a = CHR ''%'' then
        (case (hex_val b, hex_val c) of (Some h, Some l) \<Rightarrow> Some (16 * h + l, cs) | _ \<Rightarrow> None)
      else None)"
| "percent_byte s = None"

definition percent_char :: "string \<Rightarrow> (char \<times> string) option" where
  "percent_char s = (case percent_byte s of
     None \<Rightarrow> None
   | Some (n, r) \<Rightarrow>
       if n < 128 then Some (char_of n, r)
       else (case percent_byte r of
         None \<Rightarrow> None
       | Some (m, r') \<Rightarrow>
           if (n = 194 \<or> n = 195) \<and> 128 \<le> m \<and> m \<le> 191
           then Some (char_of ((n - 192) * 64 + (m - 128)), r') else None))"

lemma percent_byte_shorter: "percent_byte s = Some (n, r) \<Longrightarrow> length r < length s"
  by (cases s rule: percent_byte.cases) (auto split: if_splits option.splits)

lemma percent_char_shorter: "percent_char s = Some (c, r) \<Longrightarrow> length r < length s"
  by (auto simp: percent_char_def dest!: percent_byte_shorter split: option.splits if_splits)

function unquote_plus :: "string \<Rightarrow> string" where
  "unquote_plus [] = []"
| "unquote_plus (c # cs) = (case percent_char (c # cs) of
     Some (x, r) \<Rightarrow> x # unquote_plus r
   | None \<Rightarrow> (if c = CHR ''+'' then CHR '' '' else c) # unquote_plus cs)"
  by pat_completeness auto
termination
  by (relation "measure length") (auto dest: percent_char_shorter)

text \<open>\<open>parse_qs\<close>: fields split at ampersands; a field without \<open>=\<close> or with an empty value is dropped.\<close>

definition qs_field :: "string \<Rightarrow> (string \<times> string) list" where
  "qs_field f =
     (if CHR ''='' \<in> set f \<and> after (CHR ''='') f \<noteq> []
      then [(unquote_plus (before (CHR ''='') f), unquote_plus (after (CHR ''='') f))] else [])"

definition parse_qs :: "string \<Rightarrow> (string, string list) dict" where
  "parse_qs q =
     fold (\<lambda>(k, v) d. dict_set k ((case dict_get d k of None \<Rightarrow> [] | Some vs \<Rightarrow> vs) @ [v]) d)
       (concat (map qs_field (split_on (CHR ''&'') q))) []"

text \<open>\<open>query.get(k, [d])[0]\<close>.\<close>

definition query_first :: "(string, string list) dict \<Rightarrow> string \<Rightarrow> string \<Rightarrow> string" where
  "query_first q k d = (case dict_get q k of Some (v # _) \<Rightarrow> v | _ \<Rightarrow> d)"

end
