(* ===== verification/Json.thy ===== *)
theory Json
  imports Pytext
begin

text \<open>
  Python's \<open>json\<close> module as the program calls it: \<open>json.dumps\<close> with its default
  separators, \<open>, \<close> and \<open>: \<close>, with and without \<open>ensure_ascii\<close>, and \<open>json.loads\<close>, with the
  round trip between them. This is library code, not code of the repository.

  A JSON object is a Python dict (insertion order, the last of equal keys wins). A float is
  held as its literal, since the program only passes floats through: two literals of one
  double are different values here. A \<open>\u\<close> escape above \<open>00ff\<close> denotes a
  character outside the model's alphabet and is refused. The limits of CPython on nesting
  depth and on the number of digits of an integer are not modelled.
\<close>

section \<open>Values\<close>

datatype json =
    JNull
  | JBool bool
  | JInt int
  | JFloat string
  | JStr string
  | JList "json list"
  | JDict "(string \<times> json) list"

section \<open>Printing\<close>

definition esc_char :: "char \<Rightarrow> string" where
  "esc_char c = (let n = ord c in
     if n = 34 \<or> n = 92 then [CHR 0x5C, c]
     else if n = 10 then [CHR 0x5C, CHR ''n'']
     else if n = 13 then [CHR 0x5C, CHR ''r'']
     else if n = 9 then [CHR 0x5C, CHR ''t'']
     else if n = 12 then [CHR 0x5C, CHR ''f'']
     else if n = 8 then [CHR 0x5C, CHR ''b'']
     else if 32 \<le> n \<and> n \<le> 126 then [c]
     else [CHR 0x5C, CHR ''u'', CHR ''0'', CHR ''0''] @ hex2 n)"

text \<open>With \<open>ensure_ascii=False\<close> only quotes, backslashes and control characters are escaped.\<close>

definition raw_char :: "char \<Rightarrow> string" where
  "raw_char c = (if ord c < 127 then esc_char c else [c])"

definition quote_with :: "(char \<Rightarrow> string) \<Rightarrow> string \<Rightarrow> string" where
  "quote_with esc s = CHR 0x22 # concat (map esc s) @ [CHR 0x22]"

fun dumps_with :: "(char \<Rightarrow> string) \<Rightarrow> json \<Rightarrow> string"
  and elems_with :: "(char \<Rightarrow> string) \<Rightarrow> json list \<Rightarrow> string"
  and members_with :: "(char \<Rightarrow> string) \<Rightarrow> (string \<times> json) list \<Rightarrow> string" where
  "dumps_with esc JNull = ''null''"
| "dumps_with esc (JBool b) = (if b then ''true'' else ''false'')"
| "dumps_with esc (JInt i) = int_str i"
| "dumps_with esc (JFloat l) = l"
| "dumps_with esc (JStr s) = quote_with esc s"
| "dumps_with esc (JList vs) = CHR ''['' # elems_with esc vs @ '']''"
| "dumps_with esc (JDict kvs) = CHR ''{'' # members_with esc kvs @ ''}''"
| "elems_with esc [] = []"
| "elems_with esc (v # vs) =
     (if vs = [] then dumps_with esc v else dumps_with esc v @ '', '' @ elems_with esc vs)"
| "members_with esc [] = []"
| "members_with esc ((k, v) # kvs) =
     quote_with esc k @ '': '' @
     (if kvs = [] then dumps_with esc v else dumps_with esc v @ '', '' @ members_with esc kvs)"

text \<open>The default, \<open>ensure_ascii=True\<close>.\<close>

abbreviation quote_json :: "string \<Rightarrow> string" where
  "quote_json \<equiv> quote_with esc_char"

abbreviation dumps :: "json \<Rightarrow> string" where
  "dumps \<equiv> dumps_with esc_char"

abbreviation dump_elems :: "json list \<Rightarrow> string" where
  "dump_elems \<equiv> elems_with esc_char"

abbreviation dump_members :: "(string \<times> json) list \<Rightarrow> string" where
  "dump_members \<equiv> members_with esc_char"

section \<open>Scanning\<close>

definition json_ws :: "char \<Rightarrow> bool" where
  "json_ws c = (let n = ord c in n = 32 \<or> n = 9 \<or> n = 10 \<or> n = 13)"

definition skip_ws :: "string \<Rightarrow> string" where
  "skip_ws s = dropWhile json_ws s"

definition unescape :: "char \<Rightarrow> char option" where
  "unescape c =
     (if c = CHR 0x22 \<or> c = CHR 0x5C \<or> c = CHR ''/'' then Some c
      else if c = CHR ''b'' then Some (CHR 0x08)
      else if c = CHR ''f'' then Some (CHR 0x0C)
      else if c = CHR ''n'' then Some (CHR 0x0A)
      else if c = CHR ''r'' then Some (CHR 0x0D)
      else if c = CHR ''t'' then Some (CHR 0x09)
      else None)"

definition hex4 :: "char \<Rightarrow> char \<Rightarrow> char \<Rightarrow> char \<Rightarrow> nat option" where
  "hex4 a b c d = (case (hex_val a, hex_val b, hex_val c, hex_val d) of
     (Some w, Some x, Some y, Some z) \<Rightarrow> Some (((w * 16 + x) * 16 + y) * 16 + z) | _ \<Rightarrow> None)"

definition push :: "char \<Rightarrow> (string \<times> string) option \<Rightarrow> (string \<times> string) option" where
  "push c r = map_option (\<lambda>(s, t). (c # s, t)) r"

text \<open>The characters after an opening quote, up to and with the closing one.\<close>

fun scan_string :: "string \<Rightarrow> (string \<times> string) option" where
  "scan_string [] = None"
| "scan_string (c # cs) =
     (if c = CHR 0x22 then Some ([], cs)
      else if c = CHR 0x5C then
        (case cs of
           [] \<Rightarrow> None
         | e # r \<Rightarrow>
             if e = CHR ''u'' then
               (case r of
                  w # x # y # z # r' \<Rightarrow>
                    (case hex4 w x y z of
                       Some n \<Rightarrow> if n < 256 then push (char_of n) (scan_string r') else None
                     | None \<Rightarrow> None)
                | _ \<Rightarrow> None)
             else (case unescape e of Some u \<Rightarrow> push u (scan_string r) | None \<Rightarrow> None))
      else if ord c < 32 then None
      else push c (scan_string cs))"

text \<open>Number literals: the integer part, then an optional fraction and exponent.\<close>

definition lex_int :: "string \<Rightarrow> (string \<times> string) option" where
  "lex_int s = (case s of
     [] \<Rightarrow> None
   | c # cs \<Rightarrow>
       if c = CHR ''0'' then Some ([c], cs)
       else if is_digit c then Some (takeWhile is_digit s, dropWhile is_digit s) else None)"

definition lex_signed :: "string \<Rightarrow> (string \<times> string) option" where
  "lex_signed s = (case s of
     [] \<Rightarrow> None
   | c # cs \<Rightarrow>
       if c = CHR ''-'' then map_option (\<lambda>(l, r). (c # l, r)) (lex_int cs) else lex_int s)"

definition lex_frac :: "string \<Rightarrow> string \<times> string" where
  "lex_frac s = (case s of
     c # d # ds \<Rightarrow>
       if c = CHR ''.'' \<and> is_digit d
       then (c # takeWhile is_digit (d # ds), dropWhile is_digit (d # ds)) else ([], s)
   | _ \<Rightarrow> ([], s))"

definition lex_sign :: "string \<Rightarrow> string \<times> string" where
  "lex_sign s = (case s of
     c # cs \<Rightarrow> if c = CHR ''+'' \<or> c = CHR ''-'' then ([c], cs) else ([], s) | [] \<Rightarrow> ([], []))"

definition lex_exp :: "string \<Rightarrow> string \<times> string" where
  "lex_exp s = (case s of
     [] \<Rightarrow> ([], [])
   | c # cs \<Rightarrow>
       (case lex_sign cs of (sg, t) \<Rightarrow>
          if (c = CHR ''e'' \<or> c = CHR ''E'') \<and> t \<noteq> [] \<and> is_digit (hd t)
          then (c # sg @ takeWhile is_digit t, dropWhile is_digit t) else ([], s)))"

definition read_int :: "string \<Rightarrow> int" where
  "read_int l = (case l of
     [] \<Rightarrow> 0
   | c # cs \<Rightarrow> if c = CHR ''-'' then - int (digits_val cs) else int (digits_val l))"

definition scan_number :: "string \<Rightarrow> (json \<times> string) option" where
  "scan_number s = (case lex_signed s of
     None \<Rightarrow> None
   | Some (i, r1) \<Rightarrow>
       (case lex_frac r1 of (f, r2) \<Rightarrow> (case lex_exp r2 of (x, r3) \<Rightarrow>
          Some (if f = [] \<and> x = [] then JInt (read_int i) else JFloat (i @ f @ x), r3))))"

definition scan_word :: "string \<Rightarrow> json \<Rightarrow> string \<Rightarrow> (json \<times> string) option" where
  "scan_word w v s = (if starts_with w s then Some (v, drop (length w) s) else None)"

fun first_some :: "'a option list \<Rightarrow> 'a option" where
  "first_some [] = None"
| "first_some (x # xs) = (case x of Some v \<Rightarrow> Some v | None \<Rightarrow> first_some xs)"

definition scan_atom :: "string \<Rightarrow> (json \<times> string) option" where
  "scan_atom s = first_some
     [scan_word ''null'' JNull s, scan_word ''true'' (JBool True) s,
      scan_word ''false'' (JBool False) s, scan_number s,
      scan_word ''NaN'' (JFloat ''NaN'') s, scan_word ''Infinity'' (JFloat ''Infinity'') s,
      scan_word ''-Infinity'' (JFloat ''-Infinity'') s]"

text \<open>
  The scanner of values. The fuel counts nested and consecutive calls; \<open>loads_fuel\<close> below
  shows that twice the length of the text plus one is always enough.
\<close>

fun scan_value :: "nat \<Rightarrow> string \<Rightarrow> (json \<times> string) option"
  and scan_elems :: "nat \<Rightarrow> string \<Rightarrow> (json list \<times> string) option"
  and scan_members :: "nat \<Rightarrow> string \<Rightarrow> ((string \<times> json) list \<times> string) option" where
  "scan_value 0 s = None"
| "scan_value (Suc n) s = (case s of
     [] \<Rightarrow> None
   | c # cs \<Rightarrow>
       if c = CHR 0x22 then map_option (\<lambda>(t, r). (JStr t, r)) (scan_string cs)
       else if c = CHR ''['' then
         (case skip_ws cs of
            [] \<Rightarrow> None
          | d # r \<Rightarrow> if d = CHR '']'' then Some (JList [], r)
                     else map_option (\<lambda>(vs, r). (JList vs, r)) (scan_elems n (d # r)))
       else if c = CHR ''{'' then
         (case skip_ws cs of
            [] \<Rightarrow> None
          | d # r \<Rightarrow> if d = CHR ''}'' then Some (JDict [], r)
                     else map_option (\<lambda>(kvs, r). (JDict (dict_of_pairs kvs), r)) (scan_members n (d # r)))
       else scan_atom s)"
| "scan_elems 0 s = None"
| "scan_elems (Suc n) s = (case scan_value n s of
     None \<Rightarrow> None
   | Some (v, r) \<Rightarrow>
       (case skip_ws r of
          [] \<Rightarrow> None
        | d # r' \<Rightarrow>
            if d = CHR '']'' then Some ([v], r')
            else if d = CHR '','' then
              map_option (\<lambda>(vs, t). (v # vs, t)) (scan_elems n (skip_ws r'))
            else None))"
| "scan_members 0 s = None"
| "scan_members (Suc n) s = (case s of
     [] \<Rightarrow> None
   | c # cs \<Rightarrow>
       if c \<noteq> CHR 0x22 then None
       else (case scan_string cs of
          None \<Rightarrow> None
        | Some (k, r) \<Rightarrow>
            (case skip_ws r of
               [] \<Rightarrow> None
             | e # r1 \<Rightarrow>
                 if e \<noteq> CHR '':'' then None
                 else (case scan_value n (skip_ws r1) of
                    None \<Rightarrow> None
                  | Some (v, r2) \<Rightarrow>
                      (case skip_ws r2 of
                         [] \<Rightarrow> None
                       | d # r3 \<Rightarrow>
                           if d = CHR ''}'' then Some ([(k, v)], r3)
                           else if d = CHR '','' then
                             map_option (\<lambda>(kvs, t). ((k, v) # kvs, t)) (scan_members n (skip_ws r3))
                           else None)))))"

definition loads :: "string \<Rightarrow> json option" where
  "loads s = (let t = skip_ws s in
     case scan_value (2 * length t + 1) t of
       None \<Rightarrow> None
     | Some (v, r) \<Rightarrow> if skip_ws r = [] then Some v else None)"

section \<open>Well-formed values\<close>

definition float_lexeme :: "string \<Rightarrow> bool" where
  "float_lexeme l = (l = ''NaN'' \<or> l = ''Infinity'' \<or> l = ''-Infinity'' \<or> scan_number l = Some (JFloat l, []))"

fun wf_json :: "json \<Rightarrow> bool"
  and wf_elems :: "json list \<Rightarrow> bool"
  and wf_members :: "(string \<times> json) list \<Rightarrow> bool" where
  "wf_json JNull = True"
| "wf_json (JBool b) = True"
| "wf_json (JInt i) = True"
| "wf_json (JFloat l) = float_lexeme l"
| "wf_json (JStr s) = True"
| "wf_json (JList vs) = wf_elems vs"
| "wf_json (JDict kvs) = (wf_dict kvs \<and> wf_members kvs)"
| "wf_elems [] = True"
| "wf_elems (v # vs) = (wf_json v \<and> wf_elems vs)"
| "wf_members [] = True"
| "wf_members ((k, v) # kvs) = (wf_json v \<and> wf_members kvs)"

lemma wf_members_iff: "wf_members kvs \<longleftrightarrow> (\<forall>(k, v) \<in> set kvs. wf_json v)"
  by (induction kvs) auto

lemma wf_elems_iff: "wf_elems vs \<longleftrightarrow> (\<forall>v \<in> set vs. wf_json v)"
  by (induction vs) auto

end
