(* ===== verification/Json_Roundtrip.thy ===== *)
theory Json_Roundtrip
  imports Json
begin

text \<open>
  The two theorems about the \<open>json\<close> model: the scanner never runs out of fuel, and printing
  followed by scanning gives the value back.
\<close>

section \<open>Strings\<close>

lemma char_eq_iff_ord: "c = d \<longleftrightarrow> ord c = ord d"
  by (metis char_of_char)


lemma scan_u00:
  assumes "n < 256"
  shows "scan_string (CHR 0x5C # CHR ''u'' # CHR ''0'' # CHR ''0'' # hex2 n @ t) = push (char_of n) (scan_string t)"
proof -
  have z: "hex_val (CHR ''0'') = Some 0" by (simp add: hex_val_def)
  have "n div 16 * 16 + n mod 16 = n" by simp
  with assms z show ?thesis
    by (simp add: hex2_def hex4_def hex_char_val)
qed

lemma scan_esc_char: "scan_string (esc_char c @ t) = push c (scan_string t)"
proof -
  let ?n = "ord c"
  have lt: "?n < 256" by (rule nat_of_char_less_256)
  have cn: "char_of ?n = c" by simp
  consider "c = CHR 0x22" | "c = CHR 0x5C" | "c = CHR 0x0A" | "c = CHR 0x0D" | "c = CHR 0x09"
    | "c = CHR 0x0C" | "c = CHR 0x08"
    | (plain) "32 \<le> ?n" "?n \<le> 126" "?n \<noteq> 34" "?n \<noteq> 92"
    | (hex) "\<not> (32 \<le> ?n \<and> ?n \<le> 126)" "?n \<notin> {10, 13, 9, 12, 8}"
    by (auto simp: char_eq_iff_ord)
  then show ?thesis
  proof cases
    case plain
    then have "c \<noteq> CHR 0x22" "c \<noteq> CHR 0x5C" by auto
    with plain show ?thesis by (auto simp: esc_char_def Let_def)
  next
    case hex
    then have "esc_char c = [CHR 0x5C, CHR ''u'', CHR ''0'', CHR ''0''] @ hex2 ?n"
      by (auto simp: esc_char_def Let_def)
    then show ?thesis using scan_u00[OF lt, of t] cn by simp
  qed (simp_all add: esc_char_def unescape_def)
qed

lemma scan_raw_char: "scan_string (raw_char c @ t) = push c (scan_string t)"
proof (cases "ord c < 127")
  case False
  then have "c \<noteq> CHR 0x22" "c \<noteq> CHR 0x5C" "\<not> ord c < 32" by auto
  with False show ?thesis by (simp add: raw_char_def)
qed (simp add: raw_char_def scan_esc_char)

section \<open>Numbers\<close>

text \<open>What may follow a value inside a text that \<open>dumps\<close> wrote.\<close>

definition delimited :: "string \<Rightarrow> bool" where
  "delimited t = (t = [] \<or> hd t \<in> {CHR '','', CHR '']'', CHR ''}''})"

lemma delimited_simps [simp]:
  "delimited []" "delimited (CHR '','' # t)" "delimited (CHR '']'' # t)" "delimited (CHR ''}'' # t)"
  by (simp_all add: delimited_def)

lemma delimited_hd:
  assumes "delimited (c # t)"
  shows "\<not> is_digit c" "c \<noteq> CHR ''.''" "c \<noteq> CHR ''e''" "c \<noteq> CHR ''E''" "c \<noteq> CHR ''+''" "c \<noteq> CHR ''-''"
  using assms by (auto simp: delimited_def is_digit_def)

lemma take_digits_append:
  assumes "delimited t"
  shows "takeWhile is_digit (s @ t) = takeWhile is_digit s"
    and "dropWhile is_digit (s @ t) = dropWhile is_digit s @ t"
  using assms by (induction s; cases t; auto dest: delimited_hd)+

lemma lex_int_append:
  "lex_int s = Some (l, r) \<Longrightarrow> delimited t \<Longrightarrow> lex_int (s @ t) = Some (l, r @ t)"
  using take_digits_append[of t s] by (auto simp: lex_int_def split: list.splits if_splits)

lemma lex_signed_append:
  "lex_signed s = Some (l, r) \<Longrightarrow> delimited t \<Longrightarrow> lex_signed (s @ t) = Some (l, r @ t)"
  using lex_int_append[of s l r t]
  by (auto simp: lex_signed_def dest: lex_int_append split: list.splits if_splits)

lemma lex_frac_append: "lex_frac s = (f, r) \<Longrightarrow> delimited t \<Longrightarrow> lex_frac (s @ t) = (f, r @ t)"
proof (cases s)
  case Nil
  assume "lex_frac s = (f, r)" "delimited t"
  with Nil show ?thesis by (cases t) (auto simp: lex_frac_def dest: delimited_hd split: list.splits)
next
  case (Cons c s')
  assume a: "lex_frac s = (f, r)" "delimited t"
  show ?thesis
  proof (cases s')
    case Nil
    with a Cons show ?thesis by (cases t) (auto simp: lex_frac_def dest: delimited_hd)
  next
    case (Cons d ds)
    with a \<open>s = c # s'\<close> show ?thesis
      using take_digits_append[OF a(2), of "d # ds"] by (auto simp: lex_frac_def split: if_splits)
  qed
qed

lemma lex_sign_append: "lex_sign s = (g, r) \<Longrightarrow> delimited t \<Longrightarrow> lex_sign (s @ t) = (g, r @ t)"
  by (cases s; cases t) (auto simp: lex_sign_def dest: delimited_hd split: if_splits)

lemma hd_append_digit: "delimited t \<Longrightarrow> (r @ t \<noteq> [] \<and> is_digit (hd (r @ t))) = (r \<noteq> [] \<and> is_digit (hd r))"
  by (cases r; cases t) (auto dest: delimited_hd)

lemma lex_exp_append:
  assumes "lex_exp s = (x, r)" "delimited t"
  shows "lex_exp (s @ t) = (x, r @ t)"
proof (cases s)
  case Nil
  with assms show ?thesis
    by (cases t) (auto simp: lex_exp_def dest: delimited_hd split: prod.splits)
next
  case (Cons c cs)
  obtain g u where gu: "lex_sign cs = (g, u)" by (cases "lex_sign cs")
  from lex_sign_append[OF gu assms(2)] have gu': "lex_sign (cs @ t) = (g, u @ t)" .
  from assms(1) Cons gu hd_append_digit[OF assms(2), of u] gu' take_digits_append[OF assms(2), of u]
  show ?thesis by (auto simp: lex_exp_def split: if_splits)
qed

lemma scan_number_append:
  assumes "scan_number s = Some (v, r)" "delimited t"
  shows "scan_number (s @ t) = Some (v, r @ t)"
proof -
  from assms(1) obtain i r1 where i: "lex_signed s = Some (i, r1)"
    by (auto simp: scan_number_def split: option.splits)
  obtain f r2 where f: "lex_frac r1 = (f, r2)" by (cases "lex_frac r1")
  obtain x r3 where x: "lex_exp r2 = (x, r3)" by (cases "lex_exp r2")
  from assms(1) i f x show ?thesis
    using lex_signed_append[OF i assms(2)] lex_frac_append[OF f assms(2)] lex_exp_append[OF x assms(2)]
    by (simp add: scan_number_def)
qed

lemma hd_nat_str: "0 < n \<Longrightarrow> hd (nat_str n) \<noteq> CHR ''0''"
proof (induction n rule: nat_str.induct)
  case (1 n)
  show ?case
  proof (cases "n < 10")
    case True
    have "digit_val (digit_char n) = n" by (rule digit_char_props(2)[OF True])
    with 1 True show ?thesis by (subst nat_str.simps) (auto simp: digit_val_def)
  next
    case False
    then have "0 < n div 10" by simp
    with 1 False show ?thesis by (subst nat_str.simps) (simp add: hd_append)
  qed
qed

lemma lex_int_nat_str: "lex_int (nat_str n) = Some (nat_str n, [])"
proof (cases "n = 0")
  case True
  have "nat_str 0 = ''0''" by (subst nat_str.simps) (simp add: digit_char_def char_eq_iff_ord)
  with True show ?thesis by (simp add: lex_int_def)
next
  case False
  then have z: "hd (nat_str n) \<noteq> CHR ''0''" by (simp add: hd_nat_str)
  have d: "\<forall>c \<in> set (nat_str n). is_digit c" using nat_str_digits[of n] by (simp add: list_all_iff)
  then have "takeWhile is_digit (nat_str n) = nat_str n" "dropWhile is_digit (nat_str n) = []"
    by (simp_all add: takeWhile_eq_all_conv)
  with z d show ?thesis by (cases "nat_str n") (auto simp: lex_int_def)
qed

lemma scan_number_int_str: "scan_number (int_str i) = Some (JInt i, [])"
proof -
  let ?n = "nat_str (nat \<bar>i\<bar>)"
  have h: "is_digit (hd ?n)" using digits_ends(1)[OF nat_str_digits nat_str_nonempty] .
  show ?thesis
  proof (cases "i < 0")
    case True
    then have "int_str i = CHR ''-'' # ?n" by (simp add: int_str_def)
    with True show ?thesis
      by (simp add: scan_number_def lex_signed_def lex_int_nat_str lex_frac_def lex_exp_def
          read_int_def digits_val_nat_str)
  next
    case False
    then have i: "int_str i = ?n" by (simp add: int_str_def)
    have m: "hd ?n \<noteq> CHR ''-''" using digit_not_sign(1)[OF h] .
    then have "lex_signed ?n = Some (?n, [])" "read_int ?n = \<bar>i\<bar>"
      using lex_int_nat_str[of "nat \<bar>i\<bar>"] digits_val_nat_str[of "nat \<bar>i\<bar>"]
      by (cases ?n; simp add: lex_signed_def read_int_def)+
    with False show ?thesis unfolding i
      by (simp add: scan_number_def lex_frac_def lex_exp_def)
  qed
qed

text \<open>A number starts with a digit or a minus sign, so the scanner of words passes it on.\<close>

lemma scan_number_start: "scan_number s = Some p \<Longrightarrow> s \<noteq> [] \<and> (is_digit (hd s) \<or> hd s = CHR ''-'')"
  by (auto simp: scan_number_def lex_signed_def lex_int_def is_digit_def split: option.splits list.splits if_splits)

lemma scan_atom_number:
  assumes "scan_number s = Some p"
  shows "scan_atom s = Some p"
proof -
  from scan_number_start[OF assms] have "s \<noteq> []" "hd s \<notin> {CHR ''n'', CHR ''t'', CHR ''f''}"
    by (auto simp: is_digit_def)
  then have "\<not> starts_with ''null'' s" "\<not> starts_with ''true'' s" "\<not> starts_with ''false'' s"
    by (cases s; auto simp: starts_with_def)+
  with assms show ?thesis by (simp add: scan_atom_def scan_word_def)
qed


section \<open>Round trip\<close>

text \<open>How deep the scanner calls itself on the text of a value.\<close>

fun need :: "json \<Rightarrow> nat"
  and need_elems :: "json list \<Rightarrow> nat"
  and need_members :: "(string \<times> json) list \<Rightarrow> nat" where
  "need JNull = 1"
| "need (JBool b) = 1"
| "need (JInt i) = 1"
| "need (JFloat l) = 1"
| "need (JStr s) = 1"
| "need (JList vs) = Suc (need_elems vs)"
| "need (JDict kvs) = Suc (need_members kvs)"
| "need_elems [] = 0"
| "need_elems (v # vs) = Suc (max (need v) (need_elems vs))"
| "need_members [] = 0"
| "need_members ((k, v) # kvs) = Suc (max (need v) (need_members kvs))"

lemma need_pos [simp]: "0 < need v"
  by (cases v) auto

lemma float_lexeme_start:
  "float_lexeme l \<Longrightarrow> l \<noteq> [] \<and> (is_digit (hd l) \<or> hd l \<in> {CHR ''-'', CHR ''N'', CHR ''I''})"
  by (auto simp: float_lexeme_def dest: scan_number_start)

lemma int_str_start: "int_str i \<noteq> [] \<and> (is_digit (hd (int_str i)) \<or> hd (int_str i) = CHR ''-'')"
  using scan_number_start[OF scan_number_int_str] .

text \<open>The first character of a printed value.\<close>

definition value_start :: "char \<Rightarrow> bool" where
  "value_start c = (\<not> json_ws c \<and> c \<noteq> CHR '']'' \<and> c \<noteq> CHR ''}'')"

lemma digit_value_start: "is_digit c \<Longrightarrow> value_start c"
  by (auto simp: value_start_def is_digit_def json_ws_def Let_def)

lemma skip_ws_start: "value_start c \<Longrightarrow> skip_ws (c # cs) = c # cs"
  by (simp add: value_start_def skip_ws_def)

lemma skip_ws_simps [simp]:
  "skip_ws [] = []" "skip_ws (CHR '','' # t) = CHR '','' # t" "skip_ws (CHR '']'' # t) = CHR '']'' # t"
  "skip_ws (CHR ''}'' # t) = CHR ''}'' # t" "skip_ws (CHR '':'' # t) = CHR '':'' # t"
  "skip_ws (CHR '' '' # t) = skip_ws t" "skip_ws (CHR 0x22 # t) = CHR 0x22 # t"
  by (simp_all add: skip_ws_def json_ws_def)

lemma scan_value_atom:
  assumes "s \<noteq> []" "hd s \<noteq> CHR 0x22" "hd s \<noteq> CHR ''[''" "hd s \<noteq> CHR ''{''"
  shows "scan_value (Suc n) s = scan_atom s"
  using assms by (cases s) auto

lemma scan_value_number:
  assumes "scan_number s = Some (v, [])" "delimited t"
  shows "scan_value (Suc n) (s @ t) = Some (v, t)"
proof -
  from scan_number_append[OF assms] have "scan_number (s @ t) = Some (v, t)" by simp
  then have "scan_atom (s @ t) = Some (v, t)" by (rule scan_atom_number)
  moreover have "s @ t \<noteq> []" "hd (s @ t) \<notin> {CHR 0x22, CHR ''['', CHR ''{''}"
    using scan_number_start[OF assms(1)] by (auto simp: is_digit_def)
  ultimately show ?thesis by (simp add: scan_value_atom del: scan_value.simps)
qed

lemma scan_value_float:
  assumes "float_lexeme l" "delimited t"
  shows "scan_value (Suc n) (l @ t) = Some (JFloat l, t)"
  using assms(1) unfolding float_lexeme_def
proof (elim disjE)
  assume "scan_number l = Some (JFloat l, [])"
  then show ?thesis using assms(2) by (rule scan_value_number)
qed (simp_all add: scan_atom_def scan_word_def starts_with_def scan_number_def lex_signed_def
    lex_int_def is_digit_def)

text \<open>
  What the round trip needs of a printer: the scanner reads each character back from the
  text it is printed as.
\<close>

locale json_escape =
  fixes esc :: "char \<Rightarrow> string"
  assumes scan_esc: "scan_string (esc c @ t) = push c (scan_string t)"
begin

lemma scan_escaped: "scan_string (concat (map esc s) @ CHR 0x22 # t) = Some (s, t)"
  by (induction s) (simp_all add: scan_esc push_def)

lemma dumps_start:
  assumes "wf_json v"
  obtains c cs where "dumps_with esc v = c # cs" "value_start c"
proof -
  have "dumps_with esc v \<noteq> [] \<and> value_start (hd (dumps_with esc v))"
  proof (cases v)
    case (JInt i)
    then show ?thesis using int_str_start[of i] digit_value_start
      by (auto simp: value_start_def json_ws_def)
  next
    case (JFloat l)
    then show ?thesis using float_lexeme_start[of l] digit_value_start assms
      by (auto simp: value_start_def json_ws_def)
  qed (auto simp: value_start_def json_ws_def quote_with_def)
  then show ?thesis using that by (cases "dumps_with esc v") auto
qed

lemma skip_ws_dumps: "wf_json v \<Longrightarrow> skip_ws (dumps_with esc v @ t) = dumps_with esc v @ t"
  by (erule dumps_start) (simp add: skip_ws_start)

lemma elems_start:
  assumes "wf_elems vs" "vs \<noteq> []"
  obtains c cs where "elems_with esc vs = c # cs" "value_start c"
proof -
  from assms obtain v vs' where vs: "vs = v # vs'" "wf_json v" by (cases vs) auto
  obtain c cs where "dumps_with esc v = c # cs" "value_start c" using dumps_start[OF vs(2)] .
  with vs that show ?thesis by (cases "vs' = []") auto
qed

text \<open>One level of the text of a list or a dictionary, given that the rest is read back.\<close>

lemma members_start: "kvs \<noteq> [] \<Longrightarrow> \<exists>cs. members_with esc kvs = CHR 0x22 # cs"
  by (cases kvs) (auto simp: quote_with_def)

lemma scan_list:
  assumes "wf_elems vs" "vs \<noteq> [] \<Longrightarrow> scan_elems m (elems_with esc vs @ CHR '']'' # t) = Some (vs, t)"
  shows "scan_value (Suc m) (dumps_with esc (JList vs) @ t) = Some (JList vs, t)"
proof (cases "vs = []")
  case False
  obtain c cs where "elems_with esc vs = c # cs" "value_start c" using elems_start[OF assms(1) False] .
  with assms(2)[OF False] show ?thesis by (simp add: skip_ws_start value_start_def)
qed simp

lemma scan_dict:
  assumes "wf_dict kvs" "kvs \<noteq> [] \<Longrightarrow> scan_members m (members_with esc kvs @ CHR ''}'' # t) = Some (kvs, t)"
  shows "scan_value (Suc m) (dumps_with esc (JDict kvs) @ t) = Some (JDict kvs, t)"
proof (cases "kvs = []")
  case False
  obtain cs where "members_with esc kvs = CHR 0x22 # cs" using members_start[OF False] ..
  with assms(1) assms(2)[OF False] show ?thesis by (simp add: dict_of_pairs_wf)
qed (simp add: dict_of_pairs_def)

lemma scan_elems_Cons:
  assumes "wf_elems vs" "\<And>t. delimited t \<Longrightarrow> scan_value m (dumps_with esc v @ t) = Some (v, t)"
    and "vs \<noteq> [] \<Longrightarrow> scan_elems m (elems_with esc vs @ CHR '']'' # t) = Some (vs, t)"
  shows "scan_elems (Suc m) (elems_with esc (v # vs) @ CHR '']'' # t) = Some (v # vs, t)"
proof (cases "vs = []")
  case False
  obtain c cs where "elems_with esc vs = c # cs" "value_start c" using elems_start[OF assms(1) False] .
  with False assms(2) assms(3)[OF False] show ?thesis by (simp add: skip_ws_start)
qed (simp add: assms(2))

lemma scan_members_Cons:
  assumes "wf_json v" "\<And>t. delimited t \<Longrightarrow> scan_value m (dumps_with esc v @ t) = Some (v, t)"
    and "kvs \<noteq> [] \<Longrightarrow> scan_members m (members_with esc kvs @ CHR ''}'' # t) = Some (kvs, t)"
  shows "scan_members (Suc m) (members_with esc ((k, v) # kvs) @ CHR ''}'' # t) = Some ((k, v) # kvs, t)"
proof (cases "kvs = []")
  case False
  obtain cs where "members_with esc kvs = CHR 0x22 # cs" using members_start[OF False] ..
  with False assms(1,2) assms(3)[OF False] show ?thesis by (simp add: quote_with_def scan_escaped skip_ws_dumps)
qed (simp add: assms(1,2) quote_with_def scan_escaped skip_ws_dumps)

lemma scan_dumps:
  "wf_json v \<Longrightarrow> need v \<le> n \<Longrightarrow> delimited t \<Longrightarrow> scan_value n (dumps_with esc v @ t) = Some (v, t)"
  "wf_elems vs \<Longrightarrow> vs \<noteq> [] \<Longrightarrow> need_elems vs \<le> n \<Longrightarrow>
     scan_elems n (elems_with esc vs @ CHR '']'' # t) = Some (vs, t)"
  "wf_members kvs \<Longrightarrow> kvs \<noteq> [] \<Longrightarrow> need_members kvs \<le> n \<Longrightarrow>
     scan_members n (members_with esc kvs @ CHR ''}'' # t) = Some (kvs, t)"
proof (induction v and vs and kvs arbitrary: n t and n t and n t rule: need_need_elems_need_members.induct)
  case 1
  then show ?case by (cases n) (simp_all add: scan_atom_def scan_word_def starts_with_def)
next
  case (2 b)
  then show ?case by (cases n) (simp_all add: scan_atom_def scan_word_def starts_with_def)
next
  case (3 i)
  then show ?case using scan_value_number[OF scan_number_int_str] by (cases n) simp_all
next
  case (4 l)
  then show ?case using scan_value_float by (cases n) simp_all
next
  case (5 s)
  then show ?case by (cases n) (simp_all add: quote_with_def scan_escaped)
next
  case (6 vs)
  from "6.prems" obtain m where n: "n = Suc m" "need_elems vs \<le> m" by (cases n) auto
  show ?case unfolding n(1) by (rule scan_list) (use 6 n in simp_all)
next
  case (7 kvs)
  from "7.prems" obtain m where n: "n = Suc m" "need_members kvs \<le> m" by (cases n) auto
  show ?case unfolding n(1) by (rule scan_dict) (use 7 n in simp_all)
next
  case (9 v vs)
  from "9.prems" obtain m where n: "n = Suc m" "need v \<le> m" "need_elems vs \<le> m" by (cases n) auto
  show ?case unfolding n(1) by (rule scan_elems_Cons) (use 9 n in simp_all)
next
  case (11 k v kvs)
  from "11.prems" obtain m where n: "n = Suc m" "need v \<le> m" "need_members kvs \<le> m" by (cases n) auto
  show ?case unfolding n(1) by (rule scan_members_Cons) (use 11 n in simp_all)
qed simp_all

lemma need_length:
  "wf_json v \<Longrightarrow> need v \<le> length (dumps_with esc v)"
  "wf_elems vs \<Longrightarrow> need_elems vs \<le> Suc (length (elems_with esc vs))"
  "wf_members kvs \<Longrightarrow> need_members kvs \<le> Suc (length (members_with esc kvs))"
proof (induction v and vs and kvs rule: need_need_elems_need_members.induct)
  case (3 i)
  then show ?case using int_str_start[of i] by (cases "int_str i") auto
next
  case (4 l)
  then show ?case using float_lexeme_start[of l] by (cases l) auto
qed (auto simp: quote_with_def)

text \<open>\<open>json.loads(json.dumps(v)) == v\<close>, for every value whose float literals are float literals.\<close>

theorem loads_with: "wf_json v \<Longrightarrow> loads (dumps_with esc v) = Some v"
proof -
  assume wf: "wf_json v"
  have "scan_value (2 * length (dumps_with esc v) + 1) (dumps_with esc v @ []) = Some (v, [])"
    using wf need_length(1)[OF wf] by (intro scan_dumps) auto
  with skip_ws_dumps[OF wf, of "[]"] show ?thesis by (simp add: loads_def)
qed

end

interpretation ascii: json_escape esc_char
  by unfold_locales (rule scan_esc_char)

interpretation raw: json_escape raw_char
  by unfold_locales (rule scan_raw_char)

lemmas loads_dumps = ascii.loads_with

section \<open>The scanner consumes input, so its fuel suffices\<close>

lemma skip_ws_length: "length (skip_ws s) \<le> length s"
  by (simp add: skip_ws_def length_dropWhile_le)

lemma skip_ws_Cons: "skip_ws s = c # t \<Longrightarrow> length t < length s"
  using skip_ws_length[of s] by simp

lemma scan_string_shrinks: "scan_string s = Some (k, r) \<Longrightarrow> length r < length s"
proof (induction s arbitrary: k r rule: length_induct)
  case (1 s)
  then have IH: "\<And>t k r. length t < length s \<Longrightarrow> scan_string t = Some (k, r) \<Longrightarrow> length r < length t"
    by blast
  show ?case
  proof (cases s)
    case Nil
    with "1.prems" show ?thesis by simp
  next
    case (Cons c cs)
    have "length r \<le> length cs" using "1.prems" unfolding Cons
      by (auto simp: push_def Cons split: if_splits list.splits option.splits dest!: IH[rotated])
    with Cons show ?thesis by simp
  qed
qed

lemma lex_int_shrinks: "lex_int s = Some (l, r) \<Longrightarrow> length r < length s"
  by (auto simp: lex_int_def le_imp_less_Suc length_dropWhile_le split: list.splits if_splits)

lemma lex_signed_shrinks: "lex_signed s = Some (l, r) \<Longrightarrow> length r < length s"
  by (auto simp: lex_signed_def dest: lex_int_shrinks split: list.splits if_splits)

lemma lex_frac_shrinks: "lex_frac s = (l, r) \<Longrightarrow> length r \<le> length s"
  by (auto simp: lex_frac_def le_SucI length_dropWhile_le split: list.splits if_splits)

lemma lex_exp_shrinks: "lex_exp s = (l, r) \<Longrightarrow> length r \<le> length s"
proof (cases s)
  case (Cons c cs)
  assume e: "lex_exp s = (l, r)"
  obtain g u where gu: "lex_sign cs = (g, u)" by (cases "lex_sign cs")
  then have "length u \<le> length cs" by (auto simp: lex_sign_def split: list.splits if_splits)
  then have "length (dropWhile is_digit u) \<le> length cs"
    using length_dropWhile_le[of is_digit u] by linarith
  with e Cons gu show ?thesis by (auto simp: lex_exp_def split: if_splits)
qed (simp add: lex_exp_def)

lemma scan_number_shrinks: "scan_number s = Some (v, r) \<Longrightarrow> length r < length s"
  using lex_signed_shrinks lex_frac_shrinks lex_exp_shrinks
  by (fastforce simp: scan_number_def split: option.splits prod.splits)

lemma scan_word_shrinks: "scan_word w v s = Some (u, r) \<Longrightarrow> w \<noteq> [] \<Longrightarrow> length r < length s"
  by (auto simp: scan_word_def starts_with_def split: if_splits) (cases s; auto)+

lemma scan_atom_shrinks: "scan_atom s = Some (v, r) \<Longrightarrow> length r < length s"
  by (auto simp: scan_atom_def dest: scan_word_shrinks scan_number_shrinks split: option.splits)

lemma scan_value_SomeD:
  assumes "scan_value (Suc n) s = Some (x, r)"
  obtains (str) c cs t where "s = c # cs" "scan_string cs = Some (t, r)"
  | (empty) c cs d where "s = c # cs" "skip_ws cs = d # r"
  | (elems) c cs vs where "s = c # cs" "scan_elems n (skip_ws cs) = Some (vs, r)"
  | (members) c cs kvs where "s = c # cs" "scan_members n (skip_ws cs) = Some (kvs, r)"
  | (atom) "scan_atom s = Some (x, r)"
proof -
  from assms obtain c cs where s: "s = c # cs" by (cases s) auto
  consider "c = CHR 0x22" | "c = CHR ''[''" | "c = CHR ''{''"
    | "c \<noteq> CHR 0x22" "c \<noteq> CHR ''[''" "c \<noteq> CHR ''{''" by blast
  then show ?thesis
  proof cases
    case 1
    with assms s str show ?thesis by auto
  next
    case 2
    with assms s empty elems show ?thesis by (auto split: list.splits if_splits)
  next
    case 3
    with assms s empty members show ?thesis by (auto split: list.splits if_splits)
  next
    case 4
    with assms s atom show ?thesis by simp
  qed
qed

lemma scan_elems_SomeD:
  assumes "scan_elems (Suc n) s = Some (x, r)"
  obtains v r1 d r2 where "scan_value n s = Some (v, r1)" "skip_ws r1 = d # r2"
    "r = r2 \<or> (\<exists>vs. scan_elems n (skip_ws r2) = Some (vs, r))"
  using assms by (auto split: option.splits list.splits if_splits)

lemma scan_members_SomeD:
  assumes "scan_members (Suc n) s = Some (x, r)"
  obtains c cs k r1 e r2 v r3 d r4 where "s = c # cs" "scan_string cs = Some (k, r1)" "skip_ws r1 = e # r2"
    "scan_value n (skip_ws r2) = Some (v, r3)" "skip_ws r3 = d # r4"
    "r = r4 \<or> (\<exists>vs. scan_members n (skip_ws r4) = Some (vs, r))"
proof -
  from assms obtain c cs where s: "s = c # cs" by (cases s) auto
  with assms obtain k r1 where k: "c = CHR 0x22" "scan_string cs = Some (k, r1)"
    by (auto split: if_splits option.splits)
  with assms s obtain e r2 where e: "skip_ws r1 = e # r2" "e = CHR '':''"
    by (auto split: list.splits if_splits)
  with assms s k obtain v r3 where v: "scan_value n (skip_ws r2) = Some (v, r3)"
    by (auto split: option.splits)
  with assms s k e obtain d r4 where d: "skip_ws r3 = d # r4"
    by (auto split: list.splits)
  with assms s k e v have "r = r4 \<or> (\<exists>vs. scan_members n (skip_ws r4) = Some (vs, r))"
    by (auto split: if_splits)
  with s k e v d that show ?thesis by blast
qed

lemma value_shrinks:
  assumes "\<And>s v r. scan_elems n s = Some (v, r) \<Longrightarrow> length r < length s"
    and "\<And>s v r. scan_members n s = Some (v, r) \<Longrightarrow> length r < length s"
    and "scan_value (Suc n) s = Some (x, r)"
  shows "length r < length s"
  using assms(3)
proof (cases rule: scan_value_SomeD)
  case (str c cs t)
  then show ?thesis using scan_string_shrinks[of cs t r] by simp
next
  case (empty c cs d)
  then show ?thesis using skip_ws_Cons[of cs d r] by simp
next
  case (elems c cs vs)
  then show ?thesis using assms(1)[of "skip_ws cs" vs r] skip_ws_length[of cs] by simp
next
  case (members c cs kvs)
  then show ?thesis using assms(2)[of "skip_ws cs" kvs r] skip_ws_length[of cs] by simp
next
  case atom
  then show ?thesis by (rule scan_atom_shrinks)
qed

lemma scan_shrinks:
  "(\<forall>s v r. scan_value n s = Some (v, r) \<longrightarrow> length r < length s) \<and>
   (\<forall>s v r. scan_elems n s = Some (v, r) \<longrightarrow> length r < length s) \<and>
   (\<forall>s v r. scan_members n s = Some (v, r) \<longrightarrow> length r < length s)"
proof (induction n)
  case (Suc n)
  then have v: "\<And>s v r. scan_value n s = Some (v, r) \<Longrightarrow> length r < length s"
    and e: "\<And>s v r. scan_elems n s = Some (v, r) \<Longrightarrow> length r < length s"
    and m: "\<And>s v r. scan_members n s = Some (v, r) \<Longrightarrow> length r < length s" by blast+
  have "length r < length s" if "scan_elems (Suc n) s = Some (x, r)" for s x r
    using that
  proof (cases rule: scan_elems_SomeD)
    case (1 u r1 d r2)
    then have "length r \<le> length r2" using e[of "skip_ws r2" _ r] skip_ws_length[of r2] by fastforce
    with v[OF 1(1)] skip_ws_Cons[OF 1(2)] show ?thesis by linarith
  qed
  moreover have "length r < length s" if "scan_members (Suc n) s = Some (x, r)" for s x r
    using that
  proof (cases rule: scan_members_SomeD)
    case (1 c cs k r1 f r2 u r3 d r4)
    then have "length r \<le> length r4" using m[of "skip_ws r4" _ r] skip_ws_length[of r4] by fastforce
    with v[OF 1(4)] skip_ws_Cons[OF 1(3)] skip_ws_Cons[OF 1(5)] scan_string_shrinks[OF 1(2)]
      skip_ws_length[of r2] 1(1) show ?thesis by simp
  qed
  moreover have "length r < length s" if "scan_value (Suc n) s = Some (x, r)" for s x r
    using value_shrinks[OF e m that] .
  ultimately show ?case by blast
qed simp

lemma scan_value_shrinks: "scan_value n s = Some (v, r) \<Longrightarrow> length r < length s"
  using scan_shrinks[of n] by blast

text \<open>From twice the length of the text on, more fuel changes nothing.\<close>

lemma value_fuel:
  assumes "\<And>c cs. s = c # cs \<Longrightarrow> scan_elems (Suc n) (skip_ws cs) = scan_elems n (skip_ws cs)"
    and "\<And>c cs. s = c # cs \<Longrightarrow> scan_members (Suc n) (skip_ws cs) = scan_members n (skip_ws cs)"
  shows "scan_value (Suc (Suc n)) s = scan_value (Suc n) s"
proof (cases s)
  case (Cons c cs)
  with assms show ?thesis
    by (simp only: scan_value.simps list.case split: list.splits)
      (auto split: list.splits simp del: scan_value.simps scan_elems.simps scan_members.simps)
qed simp

lemma elems_fuel:
  assumes "scan_value (Suc n) s = scan_value n s"
    and "\<And>u r1 d r2. scan_value n s = Some (u, r1) \<Longrightarrow> skip_ws r1 = d # r2 \<Longrightarrow>
      scan_elems (Suc n) (skip_ws r2) = scan_elems n (skip_ws r2)"
  shows "scan_elems (Suc (Suc n)) s = scan_elems (Suc n) s"
  using assms by (subst (1 2) scan_elems.simps(2))
    (auto split: option.splits list.splits simp del: scan_value.simps scan_elems.simps)

lemma members_fuel:
  assumes "\<And>c cs k r1 f r2. s = c # cs \<Longrightarrow> scan_string cs = Some (k, r1) \<Longrightarrow> skip_ws r1 = f # r2 \<Longrightarrow>
      scan_value (Suc n) (skip_ws r2) = scan_value n (skip_ws r2)"
    and "\<And>c cs k r1 f r2 u r3 d r4. s = c # cs \<Longrightarrow> scan_string cs = Some (k, r1) \<Longrightarrow> skip_ws r1 = f # r2 \<Longrightarrow>
      scan_value n (skip_ws r2) = Some (u, r3) \<Longrightarrow> skip_ws r3 = d # r4 \<Longrightarrow>
      scan_members (Suc n) (skip_ws r4) = scan_members n (skip_ws r4)"
  shows "scan_members (Suc (Suc n)) s = scan_members (Suc n) s"
proof (cases s)
  case (Cons c cs)
  show ?thesis
    using assms[OF Cons] unfolding Cons
    by (subst (1 2) scan_members.simps(2))
      (auto split: option.splits list.splits simp del: scan_value.simps scan_members.simps)
qed simp

lemma scan_fuel:
  "(\<forall>s. 2 * length s + 1 \<le> n \<longrightarrow> scan_value (Suc n) s = scan_value n s) \<and>
   (\<forall>s. 2 * length s + 2 \<le> n \<longrightarrow> scan_elems (Suc n) s = scan_elems n s) \<and>
   (\<forall>s. 2 * length s + 2 \<le> n \<longrightarrow> scan_members (Suc n) s = scan_members n s)"
proof (induction n)
  case (Suc n)
  then have v: "\<And>s. 2 * length s + 1 \<le> n \<Longrightarrow> scan_value (Suc n) s = scan_value n s"
    and e: "\<And>s. 2 * length s + 2 \<le> n \<Longrightarrow> scan_elems (Suc n) s = scan_elems n s"
    and m: "\<And>s. 2 * length s + 2 \<le> n \<Longrightarrow> scan_members (Suc n) s = scan_members n s" by blast+
  have sk: "2 * length (skip_ws r) + 2 \<le> n" if "2 * length r + 2 \<le> n" for r
    using that skip_ws_length[of r] by linarith
  have "scan_value (Suc (Suc n)) s = scan_value (Suc n) s" if "2 * length s + 1 \<le> Suc n" for s
    by (rule value_fuel; intro e m sk; use that in simp)
  moreover have "scan_elems (Suc (Suc n)) s = scan_elems (Suc n) s" if "2 * length s + 2 \<le> Suc n" for s
  proof (rule elems_fuel)
    show "scan_value (Suc n) s = scan_value n s" using that by (intro v) simp
    show "scan_elems (Suc n) (skip_ws r2) = scan_elems n (skip_ws r2)"
      if "scan_value n s = Some (u, r1)" "skip_ws r1 = d # r2" for u r1 d r2
      using \<open>2 * length s + 2 \<le> Suc n\<close> scan_value_shrinks[OF that(1)] skip_ws_Cons[OF that(2)]
      by (intro e sk) simp
  qed
  moreover have "scan_members (Suc (Suc n)) s = scan_members (Suc n) s" if len: "2 * length s + 2 \<le> Suc n" for s
  proof (rule members_fuel)
    fix c cs k r1 f r2
    assume r: "s = c # cs" "scan_string cs = Some (k, r1)" "skip_ws r1 = f # r2"
    note less = scan_string_shrinks[OF r(2)] skip_ws_Cons[OF r(3)] skip_ws_length[of r2]
    show "scan_value (Suc n) (skip_ws r2) = scan_value n (skip_ws r2)" using len r(1) less by (intro v) simp
    show "scan_members (Suc n) (skip_ws r4) = scan_members n (skip_ws r4)"
      if "scan_value n (skip_ws r2) = Some (u, r3)" "skip_ws r3 = d # r4" for u r3 d r4
      using len r(1) less scan_value_shrinks[OF that(1)] skip_ws_Cons[OF that(2)] by (intro m sk) simp
  qed
  ultimately show ?case by blast
qed simp

lemma scan_value_fuel: "2 * length s + 1 \<le> n \<Longrightarrow> scan_value n s = scan_value (2 * length s + 1) s"
proof (induction n rule: dec_induct)
  case base
  then show ?case ..
next
  case (step n)
  with scan_fuel[of n] show ?case by simp
qed

text \<open>So \<open>loads\<close> is the scanner at any sufficient fuel: a text it refuses is refused for its content.\<close>

theorem loads_fuel:
  assumes "2 * length (skip_ws s) + 1 \<le> n"
  shows "loads s = (case scan_value n (skip_ws s) of
     None \<Rightarrow> None | Some (v, r) \<Rightarrow> if skip_ws r = [] then Some v else None)"
  using scan_value_fuel[OF assms] by (simp add: loads_def Let_def)


section \<open>What \<open>loads\<close> returns is well formed\<close>

definition nodigit :: "string \<Rightarrow> bool" where
  "nodigit u = (u = [] \<or> \<not> is_digit (hd u))"

lemma take_digits_stop:
  assumes "nodigit u"
  shows "takeWhile is_digit (takeWhile is_digit s @ u) = takeWhile is_digit s"
    and "dropWhile is_digit (takeWhile is_digit s @ u) = u"
proof -
  have "\<forall>c \<in> set (takeWhile is_digit s). is_digit c" by (auto dest: set_takeWhileD)
  moreover have "takeWhile is_digit u = []" "dropWhile is_digit u = u"
    using assms by (cases u; simp add: nodigit_def)+
  ultimately show "takeWhile is_digit (takeWhile is_digit s @ u) = takeWhile is_digit s"
    "dropWhile is_digit (takeWhile is_digit s @ u) = u" by simp_all
qed

lemma hd_takeWhile_digit: "s \<noteq> [] \<Longrightarrow> is_digit (hd s) \<Longrightarrow> takeWhile is_digit s = hd s # takeWhile is_digit (tl s)"
  by (cases s) auto

lemma lex_int_prefix:
  assumes "lex_int s = Some (l, r)" "nodigit u"
  shows "lex_int (l @ u) = Some (l, u)"
proof (cases s)
  case (Cons c cs)
  show ?thesis
  proof (cases "c = CHR ''0''")
    case False
    with assms(1) Cons have d: "is_digit c" and l: "l = c # takeWhile is_digit cs"
      by (auto simp: lex_int_def split: if_splits)
    with False show ?thesis using take_digits_stop[OF assms(2), of cs] by (simp add: lex_int_def)
  qed (use assms Cons in \<open>auto simp: lex_int_def\<close>)
qed (use assms in \<open>simp add: lex_int_def\<close>)

lemma lex_int_not_minus: "lex_int s = Some (l, r) \<Longrightarrow> \<exists>c cs. l = c # cs \<and> c \<noteq> CHR ''-''"
  by (auto simp: lex_int_def is_digit_def split: list.splits if_splits)

lemma lex_signed_prefix:
  assumes "lex_signed s = Some (l, r)" "nodigit u"
  shows "lex_signed (l @ u) = Some (l, u)"
proof (cases s)
  case (Cons c cs)
  show ?thesis
  proof (cases "c = CHR ''-''")
    case True
    with assms(1) Cons obtain l' where "l = c # l'" "lex_int cs = Some (l', r)"
      by (auto simp: lex_signed_def)
    with True show ?thesis using lex_int_prefix[of cs l' r u] assms(2) by (simp add: lex_signed_def)
  next
    case False
    with assms(1) Cons have i: "lex_int s = Some (l, r)" by (simp add: lex_signed_def)
    from lex_int_not_minus[OF i] lex_int_prefix[OF i assms(2)] show ?thesis
      by (auto simp: lex_signed_def)
  qed
qed (use assms in \<open>simp add: lex_signed_def\<close>)

lemma lex_exp_prefix:
  assumes "lex_exp s = (x, r)"
  shows "lex_exp x = (x, [])" and "x = [] \<or> hd x = CHR ''e'' \<or> hd x = CHR ''E''"
proof -
  have "lex_exp x = (x, []) \<and> (x = [] \<or> hd x = CHR ''e'' \<or> hd x = CHR ''E'')"
  proof (cases "x = []")
    case False
    with assms obtain c cs g t where s: "s = c # cs" "lex_sign cs = (g, t)" "c = CHR ''e'' \<or> c = CHR ''E''"
      "t \<noteq> []" "is_digit (hd t)" and x: "x = c # g @ takeWhile is_digit t"
      by (auto simp: lex_exp_def split: list.splits prod.splits if_splits)
    let ?t = "takeWhile is_digit t"
    have t: "?t \<noteq> []" "is_digit (hd ?t)" using s(4,5) by (simp_all add: hd_takeWhile_digit)
    have "lex_sign (g @ ?t) = (g, ?t)"
      using s(2) t digit_not_sign[OF t(2)] by (cases ?t) (auto simp: lex_sign_def split: list.splits if_splits)
    with t s(3) x take_digits_stop[of "[]" t] show ?thesis
      by (auto simp: lex_exp_def nodigit_def)
  qed (simp add: lex_exp_def)
  then show "lex_exp x = (x, [])" "x = [] \<or> hd x = CHR ''e'' \<or> hd x = CHR ''E''" by blast+
qed

lemma lex_frac_prefix:
  assumes "lex_frac s = (f, r)" "u = [] \<or> hd u = CHR ''e'' \<or> hd u = CHR ''E''"
  shows "lex_frac (f @ u) = (f, u)" and "f = [] \<or> hd f = CHR ''.''"
proof -
  have nd: "nodigit u" using assms(2) by (auto simp: nodigit_def is_digit_def)
  have "lex_frac (f @ u) = (f, u) \<and> (f = [] \<or> hd f = CHR ''.'')"
  proof (cases "f = []")
    case True
    with assms(2) show ?thesis by (cases u) (auto simp: lex_frac_def split: list.splits)
  next
    case False
    with assms(1) obtain d ds where "is_digit d" "f = CHR ''.'' # takeWhile is_digit (d # ds)"
      by (auto simp: lex_frac_def split: list.splits if_splits)
    then show ?thesis using take_digits_stop[OF nd, of ds] by (simp add: lex_frac_def)
  qed
  then show "lex_frac (f @ u) = (f, u)" "f = [] \<or> hd f = CHR ''.''" by blast+
qed

lemma scan_number_lexeme:
  assumes "scan_number s = Some (JFloat l, r)"
  shows "scan_number l = Some (JFloat l, [])"
proof -
  from assms obtain i r1 where i: "lex_signed s = Some (i, r1)"
    by (auto simp: scan_number_def split: option.splits)
  obtain f r2 where f: "lex_frac r1 = (f, r2)" by (cases "lex_frac r1")
  obtain x r3 where x: "lex_exp r2 = (x, r3)" by (cases "lex_exp r2")
  from assms i f x have l: "l = i @ f @ x" and ne: "f \<noteq> [] \<or> x \<noteq> []"
    by (auto simp: scan_number_def split: if_splits)
  note x' = lex_exp_prefix[OF x]
  note f' = lex_frac_prefix[OF f x'(2)]
  have "nodigit (f @ x)" using x'(2) f'(2) by (cases f) (auto simp: nodigit_def is_digit_def)
  from lex_signed_prefix[OF i this] f'(1) x'(1) ne show ?thesis
    unfolding l by (auto simp: scan_number_def)
qed

lemma scan_number_kind: "scan_number s = Some (v, r) \<Longrightarrow> (\<exists>i. v = JInt i) \<or> (\<exists>l. v = JFloat l)"
  by (auto simp: scan_number_def split: option.splits prod.splits if_splits)

lemma scan_number_wf: "scan_number s = Some (v, r) \<Longrightarrow> wf_json v"
  using scan_number_kind[of s v r] scan_number_lexeme[of s _ r] by (auto simp: float_lexeme_def)

lemma scan_atom_wf: "scan_atom s = Some (v, r) \<Longrightarrow> wf_json v"
proof -
  assume a: "scan_atom s = Some (v, r)"
  show ?thesis
  proof (cases "scan_number s = Some (v, r)")
    case True
    then show ?thesis by (rule scan_number_wf)
  next
    case False
    with a show ?thesis
      by (auto simp: scan_atom_def scan_word_def float_lexeme_def split: option.splits if_splits)
  qed
qed

lemma fold_set_values:
  "p \<in> set (fold (\<lambda>(k, v) d. dict_set k v d) ps d) \<Longrightarrow> p \<in> set ps \<union> set d"
proof (induction ps arbitrary: d)
  case (Cons q ps)
  obtain k v where q: "q = (k, v)" by (cases q)
  have "set (dict_set k v d) \<subseteq> insert (k, v) (set d)"
    by (induction d) (auto simp: dict_set_def)
  moreover have "p \<in> set ps \<union> set (dict_set k v d)" using Cons.IH Cons.prems q by simp
  ultimately show ?case using q by auto
qed simp

lemma wf_members_dict: "wf_members ps \<Longrightarrow> wf_members (dict_of_pairs ps)"
  using fold_set_values[of _ ps "[]"] by (fastforce simp: wf_members_iff dict_of_pairs_def)

lemma scan_wf:
  "(\<forall>s v r. scan_value n s = Some (v, r) \<longrightarrow> wf_json v) \<and>
   (\<forall>s vs r. scan_elems n s = Some (vs, r) \<longrightarrow> wf_elems vs) \<and>
   (\<forall>s kvs r. scan_members n s = Some (kvs, r) \<longrightarrow> wf_members kvs)"
proof (induction n)
  case 0
  then show ?case by simp
next
  case (Suc n)
  then have v: "\<And>s v r. scan_value n s = Some (v, r) \<Longrightarrow> wf_json v"
    and e: "\<And>s v r. scan_elems n s = Some (v, r) \<Longrightarrow> wf_elems v"
    and m: "\<And>s v r. scan_members n s = Some (v, r) \<Longrightarrow> wf_members v" by blast+
  have "wf_json x" if "scan_value (Suc n) s = Some (x, r)" for s x r
  proof -
    from that obtain c cs where s: "s = c # cs" by (cases s) auto
    consider "c = CHR 0x22" | "c = CHR ''[''" | "c = CHR ''{''"
      | "c \<noteq> CHR 0x22" "c \<noteq> CHR ''[''" "c \<noteq> CHR ''{''" by blast
    then show ?thesis
      by cases (use that s e m in \<open>auto simp: wf_members_dict wf_dict_of_pairs dest: scan_atom_wf
          split: list.splits if_splits\<close>)
  qed
  moreover have "wf_elems x" if "scan_elems (Suc n) s = Some (x, r)" for s x r
    using that by (auto split: option.splits list.splits if_splits) (blast dest: v e)+
  moreover have "wf_members x" if "scan_members (Suc n) s = Some (x, r)" for s x r
    using that by (auto split: option.splits list.splits if_splits) (blast dest: v m)+
  ultimately show ?case by blast
qed

theorem loads_wf: "loads s = Some v \<Longrightarrow> wf_json v"
  using scan_wf[of "2 * length (skip_ws s) + 1", THEN conjunct1]
  by (auto simp: loads_def Let_def simp del: scan_value.simps split: option.splits if_splits) blast

section \<open>The codec interface\<close>

text \<open>
  What the message layer relies on: a printer and a reader of texts with the round trip on
  the values \<open>ok\<close>, and a reader that returns only such values.
\<close>

locale text_codec =
  fixes enc :: "'v \<Rightarrow> string" and dec :: "string \<Rightarrow> 'v option" and ok :: "'v \<Rightarrow> bool"
  assumes dec_enc: "ok v \<Longrightarrow> dec (enc v) = Some v"
    and dec_ok: "dec s = Some v \<Longrightarrow> ok v"
begin

lemma enc_inj: "ok v \<Longrightarrow> ok w \<Longrightarrow> enc v = enc w \<Longrightarrow> v = w"
  by (metis dec_enc option.inject)

lemma reencode: "dec s = Some v \<Longrightarrow> dec (enc v) = Some v"
  by (intro dec_enc dec_ok)

end

interpretation jc: text_codec dumps loads wf_json
  by unfold_locales (auto intro: loads_dumps loads_wf)

end
