(* ===== verification/Pyvalue.thy ===== *)
theory Pyvalue
  imports Json_Roundtrip
begin

text \<open>
  The dynamic operations the code applies to a decoded JSON value without checking its type
  first: truth value, \<open>repr\<close> and \<open>str\<close>, \<open>dict(x)\<close>, iteration, and use as a
  dictionary key. They are what makes an unvalidated field matter.
\<close>

section \<open>Truth value, repr, str\<close>

fun py_truthy :: "json \<Rightarrow> bool" where
  "py_truthy JNull = False"
| "py_truthy (JBool b) = b"
| "py_truthy (JInt i) = (i \<noteq> 0)"
| "py_truthy (JFloat l) = (list_ex (\<lambda>c. c \<in> {CHR ''N'', CHR ''I''}) l \<or>
     list_ex (\<lambda>c. is_digit c \<and> c \<noteq> CHR ''0'') (takeWhile (\<lambda>c. c \<noteq> CHR ''e'' \<and> c \<noteq> CHR ''E'') l))"
| "py_truthy (JStr s) = (s \<noteq> [])"
| "py_truthy (JList vs) = (vs \<noteq> [])"
| "py_truthy (JDict kvs) = (kvs \<noteq> [])"

definition float_repr :: "string \<Rightarrow> string" where
  "float_repr l =
     (if l = ''NaN'' then ''nan'' else if l = ''Infinity'' then ''inf''
      else if l = ''-Infinity'' then ''-inf'' else l)"

fun py_repr :: "json \<Rightarrow> string"
  and repr_elems :: "json list \<Rightarrow> string"
  and repr_members :: "(string \<times> json) list \<Rightarrow> string" where
  "py_repr JNull = ''None''"
| "py_repr (JBool b) = (if b then ''True'' else ''False'')"
| "py_repr (JInt i) = int_str i"
| "py_repr (JFloat l) = float_repr l"
| "py_repr (JStr s) = repr_str s"
| "py_repr (JList vs) = ''['' @ repr_elems vs @ '']''"
| "py_repr (JDict kvs) = ''{'' @ repr_members kvs @ ''}''"
| "repr_elems [] = []"
| "repr_elems (v # vs) = (if vs = [] then py_repr v else py_repr v @ '', '' @ repr_elems vs)"
| "repr_members [] = []"
| "repr_members ((k, v) # kvs) =
     repr_str k @ '': '' @ (if kvs = [] then py_repr v else py_repr v @ '', '' @ repr_members kvs)"

definition py_str :: "json \<Rightarrow> string" where
  "py_str v = (case v of JStr s \<Rightarrow> s | _ \<Rightarrow> py_repr v)"

section \<open>Iteration, keys, dict()\<close>

text \<open>\<open>iter(x)\<close>: \<open>None\<close> is \<open>TypeError\<close>.\<close>

definition py_iter :: "json \<Rightarrow> json list option" where
  "py_iter v = (case v of
     JList vs \<Rightarrow> Some vs
   | JStr s \<Rightarrow> Some (map (\<lambda>c. JStr [c]) s)
   | JDict kvs \<Rightarrow> Some (map (\<lambda>(k, _). JStr k) kvs)
   | _ \<Rightarrow> None)"

text \<open>Lists and dicts are not hashable: using one as a key raises \<open>TypeError\<close>.\<close>

fun py_hashable :: "json \<Rightarrow> bool" where
  "py_hashable (JList vs) = False"
| "py_hashable (JDict kvs) = False"
| "py_hashable v = True"

text \<open>
  A key as \<open>json.dumps\<close> writes it. A dict whose keys are not strings is held with its
  keys in this form: it is only ever printed or searched for a fixed name.
\<close>

definition key_text :: "json \<Rightarrow> string" where
  "key_text v = (case v of JStr s \<Rightarrow> s | _ \<Rightarrow> dumps v)"

fun dict_items :: "json list \<Rightarrow> (string \<times> json) list result" where
  "dict_items [] = Inr []"
| "dict_items (x # xs) = (case py_iter x of
     None \<Rightarrow> Inl PyTypeError
   | Some [k, v] \<Rightarrow>
       if py_hashable k then
         (case dict_items xs of Inl e \<Rightarrow> Inl e | Inr kvs \<Rightarrow> Inr ((key_text k, v) # kvs))
       else Inl PyTypeError
   | Some _ \<Rightarrow> Inl (PyValueError ''dictionary update sequence element has the wrong length''))"

definition py_dict :: "json \<Rightarrow> (string, json) dict result" where
  "py_dict v = (case v of
     JDict kvs \<Rightarrow> Inr kvs
   | _ \<Rightarrow> (case py_iter v of
       None \<Rightarrow> Inl PyTypeError
     | Some xs \<Rightarrow> (case dict_items xs of Inl e \<Rightarrow> Inl e | Inr kvs \<Rightarrow> Inr (dict_of_pairs kvs))))"

text \<open>\<open>isinstance(x, int)\<close>: \<open>bool\<close> is a subclass of \<open>int\<close>.\<close>

definition as_int :: "json \<Rightarrow> int option" where
  "as_int v = (case v of JInt i \<Rightarrow> Some i | JBool b \<Rightarrow> Some (if b then 1 else 0) | _ \<Rightarrow> None)"

definition as_str :: "json \<Rightarrow> string option" where
  "as_str v = (case v of JStr s \<Rightarrow> Some s | _ \<Rightarrow> None)"

definition as_dict :: "json \<Rightarrow> (string, json) dict option" where
  "as_dict v = (case v of JDict d \<Rightarrow> Some d | _ \<Rightarrow> None)"

definition get_default :: "(string, json) dict \<Rightarrow> string \<Rightarrow> json \<Rightarrow> json" where
  "get_default d k v = (case dict_get d k of Some w \<Rightarrow> w | None \<Rightarrow> v)"

lemma as_simps [simp]:
  "as_str (JStr s) = Some s" "as_dict (JDict d) = Some d"
  "as_str v = Some s \<longleftrightarrow> v = JStr s" "as_dict v = Some d \<longleftrightarrow> v = JDict d"
  by (auto simp: as_str_def as_dict_def split: json.splits)

lemma as_str_None: "as_str v = None \<longleftrightarrow> (\<forall>s. v \<noteq> JStr s)"
  by (cases v) (auto simp: as_str_def)

text \<open>\<open>dict(x)\<close> of a dict is a copy; of \<open>None\<close>, a number or a boolean it raises.\<close>

lemma py_dict_dict [simp]: "py_dict (JDict d) = Inr d"
  by (simp add: py_dict_def)

lemma py_dict_null: "py_dict JNull = Inl PyTypeError"
  by (simp add: py_dict_def py_iter_def)

lemma dict_items_error: "dict_items xs = Inl e \<Longrightarrow> e = PyTypeError \<or> (\<exists>m. e = PyValueError m)"
  by (induction xs rule: dict_items.induct) (auto split: option.splits list.splits if_splits sum.splits)

lemma py_dict_error: "py_dict v = Inl e \<Longrightarrow> e = PyTypeError \<or> (\<exists>m. e = PyValueError m)"
  by (auto simp: py_dict_def dest: dict_items_error split: json.splits option.splits sum.splits)

lemma iter_wf: "py_iter v = Some xs \<Longrightarrow> wf_json v \<Longrightarrow> wf_elems xs"
  by (auto simp: py_iter_def wf_elems_iff split: json.splits)

lemma dict_items_wf: "dict_items xs = Inr kvs \<Longrightarrow> wf_elems xs \<Longrightarrow> wf_members kvs"
proof (induction xs arbitrary: kvs rule: dict_items.induct)
  case (2 x xs)
  from "2.prems" obtain k v kvs' where *: "py_iter x = Some [k, v]" "dict_items xs = Inr kvs'"
    "py_hashable k" "kvs = (key_text k, v) # kvs'"
    by (auto split: option.splits list.splits if_splits sum.splits)
  moreover have "wf_json v" using iter_wf[OF *(1)] "2.prems" by simp
  ultimately show ?case using 2 by auto
qed simp

lemma py_dict_wf:
  assumes "py_dict v = Inr d" "wf_json v"
  shows "wf_dict d" "wf_members d"
proof -
  have "wf_dict d \<and> wf_members d"
  proof (cases v)
    case (JDict kvs)
    with assms show ?thesis by (auto simp: py_dict_def)
  qed (use assms in \<open>auto simp: py_dict_def wf_dict_of_pairs split: option.splits sum.splits
      intro!: wf_members_dict elim!: dict_items_wf dest: iter_wf\<close>)
  then show "wf_dict d" "wf_members d" by auto
qed

end
