(* ===== verification/Protocol.thy ===== *)
theory Protocol
  imports Pyvalue
begin

text \<open>
  The message layer, \<open>src/robotsix_agent_comm/protocol/\<close>: the message classes and reply
  builders of \<open>messages.py\<close>, the checks of \<open>validation.py\<close>, the JSON form of
  \<open>serialization.py\<close>, the enumerations of \<open>_types.py\<close> and the secret redaction of
  \<open>config_contract.py\<close>.

  The four concrete classes are one record whose \<open>mtype\<close> is the class. The addresses
  \<open>sender\<close> and \<open>recipient\<close> are JSON values: \<open>validate\<close> does not check the
  recipient, and a reply takes its sender from there. Fresh message ids and time stamps are
  arguments of the functions that create messages.
\<close>

section \<open>Message model (messages.py, _types.py)\<close>

datatype message_type = REQUEST | RESPONSE | ERROR | NOTIFICATION

datatype traffic_disposition = QUEUED | REJECTED | ROUTED | UNKNOWN_RECIPIENT

datatype agent_status = ACTIVE | STALE | UNKNOWN

fun mt_value :: "message_type \<Rightarrow> string" where
  "mt_value REQUEST = ''request''"
| "mt_value RESPONSE = ''response''"
| "mt_value ERROR = ''error''"
| "mt_value NOTIFICATION = ''notification''"

text \<open>\<open>MessageType(value)\<close>; \<open>None\<close> is \<open>ValueError\<close>.\<close>

definition message_type_of :: "json \<Rightarrow> message_type option" where
  "message_type_of v =
     (if v = JStr ''request'' then Some REQUEST
      else if v = JStr ''response'' then Some RESPONSE
      else if v = JStr ''error'' then Some ERROR
      else if v = JStr ''notification'' then Some NOTIFICATION
      else None)"

definition PROTOCOL_VERSION :: string where
  "PROTOCOL_VERSION = ''1.0''"

record metadata =
  sender :: json
  recipient :: json
  timestamp :: string
  extra :: "(string, json) dict"

record message =
  mtype :: message_type
  meta :: metadata
  message_id :: string
  protocol_version :: string
  body :: "(string, json) dict"
  correlation_id :: "string option"

text \<open>\<open>Metadata.create\<close>, with the time stamp given.\<close>

definition metadata_create :: "string \<Rightarrow> json \<Rightarrow> json \<Rightarrow> (string, json) dict \<Rightarrow> metadata" where
  "metadata_create now sdr rcp ext = \<lparr>sender = sdr, recipient = rcp, timestamp = now, extra = ext\<rparr>"

definition mk_request :: "string \<Rightarrow> metadata \<Rightarrow> (string, json) dict \<Rightarrow> message" where
  "mk_request mid md b =
     \<lparr>mtype = REQUEST, meta = md, message_id = mid, protocol_version = PROTOCOL_VERSION,
      body = b, correlation_id = None\<rparr>"

definition mk_notification :: "string \<Rightarrow> metadata \<Rightarrow> (string, json) dict \<Rightarrow> message" where
  "mk_notification mid md b =
     \<lparr>mtype = NOTIFICATION, meta = md, message_id = mid, protocol_version = PROTOCOL_VERSION,
      body = b, correlation_id = None\<rparr>"

definition build_reply_metadata ::
  "string \<Rightarrow> message \<Rightarrow> string option \<Rightarrow> (string, json) dict \<Rightarrow> metadata" where
  "build_reply_metadata now request sdr ext =
     (let reply_sender = (case sdr of Some s \<Rightarrow> JStr s | None \<Rightarrow> recipient (meta request));
          reply_sender = (if reply_sender = JNull then sender (meta request) else reply_sender)
      in metadata_create now reply_sender (sender (meta request)) ext)"

text \<open>The \<open>Response\<close> constructor: \<open>__post_init__\<close> refuses a missing correlation id.\<close>

definition mk_response ::
  "string \<Rightarrow> string \<Rightarrow> metadata \<Rightarrow> (string, json) dict \<Rightarrow> string option \<Rightarrow> message result" where
  "mk_response mid ver md b corr =
     (if corr = None then Inl (PyValueError ''Response requires a correlation_id'')
      else Inr \<lparr>mtype = RESPONSE, meta = md, message_id = mid, protocol_version = ver,
                body = b, correlation_id = corr\<rparr>)"

definition response_to ::
  "string \<Rightarrow> string \<Rightarrow> message \<Rightarrow> (string, json) dict option \<Rightarrow> string option \<Rightarrow>
   (string, json) dict \<Rightarrow> message result" where
  "response_to now mid request b sdr ext =
     mk_response mid PROTOCOL_VERSION (build_reply_metadata now request sdr ext)
       (case b of Some d \<Rightarrow> d | None \<Rightarrow> []) (Some (message_id request))"

text \<open>The dict literal \<open>{"code": code, "message": message, **details}\<close>.\<close>

definition error_body :: "string \<Rightarrow> string \<Rightarrow> (string, json) dict \<Rightarrow> (string, json) dict" where
  "error_body code msg details = dict_of_pairs ((''code'', JStr code) # (''message'', JStr msg) # details)"

definition error_to ::
  "string \<Rightarrow> string \<Rightarrow> message \<Rightarrow> string \<Rightarrow> string \<Rightarrow> string option \<Rightarrow> (string, json) dict \<Rightarrow> message" where
  "error_to now mid request code msg sdr details =
     \<lparr>mtype = ERROR, meta = build_reply_metadata now request sdr [], message_id = mid,
      protocol_version = PROTOCOL_VERSION, body = error_body code msg details,
      correlation_id = Some (message_id request)\<rparr>"

section \<open>Validation (validation.py)\<close>

definition REQUIRED_ENVELOPE_FIELDS :: "string list" where
  "REQUIRED_ENVELOPE_FIELDS = [''message_id'', ''type'', ''protocol_version'', ''metadata'', ''body'']"

definition major :: "string \<Rightarrow> int result" where
  "major version = (case py_int (before (CHR ''.'') version) of
     Some n \<Rightarrow> Inr n
   | None \<Rightarrow> Inl (ValidationError (''invalid protocol_version: '' @ repr_str version)))"

definition nonempty_str :: "json \<Rightarrow> bool" where
  "nonempty_str v = (case v of JStr s \<Rightarrow> s \<noteq> [] | _ \<Rightarrow> False)"

text \<open>
  The checks after the required fields are known to be present, in the code's order; the
  argument is the \<open>data\<close> dict, so a field is read with \<open>data[...]\<close>.
\<close>

definition field :: "(string, json) dict \<Rightarrow> string \<Rightarrow> json" where
  "field d k = get_default d k JNull"

definition validate_correlation :: "message_type \<Rightarrow> json \<Rightarrow> unit result" where
  "validate_correlation t corr =
     (if corr \<noteq> JNull \<and> as_str corr = None
      then Inl (ValidationError ''correlation_id must be a string or None'')
      else if t = RESPONSE \<and> corr = JNull
      then Inl (ValidationError ''RESPONSE requires a correlation_id'')
      else if t = REQUEST \<and> corr \<noteq> JNull
      then Inl (ValidationError ''REQUEST must not carry a correlation_id'')
      else if t = NOTIFICATION \<and> corr \<noteq> JNull
      then Inl (ValidationError ''NOTIFICATION must not carry a correlation_id'')
      else Inr ())"

definition validate_metadata :: "json \<Rightarrow> unit result" where
  "validate_metadata v = (case v of
     JDict md \<Rightarrow>
       if \<not> nonempty_str (get_default md ''sender'' JNull)
       then Inl (ValidationError ''metadata.sender must be a non-empty string'')
       else if \<not> nonempty_str (get_default md ''timestamp'' JNull)
       then Inl (ValidationError ''metadata.timestamp must be a non-empty string'')
       else Inr ()
   | _ \<Rightarrow> Inl (ValidationError ''metadata must be a mapping''))"

definition validate_version :: "json \<Rightarrow> unit result" where
  "validate_version v = (case v of
     JStr version \<Rightarrow>
       (case major version of
          Inl e \<Rightarrow> Inl e
        | Inr n \<Rightarrow> (case major PROTOCOL_VERSION of
            Inl e \<Rightarrow> Inl e
          | Inr m \<Rightarrow>
              if n \<noteq> m
              then Inl (UnsupportedVersionError
                (''unsupported protocol major version: '' @ repr_str version @
                 '' (expected major '' @ PROTOCOL_VERSION @ '')''))
              else Inr ()))
   | _ \<Rightarrow> Inl (ValidationError ''protocol_version must be a string''))"

definition validate_fields :: "(string, json) dict \<Rightarrow> unit result" where
  "validate_fields data =
     (if \<not> nonempty_str (field data ''message_id'')
      then Inl (ValidationError ''message_id must be a non-empty string'')
      else (case message_type_of (field data ''type'') of
        None \<Rightarrow> Inl (ValidationError (''unknown message type: '' @ py_repr (field data ''type'')))
      | Some t \<Rightarrow>
          (case validate_version (field data ''protocol_version'') of
             Inl e \<Rightarrow> Inl e
           | Inr _ \<Rightarrow>
               (case validate_metadata (field data ''metadata'') of
                  Inl e \<Rightarrow> Inl e
                | Inr _ \<Rightarrow>
                    if as_dict (field data ''body'') = None
                    then Inl (ValidationError ''body must be a mapping'')
                    else validate_correlation t (get_default data ''correlation_id'' JNull)))))"

text \<open>The dict that \<open>to_dict\<close> writes and that \<open>validate\<close> builds from a message.\<close>

definition opt_str :: "string option \<Rightarrow> json" where
  "opt_str x = (case x of Some s \<Rightarrow> JStr s | None \<Rightarrow> JNull)"

definition to_dict :: "message \<Rightarrow> (string, json) dict" where
  "to_dict m =
     [(''message_id'', JStr (message_id m)),
      (''type'', JStr (mt_value (mtype m))),
      (''protocol_version'', JStr (protocol_version m)),
      (''metadata'', JDict
        [(''sender'', sender (meta m)), (''recipient'', recipient (meta m)),
         (''timestamp'', JStr (timestamp (meta m))), (''extra'', JDict (extra (meta m)))]),
      (''body'', JDict (body m)),
      (''correlation_id'', opt_str (correlation_id m))]"

datatype validate_arg = AMessage message | ADict "(string, json) dict" | AOther string

fun validate :: "validate_arg \<Rightarrow> unit result" where
  "validate (AMessage m) = validate_fields (to_dict m)"
| "validate (ADict data) =
     (let missing = filter (\<lambda>f. \<not> dict_has data f) REQUIRED_ENVELOPE_FIELDS
      in if missing \<noteq> []
         then Inl (ValidationError (''missing envelope fields: '' @ py_repr (JList (map JStr missing))))
         else validate_fields data)"
| "validate (AOther type_name) =
     Inl (ValidationError (''cannot validate object of type '' @ type_name))"

section \<open>Serialization (serialization.py)\<close>

definition from_dict :: "(string, json) dict \<Rightarrow> message result" where
  "from_dict data = (case validate (ADict data) of
     Inl e \<Rightarrow> Inl e
   | Inr _ \<Rightarrow> (case (message_type_of (field data ''type''), as_dict (field data ''metadata''),
                   as_dict (field data ''body''), as_str (field data ''message_id''),
                   as_str (field data ''protocol_version'')) of
       (Some t, Some raw, Some b, Some mid, Some ver) \<Rightarrow>
         (case py_dict (get_default raw ''extra'' (JDict [])) of
            Inl e \<Rightarrow> Inl e
          | Inr ext \<Rightarrow>
              (case as_str (field raw ''timestamp'') of
                 None \<Rightarrow> Inl PyTypeError
               | Some ts \<Rightarrow>
                   let md = \<lparr>sender = field raw ''sender'', recipient = get_default raw ''recipient'' JNull,
                             timestamp = ts, extra = ext\<rparr>;
                       corr = as_str (get_default data ''correlation_id'' JNull)
                   in case t of
                        REQUEST \<Rightarrow> Inr \<lparr>mtype = t, meta = md, message_id = mid,
                          protocol_version = ver, body = b, correlation_id = None\<rparr>
                      | NOTIFICATION \<Rightarrow> Inr \<lparr>mtype = t, meta = md, message_id = mid,
                          protocol_version = ver, body = b, correlation_id = None\<rparr>
                      | RESPONSE \<Rightarrow> mk_response mid ver md b corr
                      | ERROR \<Rightarrow> Inr \<lparr>mtype = t, meta = md, message_id = mid,
                          protocol_version = ver, body = b, correlation_id = corr\<rparr>))
     | _ \<Rightarrow> Inl PyTypeError))"

definition serialize :: "message \<Rightarrow> string" where
  "serialize m = dumps (JDict (to_dict m))"

definition deserialize :: "string \<Rightarrow> message result" where
  "deserialize raw = (case loads raw of
     None \<Rightarrow> Inl InvalidJson
   | Some (JDict d) \<Rightarrow> from_dict d
   | Some _ \<Rightarrow> Inl (ValidationError ''serialized message must be a JSON object''))"

section \<open>Secrets (config_contract.py)\<close>

definition REDACTED_SENTINEL :: string where
  "REDACTED_SENTINEL = ''***''"

text \<open>\<open>pattern in key\<close> on strings.\<close>

fun contains :: "string \<Rightarrow> string \<Rightarrow> bool" where
  "contains p [] = (p = [])"
| "contains p (c # cs) = (starts_with p (c # cs) \<or> contains p cs)"

definition is_secret :: "string \<Rightarrow> string list \<Rightarrow> bool" where
  "is_secret key patterns = list_ex (\<lambda>p. contains p key) patterns"

definition redact_value :: "string \<Rightarrow> json \<Rightarrow> string list \<Rightarrow> json" where
  "redact_value key v patterns = (if is_secret key patterns then JStr REDACTED_SENTINEL else v)"

text \<open>\<open>ConfigContractError\<close> with its text, and the description of a settable key.\<close>

record config_contract_error =
  cc_code :: string
  cc_message :: string
  cc_details :: "(string, json) dict"

definition config_contract_error_str :: "config_contract_error \<Rightarrow> string" where
  "config_contract_error_str e = ''['' @ cc_code e @ ''] '' @ cc_message e"

record 'ty settable_key =
  sk_key :: string
  sk_type :: string
  sk_python_type :: 'ty
  sk_path :: "string list"

end
