(* ===== verification/Protocol_Props.thy ===== *)
theory Protocol_Props
  imports Protocol
begin

text \<open>
  What the message layer promises: the envelopes \<open>validate\<close> accepts, the round trips between
  messages, dicts and texts, the exceptions \<open>deserialize\<close> can raise, and replies.
\<close>

section \<open>Enumerations and versions\<close>

text \<open>The members of the enumeration, in the order of the class, as iterating over it gives them.\<close>

instantiation message_type :: enum
begin

definition enum_message_type :: "message_type list" where
  "enum_message_type = [REQUEST, RESPONSE, ERROR, NOTIFICATION]"

definition enum_all_message_type :: "(message_type \<Rightarrow> bool) \<Rightarrow> bool" where
  "enum_all_message_type P \<longleftrightarrow> P REQUEST \<and> P RESPONSE \<and> P ERROR \<and> P NOTIFICATION"

definition enum_ex_message_type :: "(message_type \<Rightarrow> bool) \<Rightarrow> bool" where
  "enum_ex_message_type P \<longleftrightarrow> P REQUEST \<or> P RESPONSE \<or> P ERROR \<or> P NOTIFICATION"

instance proof
  show u: "(UNIV :: message_type set) = set enum_class.enum"
    using message_type.exhaust by (auto simp: enum_message_type_def)
  show "distinct (enum_class.enum :: message_type list)" by (simp add: enum_message_type_def)
  fix P :: "message_type \<Rightarrow> bool"
  show "enum_class.enum_all P \<longleftrightarrow> Ball UNIV P" by (simp add: u enum_message_type_def enum_all_message_type_def)
  show "enum_class.enum_ex P \<longleftrightarrow> Bex UNIV P" by (simp add: u enum_message_type_def enum_ex_message_type_def)
qed

end

text \<open>The constructor of the enumeration looks its members up by value.\<close>

lemma message_type_of_find: "message_type_of v = find (\<lambda>t. v = JStr (mt_value t)) enum_class.enum"
  by (simp add: message_type_of_def enum_message_type_def)

lemma every_value_read: "\<forall>t. message_type_of (JStr (mt_value t)) = Some t"
  by code_simp

lemma message_type_of_value [simp]: "message_type_of (JStr (mt_value t)) = Some t"
  using every_value_read by simp

lemma message_type_of_Some: "message_type_of v = Some t \<longleftrightarrow> v = JStr (mt_value t)"
  by (cases t) (auto simp: message_type_of_def)

lemma major_current [simp]: "major PROTOCOL_VERSION = Inr 1"
  by code_simp

lemma major_Inr: "major v = Inr n \<longleftrightarrow> py_int (before (CHR ''.'') v) = Some n"
  by (auto simp: major_def split: option.splits)

lemma validate_version_ok:
  "validate_version v = Inr u \<longleftrightarrow> (\<exists>ver. v = JStr ver \<and> py_int (before (CHR ''.'') ver) = Some 1)"
proof (cases v)
  case (JStr ver)
  show ?thesis
  proof (cases "py_int (before (CHR ''.'') ver)")
    case None
    with JStr show ?thesis by (simp add: validate_version_def major_def)
  next
    case (Some n)
    then have "major ver = Inr n" by (simp add: major_Inr)
    with JStr Some show ?thesis by (simp add: validate_version_def)
  qed
qed (simp_all add: validate_version_def)

lemma nonempty_str_iff: "nonempty_str v \<longleftrightarrow> (\<exists>s. v = JStr s \<and> s \<noteq> [])"
  by (cases v) (auto simp: nonempty_str_def)

lemma validate_metadata_ok:
  "validate_metadata v = Inr u \<longleftrightarrow>
     (\<exists>md. v = JDict md \<and> nonempty_str (get_default md ''sender'' JNull)
                     \<and> nonempty_str (get_default md ''timestamp'' JNull))"
  by (auto simp: validate_metadata_def split: json.splits if_splits)

text \<open>The correlation rule of each kind: a response has one, a request and a notification none.\<close>

fun correlation_ok :: "message_type \<Rightarrow> json \<Rightarrow> bool" where
  "correlation_ok RESPONSE c = (\<exists>s. c = JStr s)"
| "correlation_ok ERROR c = (c = JNull \<or> (\<exists>s. c = JStr s))"
| "correlation_ok t c = (c = JNull)"

lemma validate_correlation_ok: "validate_correlation t c = Inr u \<longleftrightarrow> correlation_ok t c"
  by (cases t; cases c) (auto simp: validate_correlation_def as_str_def)

section \<open>The accepted envelopes\<close>

definition envelope_ok :: "(string, json) dict \<Rightarrow> bool" where
  "envelope_ok d \<longleftrightarrow>
     (\<exists>mid t ver md b.
        field d ''message_id'' = JStr mid \<and> mid \<noteq> [] \<and>
        field d ''type'' = JStr (mt_value t) \<and>
        field d ''protocol_version'' = JStr ver \<and> py_int (before (CHR ''.'') ver) = Some 1 \<and>
        field d ''metadata'' = JDict md \<and>
        nonempty_str (get_default md ''sender'' JNull) \<and> nonempty_str (get_default md ''timestamp'' JNull) \<and>
        field d ''body'' = JDict b \<and>
        correlation_ok t (get_default d ''correlation_id'' JNull))"

lemma validate_fields_ok: "validate_fields d = Inr u \<longleftrightarrow> envelope_ok d"
proof
  assume "validate_fields d = Inr u"
  then show "envelope_ok d"
    by (auto simp: validate_fields_def envelope_ok_def nonempty_str_iff message_type_of_Some
        validate_version_ok validate_metadata_ok validate_correlation_ok
        split: if_splits option.splits sum.splits)
next
  assume "envelope_ok d"
  then obtain mid t ver md b where e: "field d ''message_id'' = JStr mid" "mid \<noteq> []"
    "field d ''type'' = JStr (mt_value t)" "field d ''body'' = JDict b"
    and v: "validate_version (field d ''protocol_version'') = Inr ()"
    and m: "validate_metadata (field d ''metadata'') = Inr ()"
    and c: "validate_correlation t (get_default d ''correlation_id'' JNull) = Inr ()"
    unfolding envelope_ok_def validate_version_ok validate_metadata_ok validate_correlation_ok by blast
  then show "validate_fields d = Inr u"
    by (simp add: validate_fields_def nonempty_str_iff)
qed

lemma validate_dict_ok:
  "validate (ADict d) = Inr u \<longleftrightarrow> (\<forall>f \<in> set REQUIRED_ENVELOPE_FIELDS. dict_has d f) \<and> envelope_ok d"
  by (auto simp: Let_def validate_fields_ok filter_empty_conv split: if_splits)

text \<open>Every error of \<open>validate\<close> is a \<open>ProtocolError\<close>.\<close>

lemma validate_fields_error: "validate_fields d = Inl e \<Longrightarrow> is_protocol_error e"
  by (auto simp: validate_fields_def validate_version_def validate_metadata_def validate_correlation_def
      major_def split: if_splits option.splits sum.splits json.splits)

lemma validate_error: "validate a = Inl e \<Longrightarrow> is_protocol_error e"
  by (cases a) (auto simp: Let_def dest: validate_fields_error split: if_splits)

section \<open>Messages as dicts\<close>

lemma to_dict_fields [simp]:
  "field (to_dict m) ''message_id'' = JStr (message_id m)"
  "field (to_dict m) ''type'' = JStr (mt_value (mtype m))"
  "field (to_dict m) ''protocol_version'' = JStr (protocol_version m)"
  "field (to_dict m) ''metadata'' = JDict
     [(''sender'', sender (meta m)), (''recipient'', recipient (meta m)),
      (''timestamp'', JStr (timestamp (meta m))), (''extra'', JDict (extra (meta m)))]"
  "field (to_dict m) ''body'' = JDict (body m)"
  "get_default (to_dict m) ''correlation_id'' JNull = opt_str (correlation_id m)"
  by (simp_all add: field_def get_default_def to_dict_def)

lemma to_dict_has: "f \<in> set REQUIRED_ENVELOPE_FIELDS \<Longrightarrow> dict_has (to_dict m) f"
  by (auto simp: REQUIRED_ENVELOPE_FIELDS_def dict_has_def to_dict_def)

definition valid_message :: "message \<Rightarrow> bool" where
  "valid_message m \<longleftrightarrow>
     message_id m \<noteq> [] \<and> py_int (before (CHR ''.'') (protocol_version m)) = Some 1 \<and>
     nonempty_str (sender (meta m)) \<and> timestamp (meta m) \<noteq> [] \<and>
     correlation_ok (mtype m) (opt_str (correlation_id m))"

text \<open>The values of the enumeration are a codec: every member is read back from its value.\<close>

interpretation tc: text_codec mt_value "\<lambda>s. message_type_of (JStr s)" "\<lambda>_. True"
  by unfold_locales simp_all

lemma mt_value_inj [simp]: "mt_value t = mt_value t' \<longleftrightarrow> t = t'"
  using tc.enc_inj by auto

lemma envelope_ok_to_dict: "envelope_ok (to_dict m) \<longleftrightarrow> valid_message m"
proof -
  define md where "md = [(''sender'', sender (meta m)), (''recipient'', recipient (meta m)),
      (''timestamp'', JStr (timestamp (meta m))), (''extra'', JDict (extra (meta m)))]"
  have md: "get_default md ''sender'' JNull = sender (meta m)"
    "get_default md ''timestamp'' JNull = JStr (timestamp (meta m))"
    by (simp_all add: md_def get_default_def)
  show ?thesis
    unfolding envelope_ok_def valid_message_def to_dict_fields md_def[symmetric]
    by (auto simp: md nonempty_str_iff)
qed

lemma validate_message_ok: "validate (AMessage m) = Inr u \<longleftrightarrow> valid_message m"
  by (simp add: validate_fields_ok envelope_ok_to_dict)

text \<open>A message whose parts are values \<open>json\<close> can print: no duplicate keys, float literals.\<close>

definition wf_message :: "message \<Rightarrow> bool" where
  "wf_message m \<longleftrightarrow>
     wf_json (sender (meta m)) \<and> wf_json (recipient (meta m)) \<and>
     wf_json (JDict (extra (meta m))) \<and> wf_json (JDict (body m))"

lemma to_dict_wf: "wf_message m \<Longrightarrow> wf_json (JDict (to_dict m))"
  by (simp add: wf_message_def to_dict_def wf_dict_def opt_str_def split: option.splits)

lemma as_str_opt_str [simp]: "as_str (opt_str c) = c"
  by (cases c) (simp_all add: opt_str_def as_str_def)

lemma from_dict_to_dict:
  assumes "valid_message m"
  shows "from_dict (to_dict m) = Inr m"
proof -
  have v: "validate (ADict (to_dict m)) = Inr ()"
    using assms unfolding validate_dict_ok envelope_ok_to_dict by (simp add: to_dict_has)
  have c: "mtype m = REQUEST \<or> mtype m = NOTIFICATION \<Longrightarrow> correlation_id m = None"
    "mtype m = RESPONSE \<Longrightarrow> correlation_id m \<noteq> None"
    using assms by (auto simp: valid_message_def opt_str_def split: option.splits)
  show ?thesis
    unfolding from_dict_def v to_dict_fields message_type_of_value
    using c by (cases "mtype m")
      (auto simp add: get_default_def field_def mk_response_def Let_def)
qed

theorem deserialize_serialize:
  assumes "valid_message m" "wf_message m"
  shows "deserialize (serialize m) = Inr m"
  using jc.dec_enc[OF to_dict_wf[OF assms(2)]] from_dict_to_dict[OF assms(1)]
  by (simp add: deserialize_def serialize_def)

section \<open>What from_dict and deserialize accept\<close>

lemma from_dict_Inr:
  assumes "from_dict d = Inr m"
  obtains t md ext ts where
    "envelope_ok d" "field d ''type'' = JStr (mt_value t)" "field d ''metadata'' = JDict md"
    "field d ''body'' = JDict (body m)" "field d ''message_id'' = JStr (message_id m)"
    "field d ''protocol_version'' = JStr (protocol_version m)"
    "py_dict (get_default md ''extra'' (JDict [])) = Inr ext" "field md ''timestamp'' = JStr ts"
    "meta m = \<lparr>sender = field md ''sender'', recipient = get_default md ''recipient'' JNull,
              timestamp = ts, extra = ext\<rparr>"
    "mtype m = t"
    "correlation_id m = (if t = RESPONSE \<or> t = ERROR
       then as_str (get_default d ''correlation_id'' JNull) else None)"
    "t = RESPONSE \<Longrightarrow> correlation_id m \<noteq> None"
proof -
  have v: "validate (ADict d) = Inr ()"
    using assms by (auto simp: from_dict_def simp del: validate.simps split: sum.splits)
  then have e: "envelope_ok d" by (simp only: validate_dict_ok)
  then show ?thesis
    using assms that unfolding from_dict_def v
    by (auto simp: Let_def message_type_of_Some mk_response_def
        split: option.splits sum.splits message_type.splits if_splits)
qed

lemma get_default_wf: "wf_json (JDict d) \<Longrightarrow> wf_json w \<Longrightarrow> wf_json (get_default d k w)"
  by (auto simp: get_default_def wf_members_iff dest: get_in_set split: option.splits)

lemma from_dict_sound:
  assumes "from_dict d = Inr m" "wf_json (JDict d)"
  shows "valid_message m \<and> wf_message m"
proof -
  from assms(1) obtain t md ext ts where
    r: "envelope_ok d" "field d ''type'' = JStr (mt_value t)" "field d ''metadata'' = JDict md"
    "field d ''body'' = JDict (body m)" "field d ''message_id'' = JStr (message_id m)"
    "field d ''protocol_version'' = JStr (protocol_version m)"
    and ext: "py_dict (get_default md ''extra'' (JDict [])) = Inr ext"
    and ts: "field md ''timestamp'' = JStr ts"
    and md: "meta m = \<lparr>sender = field md ''sender'', recipient = get_default md ''recipient'' JNull,
              timestamp = ts, extra = ext\<rparr>"
    and t: "mtype m = t"
    and c: "correlation_id m = (if t = RESPONSE \<or> t = ERROR
       then as_str (get_default d ''correlation_id'' JNull) else None)"
    by (rule from_dict_Inr) blast
  have "correlation_ok t (get_default d ''correlation_id'' JNull)"
    using r(1,2) by (auto simp: envelope_ok_def)
  then have "correlation_ok t (opt_str (correlation_id m))"
    using c by (cases t) (auto simp: opt_str_def as_str_def)
  then have valid: "valid_message m"
    using r ts md t by (auto simp: envelope_ok_def valid_message_def field_def nonempty_str_iff)
  have f: "wf_json (field d k)" for k
    using assms(2) by (simp add: field_def get_default_wf)
  have mdwf: "wf_json (JDict md)" and bwf: "wf_json (JDict (body m))"
    using f[of "''metadata''"] f[of "''body''"] r by simp_all
  have "wf_json (get_default md ''extra'' (JDict []))"
    by (rule get_default_wf[OF mdwf]) simp
  with py_dict_wf[OF ext] have "wf_json (JDict ext)" by simp
  then show ?thesis
    using valid bwf mdwf md by (simp add: wf_message_def field_def get_default_wf del: wf_json.simps(7))
qed

theorem deserialize_sound:
  assumes "deserialize raw = Inr m"
  shows "valid_message m \<and> wf_message m"
proof -
  from assms obtain d where "loads raw = Some (JDict d)" "from_dict d = Inr m"
    by (auto simp: deserialize_def split: option.splits json.splits)
  then show ?thesis using from_dict_sound loads_wf by blast
qed

text \<open>
  A message read from a text prints to a text that reads back as the same message: the
  serialized form is canonical.
\<close>

text \<open>So the texts of messages are a codec too.\<close>

interpretation mc: text_codec serialize "\<lambda>raw. case deserialize raw of Inr m \<Rightarrow> Some m | Inl _ \<Rightarrow> None"
  "\<lambda>m. valid_message m \<and> wf_message m"
  by unfold_locales (auto simp: deserialize_serialize dest: deserialize_sound split: sum.splits)

lemma deserialize_canonical:
  assumes "deserialize raw = Inr m"
  shows "deserialize (serialize m) = Inr m"
  using mc.reencode[of raw m] assms by (simp split: sum.splits)

lemma serialize_inj:
  "valid_message m \<Longrightarrow> wf_message m \<Longrightarrow> valid_message n \<Longrightarrow> wf_message n \<Longrightarrow> serialize m = serialize n \<Longrightarrow> m = n"
  using mc.enc_inj by blast

section \<open>The exceptions of deserialize\<close>

lemma from_dict_error:
  assumes "from_dict d = Inl e"
  shows "is_protocol_error e \<or>
    (\<exists>md. envelope_ok d \<and> field d ''metadata'' = JDict md \<and>
          py_dict (get_default md ''extra'' (JDict [])) = Inl e)"
proof (cases "validate (ADict d)")
  case (Inl e')
  with assms have "e = e'" by (simp add: from_dict_def del: validate.simps)
  with validate_error[OF Inl] show ?thesis by simp
next
  case (Inr u)
  then have v: "validate (ADict d) = Inr ()" by simp
  then have "envelope_ok d" by (simp only: validate_dict_ok)
  moreover from this obtain t md b ts where
    "field d ''type'' = JStr (mt_value t)" "field d ''metadata'' = JDict md"
    "field d ''body'' = JDict b" "field md ''timestamp'' = JStr ts"
    "\<exists>mid. field d ''message_id'' = JStr mid" "\<exists>ver. field d ''protocol_version'' = JStr ver"
    "correlation_ok t (get_default d ''correlation_id'' JNull)"
    by (auto simp: envelope_ok_def field_def nonempty_str_iff)
  ultimately show ?thesis
    using assms unfolding from_dict_def v
    by (cases t) (auto simp: Let_def mk_response_def message_type_of_def split: sum.splits if_splits)
qed

lemma deserialize_error:
  assumes "deserialize raw = Inl e" "\<not> is_protocol_error e"
  shows "e = PyTypeError \<or> (\<exists>msg. e = PyValueError msg)"
proof -
  from assms obtain d where "from_dict d = Inl e"
    by (auto simp: deserialize_def split: option.splits json.splits)
  with assms(2) show ?thesis by (blast dest: from_dict_error py_dict_error)
qed

section \<open>Replies\<close>

lemma build_reply_metadata_simps [simp]:
  "recipient (build_reply_metadata now q s ext) = sender (meta q)"
  "timestamp (build_reply_metadata now q s ext) = now"
  "extra (build_reply_metadata now q s ext) = ext"
  "sender (build_reply_metadata now q (Some s') ext) = JStr s'"
  "sender (build_reply_metadata now q None ext) =
     (if recipient (meta q) = JNull then sender (meta q) else recipient (meta q))"
  by (simp_all add: build_reply_metadata_def metadata_create_def Let_def)

lemma response_to_Inr:
  "response_to now mid q b s ext = Inr \<lparr>mtype = RESPONSE, meta = build_reply_metadata now q s ext,
     message_id = mid, protocol_version = PROTOCOL_VERSION,
     body = (case b of Some d \<Rightarrow> d | None \<Rightarrow> []), correlation_id = Some (message_id q)\<rparr>"
  by (simp add: response_to_def mk_response_def)

text \<open>The address a reply is sent from: the explicit sender, else the request's recipient.\<close>

definition reply_address :: "message \<Rightarrow> string option \<Rightarrow> json" where
  "reply_address q s = sender (build_reply_metadata [] q s [])"

lemma sender_build_reply: "sender (build_reply_metadata now q s ext) = reply_address q s"
  by (cases s) (simp_all add: reply_address_def)

lemma py_int_current: "py_int (before (CHR ''.'') PROTOCOL_VERSION) = Some 1"
  using major_current by (simp only: major_Inr)

lemma response_valid:
  assumes "mid \<noteq> []" "now \<noteq> []" "nonempty_str (reply_address q s)"
  shows "\<exists>r. response_to now mid q b s ext = Inr r \<and> valid_message r"
  using assms by (simp add: response_to_Inr valid_message_def py_int_current sender_build_reply opt_str_def)

lemma error_valid:
  assumes "mid \<noteq> []" "now \<noteq> []" "nonempty_str (reply_address q s)"
  shows "valid_message (error_to now mid q code msg s details)"
  using assms by (simp add: error_to_def valid_message_def py_int_current sender_build_reply opt_str_def)

text \<open>Details may overwrite the code and the message of an error body, and nothing else does.\<close>

lemma fold_set_get:
  "dict_get (fold (\<lambda>(k, v) d. dict_set k v d) ps d) k =
     (case map_of (rev ps) k of Some v \<Rightarrow> Some v | None \<Rightarrow> dict_get d k)"
  by (induction ps arbitrary: d)
    (auto simp: dict_simps map_add_def split: option.splits prod.splits)

lemma error_body_get:
  "dict_get (error_body code msg details) k =
     (case map_of (rev details) k of Some v \<Rightarrow> Some v
      | None \<Rightarrow> if k = ''message'' then Some (JStr msg) else if k = ''code'' then Some (JStr code) else None)"
  by (auto simp: error_body_def dict_of_pairs_def fold_set_get dict_simps split: option.splits)

section \<open>Redaction\<close>

lemma starts_with_iff: "starts_with p s \<longleftrightarrow> (\<exists>t. s = p @ t)"
  by (auto simp: starts_with_def) (metis append_take_drop_id)

lemma contains_iff: "contains p s \<longleftrightarrow> (\<exists>a b. s = a @ p @ b)"
proof (induction s)
  case (Cons c s)
  have "(\<exists>a b. c # s = a @ p @ b) \<longleftrightarrow> (\<exists>b. c # s = p @ b) \<or> (\<exists>a b. s = a @ p @ b)"
    by (metis append_Cons append_eq_Cons_conv self_append_conv2)
  with Cons show ?case by (simp add: starts_with_iff)
qed simp

lemma is_secret_iff: "is_secret key ps \<longleftrightarrow> (\<exists>p \<in> set ps. \<exists>a b. key = a @ p @ b)"
  by (simp add: is_secret_def list_ex_iff contains_iff)

end
