(* ===== verification/Transport.thy ===== *)
theory Transport
  imports Protocol_Props
begin

text \<open>
  The transport layer, \<open>src/robotsix_agent_comm/transport/\<close>: endpoints and agent infos
  (\<open>endpoints.py\<close>), the in-memory registry (\<open>registry.py\<close>), retries (\<open>retry.py\<close>),
  the HTTP client (\<open>_http.py\<close>, \<open>client.py\<close>), the agent-side server (\<open>server.py\<close>) and
  the router (\<open>router.py\<close>).

  The network is a parameter: one exchange takes the endpoint and the text of the request and
  returns an \<open>http_outcome\<close>, threading a state of any type, so that it may answer
  differently each time. \<open>sleep\<close> and an agent's message handler are parameters of the same
  kind. A timeout is only handed to the network and printed, so it is held as its text.
\<close>

section \<open>Endpoints (endpoints.py)\<close>

definition DEFAULT_MESSAGE_PATH :: string where
  "DEFAULT_MESSAGE_PATH = ''/messages''"

definition HEALTH_PATH :: string where
  "HEALTH_PATH = ''/health''"

record endpoint =
  ep_agent_id :: string
  ep_host :: string
  ep_port :: int
  ep_scheme :: string
  ep_path :: string
  ep_mailbox :: bool

definition base_url :: "endpoint \<Rightarrow> string" where
  "base_url ep = ep_scheme ep @ ''://'' @ ep_host ep @ '':'' @ int_str (ep_port ep)"

definition ep_url :: "endpoint \<Rightarrow> string" where
  "ep_url ep = base_url ep @ ep_path ep"

definition health_url :: "endpoint \<Rightarrow> string" where
  "health_url ep = base_url ep @ HEALTH_PATH"

record agent_info =
  info_agent_id :: string
  info_capabilities :: "(string, json) dict"

definition info_supported_kinds :: "agent_info \<Rightarrow> json list" where
  "info_supported_kinds info =
     (case get_default (info_capabilities info) ''supported_kinds'' (JList []) of
        JList ks \<Rightarrow> ks | _ \<Rightarrow> [])"

section \<open>Errors (transport/errors.py, protocol/_types.py)\<close>

fun disposition_value :: "traffic_disposition \<Rightarrow> string" where
  "disposition_value QUEUED = ''queued''"
| "disposition_value REJECTED = ''rejected''"
| "disposition_value ROUTED = ''routed''"
| "disposition_value UNKNOWN_RECIPIENT = ''unknown_recipient''"

definition DELIVERY_FAILED_CODE :: string where
  "DELIVERY_FAILED_CODE = ''delivery_failed''"

definition UNKNOWN_RECIPIENT_CODE :: string where
  "UNKNOWN_RECIPIENT_CODE = disposition_value UNKNOWN_RECIPIENT"

text \<open>\<open>str(exc)\<close>; the text the JSON decoder appends is left out.\<close>

fun exn_str :: "exn \<Rightarrow> string" where
  "exn_str (ValidationError m) = m"
| "exn_str InvalidJson = ''invalid JSON payload: ''"
| "exn_str (UnsupportedVersionError m) = m"
| "exn_str (TransportError m) = m"
| "exn_str (AgentNotFoundError m) = m"
| "exn_str (TransportTimeoutError m) = m"
| "exn_str (DeliveryError m cause) = m"
| "exn_str PyTypeError = []"
| "exn_str (PyValueError m) = m"
| "exn_str (PyRuntimeError m) = m"
| "exn_str (PyNotImplementedError m) = m"
| "exn_str PyTimeoutError = ''timed out''"
| "exn_str (PyOSError m) = m"
| "exn_str (HTTPException m) = m"
| "exn_str (UserException m) = m"

section \<open>Registry (registry.py)\<close>

type_synonym registry = "(string, endpoint) dict"

definition unknown_agent :: "string \<Rightarrow> exn" where
  "unknown_agent a = AgentNotFoundError (''unknown agent: '' @ repr_str a)"

definition reg_register :: "endpoint \<Rightarrow> registry \<Rightarrow> registry" where
  "reg_register ep r = dict_set (ep_agent_id ep) ep r"

definition reg_unregister :: "string \<Rightarrow> registry \<Rightarrow> registry result" where
  "reg_unregister a r = (if dict_has r a then Inr (dict_pop a r) else Inl (unknown_agent a))"

definition reg_lookup :: "string \<Rightarrow> registry \<Rightarrow> endpoint result" where
  "reg_lookup a r = (case dict_get r a of Some ep \<Rightarrow> Inr ep | None \<Rightarrow> Inl (unknown_agent a))"

text \<open>
  \<open>lookup\<close> with the unchecked recipient of a message: a list or a dict is not hashable,
  and no other value than a string is a key.
\<close>

definition reg_lookup_value :: "json \<Rightarrow> registry \<Rightarrow> endpoint result" where
  "reg_lookup_value v r = (case v of
     JStr a \<Rightarrow> reg_lookup a r
   | _ \<Rightarrow> if py_hashable v then Inl (AgentNotFoundError (''unknown agent: '' @ py_repr v))
          else Inl PyTypeError)"

definition list_agents :: "registry \<Rightarrow> endpoint list" where
  "list_agents r = map snd r"

section \<open>Retries (retry.py)\<close>

record retry_policy =
  max_attempts :: int
  base_delay :: seconds
  max_delay :: seconds
  backoff_factor :: seconds

definition delay_for :: "retry_policy \<Rightarrow> nat \<Rightarrow> seconds" where
  "delay_for pol attempt = min (base_delay pol * backoff_factor pol ^ (attempt - 1)) (max_delay pol)"

type_synonym ('s, 'a) io = "'s \<Rightarrow> 'a result \<times> 's"

text \<open>
  The loop of \<open>retry_call\<close> with its loop variable and \<open>last_exc\<close>; the fuel is the number
  of iterations \<open>range(1, max_attempts + 1)\<close> still has.
\<close>

definition delivery_failed :: "retry_policy \<Rightarrow> exn option \<Rightarrow> exn" where
  "delivery_failed pol last_exc =
     DeliveryError (''delivery failed after '' @ int_str (max_attempts pol) @ '' attempt(s)'') last_exc"

fun retry_loop ::
  "('s, 'a) io \<Rightarrow> retry_policy \<Rightarrow> (seconds \<Rightarrow> 's \<Rightarrow> 's) \<Rightarrow> nat \<Rightarrow> nat \<Rightarrow> exn option \<Rightarrow> ('s, 'a) io" where
  "retry_loop func pol sleep 0 attempt last_exc s = (Inl (delivery_failed pol last_exc), s)"
| "retry_loop func pol sleep (Suc n) attempt last_exc s = (case func s of
     (Inr a, s') \<Rightarrow> (Inr a, s')
   | (Inl e, s') \<Rightarrow>
       if is_transport_error e then
         if int attempt \<ge> max_attempts pol then (Inl (delivery_failed pol (Some e)), s')
         else retry_loop func pol sleep n (attempt + 1) (Some e) (sleep (delay_for pol attempt) s')
       else (Inl e, s'))"

definition retry_call :: "('s, 'a) io \<Rightarrow> retry_policy \<Rightarrow> (seconds \<Rightarrow> 's \<Rightarrow> 's) \<Rightarrow> ('s, 'a) io" where
  "retry_call func pol sleep s = retry_loop func pol sleep (nat (max_attempts pol)) 1 None s"

section \<open>HTTP exchanges (_http.py)\<close>

text \<open>
  What a \<open>http.client\<close> exchange can end in: a response with its status and bytes, a timeout,
  another \<open>OSError\<close>, or an \<open>HTTPException\<close> that is no \<open>OSError\<close>.
\<close>

datatype http_outcome = HttpReply int string | HttpTimeout | HttpOSError string | HttpExc string

type_synonym 's exchange = "endpoint \<Rightarrow> string \<Rightarrow> 's \<Rightarrow> http_outcome \<times> 's"

fun do_post :: "http_outcome \<Rightarrow> string \<Rightarrow> string \<Rightarrow> (int \<times> string) result" where
  "do_post (HttpReply status data) timeout label = (case utf8_decode data of
     Some text \<Rightarrow> Inr (status, text)
   | None \<Rightarrow> Inl (PyValueError ''invalid utf-8''))"
| "do_post HttpTimeout timeout label =
     Inl (TransportTimeoutError (label @ '' timed out after '' @ timeout @ ''s''))"
| "do_post (HttpOSError msg) timeout label =
     Inl (TransportError (''failed to reach '' @ label @ '': '' @ msg))"
| "do_post (HttpExc msg) timeout label = Inl (HTTPException msg)"

fun check_health :: "http_outcome \<Rightarrow> bool result" where
  "check_health (HttpReply status data) = Inr (status = 200)"
| "check_health HttpTimeout = Inr False"
| "check_health (HttpOSError msg) = Inr False"
| "check_health (HttpExc msg) = Inl (HTTPException msg)"

section \<open>TransportClient (client.py)\<close>

text \<open>
  \<open>send\<close>: the body is \<open>serialize(message)\<close>, which is ASCII, so its UTF-8 bytes are its
  characters.
\<close>

definition read_reply :: "endpoint \<Rightarrow> int \<Rightarrow> string \<Rightarrow> message option result" where
  "read_reply ep status data =
     (if status \<ge> 400
      then Inl (TransportError (ep_url ep @ '' returned HTTP '' @ int_str status @ '': '' @ data))
      else if status = 204 \<or> data = [] then Inr None
      else (case deserialize data of
        Inr m \<Rightarrow> Inr (Some m)
      | Inl e \<Rightarrow>
          if is_protocol_error e
          then Inl (TransportError (''invalid response from '' @ ep_url ep @ '': '' @ exn_str e))
          else Inl e))"

definition client_send ::
  "'s exchange \<Rightarrow> message \<Rightarrow> endpoint \<Rightarrow> string \<Rightarrow> ('s, message option) io" where
  "client_send net m ep timeout s = (case net ep (serialize m) s of (out, s') \<Rightarrow>
     (case do_post out timeout (ep_url ep) of
        Inl e \<Rightarrow> (Inl e, s')
      | Inr (status, data) \<Rightarrow> (read_reply ep status data, s')))"

definition client_health_check :: "(endpoint \<Rightarrow> 's \<Rightarrow> http_outcome \<times> 's) \<Rightarrow> endpoint \<Rightarrow> ('s, bool) io" where
  "client_health_check probe ep s = (case probe ep s of (out, s') \<Rightarrow> (check_health out, s'))"

section \<open>Router (router.py)\<close>

record router =
  rt_policy :: retry_policy
  rt_timeout :: string

definition route ::
  "'s exchange \<Rightarrow> (seconds \<Rightarrow> 's \<Rightarrow> 's) \<Rightarrow> router \<Rightarrow> registry \<Rightarrow> message \<Rightarrow> string option \<Rightarrow>
   ('s, message option) io" where
  "route net sleep rt reg m timeout s =
     (if \<not> py_truthy (recipient (meta m)) then (Inl (AgentNotFoundError ''message has no recipient''), s)
      else (case reg_lookup_value (recipient (meta m)) reg of
        Inl e \<Rightarrow> (Inl e, s)
      | Inr ep \<Rightarrow>
          let effective_timeout = (case timeout of None \<Rightarrow> rt_timeout rt | Some t \<Rightarrow> t)
          in retry_call (client_send net m ep effective_timeout) (rt_policy rt) sleep s))"

section \<open>Requests and the agent-side server (server.py)\<close>

text \<open>
  A request as the handlers read it: the target, the \<open>Authorization\<close> and
  \<open>Content-Length\<close> headers if present, and the bytes the client sends before it stops.
\<close>

record http_request =
  rq_path :: string
  rq_auth :: "string option"
  rq_length :: "string option"
  rq_stream :: string

text \<open>\<open>rfile.read(n)\<close>: a negative count reads to the end of the stream.\<close>

definition rfile_read :: "int \<Rightarrow> string \<Rightarrow> string" where
  "rfile_read n stream = (if n < 0 then stream else take (nat n) stream)"

text \<open>\<open>int(self.headers.get("Content-Length", 0))\<close>; \<open>None\<close> is \<open>ValueError\<close>.\<close>

definition content_length :: "http_request \<Rightarrow> int option" where
  "content_length rq = (case rq_length rq of None \<Rightarrow> Some 0 | Some s \<Rightarrow> py_int s)"

datatype payload = PJson json | PText string | PEmpty

text \<open>The end of a handler: a response, or an exception that closes the connection.\<close>

datatype 'b outcome = Reply int 'b | Crash exn

definition error_payload :: "string \<Rightarrow> json" where
  "error_payload msg = JDict [(''error'', JStr msg)]"

definition agent_do_GET :: "http_request \<Rightarrow> payload outcome" where
  "agent_do_GET rq =
     (if rq_path rq = HEALTH_PATH then Reply 200 (PJson (JDict [(''status'', JStr ''ok'')]))
      else Reply 404 (PJson (error_payload ''not found'')))"

definition agent_do_POST ::
  "(message \<Rightarrow> ('h, message option) io) \<Rightarrow> string \<Rightarrow> http_request \<Rightarrow> 'h \<Rightarrow> payload outcome \<times> 'h" where
  "agent_do_POST handler message_path rq s =
     (if rq_path rq \<noteq> message_path then (Reply 404 (PJson (error_payload ''not found'')), s)
      else (case content_length rq of
        None \<Rightarrow> (Crash (PyValueError ''invalid literal for int()''), s)
      | Some n \<Rightarrow> (case utf8_decode (rfile_read n (rq_stream rq)) of
          None \<Rightarrow> (Crash (PyValueError ''invalid utf-8''), s)
        | Some raw \<Rightarrow> (case deserialize raw of
            Inl e \<Rightarrow> if is_protocol_error e then (Reply 400 (PJson (error_payload (exn_str e))), s)
                     else (Crash e, s)
          | Inr m \<Rightarrow> (case handler m s of
              (Inl e, s') \<Rightarrow> (Crash e, s')
            | (Inr None, s') \<Rightarrow> (Reply 204 PEmpty, s')
            | (Inr (Some r), s') \<Rightarrow> (Reply 200 (PText (serialize r)), s'))))))"

end
