(* ===== verification/Transport_Props.thy ===== *)
theory Transport_Props
  imports Transport
begin

text \<open>
  What the transport layer promises: the registry as a finite map of endpoints (the locale
  \<open>agent_registry\<close>), the attempts a retried call makes and how it ends, the errors of the
  client and of the router, and the agent-side server.
\<close>

section \<open>The registry contract\<close>

text \<open>
  The laws the router and the broker rely on. A registry is any type with the four operations
  that behave as a map from agent ids to endpoints; the errors are part of the contract.
\<close>

locale agent_registry =
  fixes reg :: "endpoint \<Rightarrow> 'r \<Rightarrow> 'r"
    and unreg :: "string \<Rightarrow> 'r \<Rightarrow> 'r result"
    and look :: "string \<Rightarrow> 'r \<Rightarrow> endpoint result"
    and no_agents :: 'r
  assumes look_empty: "look a no_agents = Inl (unknown_agent a)"
    and look_reg: "look a (reg ep r) = (if a = ep_agent_id ep then Inr ep else look a r)"
    and look_error: "look a r = Inl e \<Longrightarrow> e = unknown_agent a"
    and unreg_error: "unreg a r = Inl e \<longleftrightarrow> look a r = Inl e"
    and look_unreg: "unreg a r = Inr r' \<Longrightarrow> look b r' = (if b = a then Inl (unknown_agent a) else look b r)"
begin

text \<open>\<open>contextlib.suppress(AgentNotFoundError)\<close> around \<open>unregister\<close>.\<close>

lemma look_suppressed:
  "look b (case unreg a r of Inr r' \<Rightarrow> r' | Inl e \<Rightarrow> r) = (if b = a then Inl (unknown_agent a) else look b r)"
proof (cases "unreg a r")
  case (Inl e)
  then have "look a r = Inl e" by (simp add: unreg_error)
  with Inl show ?thesis using look_error by auto
next
  case (Inr r')
  then show ?thesis by (simp add: look_unreg)
qed

lemma register_again: "look a (reg ep (reg ep' r)) = look a (reg ep r)" if "ep_agent_id ep = ep_agent_id ep'"
  using that by (simp add: look_reg)

lemma unregister_twice:
  assumes "unreg a r = Inr r'" shows "unreg a r' = Inl (unknown_agent a)"
  using look_unreg[OF assms, of a] by (simp add: unreg_error)

lemma registered_iff: "(\<exists>r'. unreg a r = Inr r') \<longleftrightarrow> (\<exists>ep. look a r = Inr ep)"
  by (cases "unreg a r"; cases "look a r") (use unreg_error in \<open>force+\<close>)

end

interpretation rg: agent_registry reg_register reg_unregister reg_lookup "[]"
  by unfold_locales
    (auto simp: reg_register_def reg_unregister_def reg_lookup_def dict_simps dict_has_def split: option.splits if_splits)

text \<open>The abstract state: the map from ids to endpoints.\<close>

definition reg_abs :: "registry \<Rightarrow> string \<Rightarrow> endpoint option" where
  "reg_abs r a = (case reg_lookup a r of Inr ep \<Rightarrow> Some ep | Inl e \<Rightarrow> None)"

lemma reg_abs_get: "reg_abs r a = dict_get r a"
  by (simp add: reg_abs_def reg_lookup_def split: option.splits)

lemma reg_abs_register: "reg_abs (reg_register ep r) = (reg_abs r)(ep_agent_id ep \<mapsto> ep)"
  by (auto simp: reg_abs_def rg.look_reg)

lemma reg_abs_unregister: "reg_unregister a r = Inr r' \<Longrightarrow> reg_abs r' = (reg_abs r)(a := None)"
  by (auto simp: reg_abs_def rg.look_unreg)

lemma list_agents_abs: "wf_dict r \<Longrightarrow> ep \<in> set (list_agents r) \<longleftrightarrow> (\<exists>a. reg_abs r a = Some ep)"
  by (force simp: reg_abs_get wf_get_iff list_agents_def)

section \<open>Retries\<close>

text \<open>
  The state in which attempt \<open>k\<close> (from 0) of a retried call starts, when every attempt
  before it failed and was followed by its delay.
\<close>

fun before_attempt ::
  "('s, 'a) io \<Rightarrow> retry_policy \<Rightarrow> (seconds \<Rightarrow> 's \<Rightarrow> 's) \<Rightarrow> 's \<Rightarrow> nat \<Rightarrow> 's" where
  "before_attempt f pol sleep s 0 = s"
| "before_attempt f pol sleep s (Suc k) = sleep (delay_for pol (Suc k)) (snd (f (before_attempt f pol sleep s k)))"

definition transient :: "'a result \<times> 's \<Rightarrow> bool" where
  "transient r = (case fst r of Inl e \<Rightarrow> is_transport_error e | Inr a \<Rightarrow> False)"

definition the_error :: "'a result \<times> 's \<Rightarrow> exn option" where
  "the_error r = (case fst r of Inl e \<Rightarrow> Some e | Inr a \<Rightarrow> None)"

lemma retry_loop_settled:
  assumes "\<not> transient (f (before_attempt f pol sleep s k))" "i \<le> k" "k < nat (max_attempts pol)"
    and "\<And>j. i \<le> j \<Longrightarrow> j < k \<Longrightarrow> transient (f (before_attempt f pol sleep s j))"
  shows "retry_loop f pol sleep (nat (max_attempts pol) - i) (Suc i) le (before_attempt f pol sleep s i)
    = f (before_attempt f pol sleep s k)"
  using assms
proof (induction "k - i" arbitrary: i le)
  case 0
  then have "i = k" by simp
  with 0 obtain n where "nat (max_attempts pol) - i = Suc n" by (metis Suc_diff_Suc)
  with 0 \<open>i = k\<close> show ?case
    by (auto simp: transient_def split: prod.splits sum.splits)
next
  case (Suc d)
  then have "i < k" by simp
  then obtain n where n: "nat (max_attempts pol) - i = Suc n" "n = nat (max_attempts pol) - Suc i"
    using Suc.prems by (metis Suc_diff_Suc order.strict_trans)
  have tr: "transient (f (before_attempt f pol sleep s i))" using Suc.prems \<open>i < k\<close> by simp
  then obtain e s' where e: "f (before_attempt f pol sleep s i) = (Inl e, s')" "is_transport_error e"
    by (cases "f (before_attempt f pol sleep s i)") (auto simp: transient_def split: sum.splits)
  have "\<not> int (Suc i) \<ge> max_attempts pol" using Suc.prems \<open>i < k\<close> by linarith
  then have "retry_loop f pol sleep (nat (max_attempts pol) - i) (Suc i) le (before_attempt f pol sleep s i)
    = retry_loop f pol sleep n (Suc (Suc i)) (Some e) (before_attempt f pol sleep s (Suc i))"
    using e n by simp
  also have "\<dots> = f (before_attempt f pol sleep s k)"
    unfolding n(2) using Suc.prems \<open>i < k\<close> Suc.hyps(2) by (intro Suc.hyps(1)) auto
  finally show ?case .
qed

lemma retry_loop_exhausted:
  assumes "\<And>j. i \<le> j \<Longrightarrow> j < nat (max_attempts pol) \<Longrightarrow> transient (f (before_attempt f pol sleep s j))"
    and "i < nat (max_attempts pol)"
  shows "retry_loop f pol sleep (nat (max_attempts pol) - i) (Suc i) le (before_attempt f pol sleep s i)
    = (let r = f (before_attempt f pol sleep s (nat (max_attempts pol) - 1))
       in (Inl (delivery_failed pol (the_error r)), snd r))"
  using assms
proof (induction "nat (max_attempts pol) - i" arbitrary: i le)
  case (Suc n)
  obtain e s' where e: "f (before_attempt f pol sleep s i) = (Inl e, s')" "is_transport_error e"
    using Suc.prems(1)[of i] Suc.prems(2)
    by (cases "f (before_attempt f pol sleep s i)") (auto simp: transient_def split: sum.splits)
  show ?case
  proof (cases n)
    case 0
    with Suc.hyps(2) have "i = nat (max_attempts pol) - 1" "int (Suc i) \<ge> max_attempts pol" by linarith+
    then show ?thesis using e Suc.hyps(2)[symmetric] by (simp add: the_error_def)
  next
    case (Suc n')
    with Suc.hyps(2) have lt: "Suc i < nat (max_attempts pol)" "\<not> int (Suc i) \<ge> max_attempts pol" by linarith+
    have n: "n = nat (max_attempts pol) - Suc i" using Suc.hyps(2) by simp
    have "retry_loop f pol sleep (nat (max_attempts pol) - i) (Suc i) le (before_attempt f pol sleep s i)
      = retry_loop f pol sleep n (Suc (Suc i)) (Some e) (before_attempt f pol sleep s (Suc i))"
      using e lt Suc.hyps(2)[symmetric] by simp
    then show ?thesis unfolding n using Suc.hyps(1)[OF n, of "Some e"] Suc.prems(1) lt by simp
  qed
qed simp

text \<open>The retried call settles at the first attempt that is not a transport error.\<close>

lemma retry_call_settled:
  assumes "k < nat (max_attempts pol)" "\<not> transient (f (before_attempt f pol sleep s k))"
    and "\<And>j. j < k \<Longrightarrow> transient (f (before_attempt f pol sleep s j))"
  shows "retry_call f pol sleep s = f (before_attempt f pol sleep s k)"
  using retry_loop_settled[of f pol sleep s k 0] assms by (simp add: retry_call_def)

lemma retry_call_exhausted:
  assumes "\<And>j. j < nat (max_attempts pol) \<Longrightarrow> transient (f (before_attempt f pol sleep s j))"
    and "0 < max_attempts pol"
  shows "retry_call f pol sleep s =
    (let r = f (before_attempt f pol sleep s (nat (max_attempts pol) - 1))
     in (Inl (delivery_failed pol (the_error r)), snd r))"
  using retry_loop_exhausted[of 0 pol f sleep s] assms by (simp add: retry_call_def)

lemma retry_call_none: "max_attempts pol \<le> 0 \<Longrightarrow> retry_call f pol sleep s = (Inl (delivery_failed pol None), s)"
  by (simp add: retry_call_def)

lemma retry_call_cases:
  obtains (settled) k where "k < nat (max_attempts pol)" "\<not> transient (f (before_attempt f pol sleep s k))"
      "\<And>j. j < k \<Longrightarrow> transient (f (before_attempt f pol sleep s j))"
      "retry_call f pol sleep s = f (before_attempt f pol sleep s k)"
    | (failed) s' c where "retry_call f pol sleep s = (Inl (delivery_failed pol c), s')"
      "\<And>j. j < nat (max_attempts pol) \<Longrightarrow> transient (f (before_attempt f pol sleep s j))"
proof (cases "\<exists>k. k < nat (max_attempts pol) \<and> \<not> transient (f (before_attempt f pol sleep s k))")
  case True
  define k where "k = (LEAST k. k < nat (max_attempts pol) \<and> \<not> transient (f (before_attempt f pol sleep s k)))"
  from LeastI_ex[OF True] have k: "k < nat (max_attempts pol)" "\<not> transient (f (before_attempt f pol sleep s k))"
    by (simp_all add: k_def)
  have before: "transient (f (before_attempt f pol sleep s j))" if "j < k" for j
    using not_less_Least[OF that[unfolded k_def]] that k(1) by simp
  have "retry_call f pol sleep s = f (before_attempt f pol sleep s k)"
    by (rule retry_call_settled) (simp_all add: k before)
  from settled[OF k before this] show ?thesis .
next
  case False
  then have all: "transient (f (before_attempt f pol sleep s j))" if "j < nat (max_attempts pol)" for j
    using that by blast
  show ?thesis
  proof (cases "0 < max_attempts pol")
    case True
    define r where "r = f (before_attempt f pol sleep s (nat (max_attempts pol) - 1))"
    have "retry_call f pol sleep s = (Inl (delivery_failed pol (the_error r)), snd r)"
      unfolding r_def using retry_call_exhausted[of pol f sleep s] all True by (simp only: Let_def)
    from failed[OF this all] show ?thesis .
  next
    case F: False
    then have "retry_call f pol sleep s = (Inl (delivery_failed pol None), s)"
      by (intro retry_call_none) simp
    from failed[OF this all] show ?thesis .
  qed
qed

text \<open>The error of a retried call is a \<open>DeliveryError\<close> or no transport error at all.\<close>

lemma retry_call_error:
  assumes "retry_call f pol sleep s = (Inl e, s')"
  shows "(\<exists>c. e = delivery_failed pol c) \<or> \<not> is_transport_error e"
proof (rule retry_call_cases[of pol f sleep s])
  fix k assume "\<not> transient (f (before_attempt f pol sleep s k))"
    "retry_call f pol sleep s = f (before_attempt f pol sleep s k)"
  with assms show ?thesis by (simp add: transient_def)
qed (use assms in auto)

text \<open>Counting the attempts and the time slept.\<close>

definition counted :: "('s, 'a) io \<Rightarrow> (nat \<times> seconds \<times> 's, 'a) io" where
  "counted f = (\<lambda>(n, t, s). case f s of (r, s') \<Rightarrow> (r, (n + 1, t, s')))"

definition timed :: "(seconds \<Rightarrow> 's \<Rightarrow> 's) \<Rightarrow> seconds \<Rightarrow> nat \<times> seconds \<times> 's \<Rightarrow> nat \<times> seconds \<times> 's" where
  "timed sleep d = (\<lambda>(n, t, s). (n, t + d, sleep d s))"

lemma delay_le: "delay_for pol k \<le> max_delay pol"
  by (simp add: delay_for_def)

lemma delay_nonneg:
  "0 \<le> base_delay pol \<Longrightarrow> 0 \<le> max_delay pol \<Longrightarrow> 0 \<le> backoff_factor pol \<Longrightarrow> 0 \<le> delay_for pol k"
  by (simp add: delay_for_def)

lemma delay_mono:
  assumes "0 \<le> base_delay pol" "1 \<le> backoff_factor pol" "i \<le> j"
  shows "delay_for pol i \<le> delay_for pol j"
proof -
  have "backoff_factor pol ^ (i - 1) \<le> backoff_factor pol ^ (j - 1)"
    using assms by (intro power_increasing) auto
  then have "base_delay pol * backoff_factor pol ^ (i - 1) \<le> base_delay pol * backoff_factor pol ^ (j - 1)"
    using assms(1) by (intro mult_left_mono)
  then show ?thesis by (auto simp: delay_for_def min_def)
qed

lemma retry_loop_counted:
  assumes "retry_loop (counted f) pol (timed sleep) n i le (c, t, s) = (r, (c', t', s'))" "0 \<le> max_delay pol"
    and "0 < n" "int n + int i = max_attempts pol + 1"
  shows "c < c' \<and> c' \<le> c + n \<and> t' \<le> t + of_nat (n - 1) * max_delay pol"
  using assms
proof (induction n arbitrary: i le c t s)
  case (Suc n)
  obtain r1 s1 where f: "f s = (r1, s1)" by (cases "f s")
  then have cf: "counted f (c, t, s) = (r1, (c + 1, t, s1))" by (simp add: counted_def)
  show ?case
  proof (cases "\<exists>e. r1 = Inl e \<and> is_transport_error e \<and> \<not> int i \<ge> max_attempts pol")
    case True
    then obtain e where e: "r1 = Inl e" "is_transport_error e" "\<not> int i \<ge> max_attempts pol" by blast
    have "timed sleep (delay_for pol i) (c + 1, t, s1) = (c + 1, t + delay_for pol i, sleep (delay_for pol i) s1)"
      by (simp add: timed_def)
    then have rec: "retry_loop (counted f) pol (timed sleep) n (i + 1) (Some e)
      (c + 1, t + delay_for pol i, sleep (delay_for pol i) s1) = (r, (c', t', s'))"
      using Suc.prems(1) cf e by simp
    have n: "0 < n" "int n + int (i + 1) = max_attempts pol + 1" using e(3) Suc.prems(4) by linarith+
    note ih = Suc.IH[OF rec Suc.prems(2) n]
    from n obtain m where m: "n = Suc m" by (cases n) auto
    have "t' \<le> t + (max_delay pol + of_nat m * max_delay pol)"
      using ih delay_le[of pol i] m by simp
    also have "\<dots> = t + of_nat (Suc n - 1) * max_delay pol" using m by (simp add: algebra_simps)
    finally show ?thesis using ih by simp
  next
    case False
    then have "(c', t', s') = (c + 1, t, s1)"
      using Suc.prems(1) cf by (auto split: sum.splits if_splits)
    with Suc.prems(2) show ?thesis by simp
  qed
qed simp

lemma retry_call_counted:
  assumes "retry_call (counted f) pol (timed sleep) (0, 0, s) = (r, (n, t, s'))"
    and "0 < max_attempts pol" "0 \<le> max_delay pol"
  shows "1 \<le> n \<and> int n \<le> max_attempts pol \<and> t \<le> of_int (max_attempts pol - 1) * max_delay pol"
proof -
  obtain k where k: "max_attempts pol = int k" "0 < k" using assms(2) by (metis zero_less_imp_eq_int)
  have "retry_loop (counted f) pol (timed sleep) k 1 None (0, 0, s) = (r, (n, t, s'))"
    using assms(1) k by (simp add: retry_call_def)
  from retry_loop_counted[OF this assms(3)] k
  have "0 < n \<and> n \<le> k \<and> t \<le> of_nat (k - 1) * max_delay pol" by simp
  then show ?thesis using k by (simp add: of_nat_diff)
qed

section \<open>Client and router\<close>

lemma client_send_error:
  assumes "client_send net m ep timeout s = (Inl e, s')" "is_transport_error e"
  shows "(\<exists>msg. e = TransportError msg) \<or> (\<exists>msg. e = TransportTimeoutError msg)"
proof -
  obtain out s1 where net: "net ep (serialize m) s = (out, s1)" by (cases "net ep (serialize m) s")
  show ?thesis
  proof (cases "do_post out timeout (ep_url ep)")
    case (Inl e')
    with assms net have "e = e'" by (simp add: client_send_def)
    with Inl assms(2) show ?thesis by (cases out) (auto split: option.splits)
  next
    case (Inr p)
    with assms net show ?thesis
      by (auto simp: client_send_def read_reply_def split: prod.splits if_splits sum.splits
          dest!: deserialize_error)
  qed
qed

lemma read_reply_Some:
  assumes "read_reply ep status data = Inr (Some m)"
  shows "valid_message m" "status < 400" "status \<noteq> 204" "deserialize data = Inr m"
  using assms by (auto simp: read_reply_def dest: deserialize_sound split: if_splits sum.splits)

text \<open>A routed message goes to the registered endpoint of its recipient or nowhere.\<close>

lemma route_unknown:
  assumes "recipient (meta m) = JStr a" "reg_abs reg a = None"
  shows "\<exists>e. route net sleep rt reg m timeout s = (Inl (AgentNotFoundError e), s)"
  using assms by (cases "a = []")
    (simp_all add: route_def reg_lookup_value_def reg_lookup_def reg_abs_get unknown_agent_def)

lemma route_known:
  assumes "recipient (meta m) = JStr a" "a \<noteq> []" "reg_abs reg a = Some ep"
  shows "route net sleep rt reg m timeout s =
    retry_call (client_send net m ep (case timeout of None \<Rightarrow> rt_timeout rt | Some t \<Rightarrow> t)) (rt_policy rt) sleep s"
  using assms by (simp add: route_def reg_lookup_value_def reg_lookup_def reg_abs_get)

text \<open>Whatever the network does, a known recipient never gives \<open>AgentNotFoundError\<close>.\<close>

lemma route_error:
  assumes "route net sleep rt reg m timeout s = (Inl e, s')"
  shows "(\<exists>msg. e = AgentNotFoundError msg \<and> s' = s) \<or> (\<exists>c. e = delivery_failed (rt_policy rt) c)
    \<or> \<not> is_transport_error e"
  using assms by (auto simp: route_def reg_lookup_value_def reg_lookup_def unknown_agent_def
      dest!: retry_call_error split: if_splits json.splits option.splits)

section \<open>The agent-side server\<close>

lemma agent_do_POST_handler:
  assumes "agent_do_POST handler mp rq s = (out, s')" "s' \<noteq> s"
  shows "\<exists>m. valid_message m \<and> rq_path rq = mp \<and> s' = snd (handler m s)"
  using assms by (auto simp: agent_do_POST_def dest!: deserialize_sound
      split: if_splits option.splits sum.splits prod.splits)

section \<open>Requests as http.client sends them\<close>

text \<open>A request with a body: \<open>http.client\<close> adds the \<open>Content-Length\<close> of the text.\<close>

definition posted :: "string \<Rightarrow> string \<Rightarrow> string option \<Rightarrow> http_request" where
  "posted path text auth = \<lparr>rq_path = path, rq_auth = auth,
     rq_length = Some (nat_str (length text)), rq_stream = text\<rparr>"

text \<open>A request without one.\<close>

definition fetched :: "string \<Rightarrow> string option \<Rightarrow> http_request" where
  "fetched path auth = \<lparr>rq_path = path, rq_auth = auth, rq_length = None, rq_stream = []\<rparr>"

lemma posted_simps [simp]:
  "rq_path (posted path text auth) = path" "rq_auth (posted path text auth) = auth"
  "rq_stream (posted path text auth) = text"
  "rq_path (fetched path auth) = path" "rq_auth (fetched path auth) = auth"
  by (simp_all add: posted_def fetched_def)

lemma posted_length [simp]: "content_length (posted path text auth) = Some (int (length text))"
proof -
  have "py_int (nat_str (length text)) = Some (int (length text))"
    using py_int_int_str[of "int (length text)"] by (simp add: int_str_def)
  then show ?thesis by (simp add: content_length_def posted_def)
qed

lemma posted_body: "is_ascii text \<Longrightarrow> utf8_decode (rfile_read (int (length text)) text) = Some text"
  by (simp add: rfile_read_def utf8_decode_ascii)

end
