(* ===== verification/Rate_Limit.thy ===== *)
theory Rate_Limit
  imports Prelude
begin

text \<open>
  The token bucket of \<open>src/robotsix_agent_comm/broker/_rate_limit.py\<close>, with the reading of
  the monotonic clock an argument, and its two bounds: how many requests a bucket can let
  through in a stretch of time, and when it must let one through.
\<close>

record token_bucket =
  tb_rate :: seconds
  tb_capacity :: seconds
  tb_tokens :: seconds
  tb_last_refill :: seconds

definition new_bucket :: "seconds \<Rightarrow> seconds \<Rightarrow> seconds option \<Rightarrow> token_bucket" where
  "new_bucket now rate capacity =
     (let cap = (case capacity of Some c \<Rightarrow> c | None \<Rightarrow> rate)
      in \<lparr>tb_rate = rate, tb_capacity = cap, tb_tokens = cap, tb_last_refill = now\<rparr>)"

definition consume :: "seconds \<Rightarrow> seconds \<Rightarrow> token_bucket \<Rightarrow> bool \<times> token_bucket" where
  "consume now tokens b =
     (let elapsed = now - tb_last_refill b;
          b = b\<lparr>tb_tokens := min (tb_capacity b) (tb_tokens b + elapsed * tb_rate b), tb_last_refill := now\<rparr>
      in if tb_tokens b \<ge> tokens then (True, b\<lparr>tb_tokens := tb_tokens b - tokens\<rparr>) else (False, b))"

text \<open>The calls of one principal, one per clock reading, each for one token.\<close>

fun consume_all :: "seconds list \<Rightarrow> token_bucket \<Rightarrow> nat \<times> token_bucket" where
  "consume_all [] b = (0, b)"
| "consume_all (t # ts) b =
     (case consume t 1 b of (ok, b') \<Rightarrow>
        (case consume_all ts b' of (n, b'') \<Rightarrow> ((if ok then Suc n else n), b'')))"

lemma new_bucket_simps [simp]:
  "tb_rate (new_bucket now r c) = r"
  "tb_capacity (new_bucket now r c) = (case c of Some x \<Rightarrow> x | None \<Rightarrow> r)"
  "tb_tokens (new_bucket now r c) = (case c of Some x \<Rightarrow> x | None \<Rightarrow> r)"
  "tb_last_refill (new_bucket now r c) = now"
  by (simp_all add: new_bucket_def Let_def)

lemma consume_frame:
  assumes "consume now k b = (ok, b')"
  shows "tb_rate b' = tb_rate b" "tb_capacity b' = tb_capacity b" "tb_last_refill b' = now"
  using assms by (auto simp: consume_def Let_def split: if_splits)

lemma consume_budget:
  assumes "consume now k b = (ok, b')"
  shows "(if ok then k else 0) + tb_tokens b' \<le> tb_tokens b + (now - tb_last_refill b) * tb_rate b"
  using assms by (auto simp: consume_def Let_def min_def split: if_splits)

lemma consume_tokens:
  assumes "consume now k b = (ok, b')" "0 \<le> k" "0 \<le> tb_tokens b" "tb_tokens b \<le> tb_capacity b"
    and "0 \<le> tb_rate b" "tb_last_refill b \<le> now"
  shows "0 \<le> tb_tokens b'" "tb_tokens b' \<le> tb_capacity b'"
  using assms by (auto simp: consume_def Let_def min_def split: if_splits)

lemma consume_allowed:
  "fst (consume now k b) \<longleftrightarrow> k \<le> tb_capacity b \<and> k \<le> tb_tokens b + (now - tb_last_refill b) * tb_rate b"
  by (auto simp: consume_def Let_def)

fun last_or :: "'a \<Rightarrow> 'a list \<Rightarrow> 'a" where
  "last_or x [] = x"
| "last_or x (y # ys) = last_or y ys"

lemma consume_all_budget:
  assumes "consume_all ts b = (n, b')"
  shows "of_nat n + tb_tokens b' \<le> tb_tokens b + (last_or (tb_last_refill b) ts - tb_last_refill b) * tb_rate b"
  using assms
proof (induction ts arbitrary: b n)
  case (Cons t ts)
  obtain ok b1 where c: "consume t 1 b = (ok, b1)" by (cases "consume t 1 b")
  from Cons.prems c obtain m where r: "consume_all ts b1 = (m, b')" and n: "n = (if ok then Suc m else m)"
    by (auto split: prod.splits)
  note f = consume_frame[OF c]
  have "of_nat m + tb_tokens b' \<le> tb_tokens b1 + (last_or t ts - t) * tb_rate b"
    using Cons.IH[OF r] f by simp
  moreover have "(if ok then 1 else 0) + tb_tokens b1 \<le> tb_tokens b + (t - tb_last_refill b) * tb_rate b"
    by (rule consume_budget[OF c])
  ultimately show ?case using n by (auto simp: algebra_simps)
qed auto

lemma consume_all_tokens:
  assumes "consume_all ts b = (n, b')" "0 \<le> tb_tokens b" "tb_tokens b \<le> tb_capacity b" "0 \<le> tb_rate b"
    and "sorted (tb_last_refill b # ts)"
  shows "0 \<le> tb_tokens b'"
  using assms
proof (induction ts arbitrary: b n)
  case (Cons t ts)
  obtain ok b1 where c: "consume t 1 b = (ok, b1)" by (cases "consume t 1 b")
  from Cons.prems c obtain m where r: "consume_all ts b1 = (m, b')"
    by (auto split: prod.splits)
  have le: "tb_last_refill b \<le> t" using Cons.prems by simp
  have tk: "0 \<le> tb_tokens b1" "tb_tokens b1 \<le> tb_capacity b1"
    using consume_tokens[OF c _ Cons.prems(2,3,4) le] by simp_all
  show ?case
    using Cons.prems consume_frame[OF c] by (intro Cons.IH[OF r tk]) auto
qed auto

text \<open>A bucket that cannot hold one token never lets a request through.\<close>

lemma consume_all_starved:
  assumes "tb_capacity b < 1"
  shows "fst (consume_all ts b) = 0"
  using assms
proof (induction ts arbitrary: b)
  case (Cons t ts)
  obtain ok b1 where c: "consume t 1 b = (ok, b1)" by (cases "consume t 1 b")
  then have "\<not> ok" using consume_allowed[of t 1 b] Cons.prems by simp
  moreover have "tb_capacity b1 < 1" using Cons.prems consume_frame[OF c] by simp
  ultimately show ?case using c Cons.IH[of b1] by (simp split: prod.splits)
qed simp

end
