(* ===== verification/Broker.thy ===== *)
theory Broker
  imports Transport_Props Rate_Limit
begin

text \<open>
  The broker, \<open>src/robotsix_agent_comm/broker/server.py\<close>: its state, the request handlers
  in the order of the file, the eviction sweep and the constructor, and the audit records of
  \<open>_audit.py\<close>.

  A handler takes the readings of the clocks and the fresh id and time stamp it may need
  (\<open>ambient\<close>), the request and the state, and returns its answer and the new state. The
  answer is a response, an exception that escapes the handler and closes the connection, or,
  for a long poll that found nothing, the suspended wait: \<open>poll_check\<close> is the rest of the
  handler, run again when the poll wakes. The network of the router is a parameter. The texts
  of the audit log end in the state as a list, newest last.
\<close>

section \<open>State\<close>

record ambient =
  mono :: seconds
  wall :: seconds
  iso_now :: string
  fresh_id :: string

record traffic_record =
  tr_timestamp :: seconds
  tr_source :: json
  tr_destination :: json
  tr_type :: string
  tr_topic :: json
  tr_message_id :: string
  tr_correlation_id :: "string option"
  tr_body_size_bytes :: nat
  tr_disposition :: traffic_disposition
  tr_status :: int

record audit_record =
  au_action :: string
  au_agent_id :: string
  au_path :: string
  au_status :: int
  au_detail :: string

record broker =
  registry :: registry
  capabilities :: "(string, (string, json) dict) dict"
  last_heartbeat :: "(string, seconds) dict"
  ttl_seconds :: "(string, int) dict"
  default_ttl_seconds :: int
  agent_tokens :: "(string, string) dict option"
  token_to_agent :: "(string, string) dict"
  max_body_size :: int
  rate_limit_per_second :: seconds
  rate_buckets :: "(string, token_bucket) dict"
  mailboxes :: "(string, string list) dict"
  traffic_buffer :: "traffic_record list"
  traffic_maxlen :: nat
  mailbox_grace_seconds :: seconds
  dashboard_enabled :: bool
  broker_router :: router
  audit_log :: "audit_record list"

record agent_entry =
  ae_agent_id :: string
  ae_capabilities :: "(string, json) dict"
  ae_last_seen :: "seconds option"
  ae_ttl :: "int option"
  ae_status :: agent_status
  ae_mailbox :: bool

datatype body =
    BJson json
  | BText string
  | BHtml
  | BEmpty
  | BAgents "agent_entry list"
  | BTraffic "traffic_record list"

datatype answer = Answer int body | Died exn | Waiting string seconds

definition MAX_POLL_WAIT_SECONDS :: seconds where
  "MAX_POLL_WAIT_SECONDS = 30"

section \<open>Writing responses and the audit log\<close>

definition write_error :: "int \<Rightarrow> string \<Rightarrow> answer" where
  "write_error status msg = Answer status (BJson (error_payload msg))"

definition audit :: "string \<Rightarrow> string \<Rightarrow> string \<Rightarrow> int \<Rightarrow> string \<Rightarrow> broker \<Rightarrow> broker" where
  "audit action agent_id path status detail b =
     b\<lparr>audit_log := audit_log b @
        [\<lparr>au_action = action, au_agent_id = agent_id, au_path = path, au_status = status, au_detail = detail\<rparr>]\<rparr>"

definition reject :: "int \<Rightarrow> string \<Rightarrow> string \<Rightarrow> broker \<Rightarrow> answer \<times> broker" where
  "reject status detail agent_id b =
     (write_error status detail, audit ''register'' agent_id ''/agents'' status detail b)"

section \<open>Reading the request\<close>

definition read_body :: "http_request \<Rightarrow> broker \<Rightarrow> answer + string" where
  "read_body rq b = (case content_length rq of
     None \<Rightarrow> Inl (Died (PyValueError ''invalid literal for int()''))
   | Some n \<Rightarrow>
       if n > max_body_size b
       then Inl (Answer 413 (BJson (JDict [(''error'', JStr ''request body too large''),
              (''max_bytes'', JInt (max_body_size b)), (''received_bytes'', JInt n)])))
       else (case utf8_decode (rfile_read n (rq_stream rq)) of
          None \<Rightarrow> Inl (Died (PyValueError ''invalid utf-8''))
        | Some raw \<Rightarrow> Inr raw))"

definition parse_agent_id_from_path :: "string \<Rightarrow> string" where
  "parse_agent_id_from_path target =
     (let clean = url_path target; prefix = ''/agents/''
      in if starts_with prefix clean then drop (length prefix) clean else [])"

section \<open>Routing\<close>

definition route_send ::
  "'s exchange \<Rightarrow> (seconds \<Rightarrow> 's \<Rightarrow> 's) \<Rightarrow> ambient \<Rightarrow> message \<Rightarrow> broker \<Rightarrow>
   ('s, int \<times> string option) io" where
  "route_send net sleep a m b s =
     (case route net sleep (broker_router b) (registry b) m None s of
        (Inr None, s') \<Rightarrow> (Inr (204, None), s')
      | (Inr (Some r), s') \<Rightarrow> (Inr (200, Some (serialize r)), s')
      | (Inl (AgentNotFoundError msg), s') \<Rightarrow>
          (Inr (404, Some (serialize (error_to (iso_now a) (fresh_id a) m UNKNOWN_RECIPIENT_CODE
             (''unknown recipient: '' @ py_str (recipient (meta m))) None []))), s')
      | (Inl (DeliveryError msg cause), s') \<Rightarrow>
          (Inr (502, Some (serialize (error_to (iso_now a) (fresh_id a) m DELIVERY_FAILED_CODE msg None []))), s')
      | (Inl e, s') \<Rightarrow> (Inl e, s'))"

section \<open>Authentication and rate limits\<close>

definition authenticate :: "bool \<Rightarrow> http_request \<Rightarrow> broker \<Rightarrow> answer + string" where
  "authenticate allow_query_token rq b = (case agent_tokens b of
     None \<Rightarrow> Inr []
   | Some _ \<Rightarrow>
       let auth_header = (case rq_auth rq of None \<Rightarrow> [] | Some h \<Rightarrow> h);
           missing = Inl (write_error 401 ''missing or invalid Authorization header'')
       in if auth_header \<noteq> [] then
            (if \<not> starts_with ''Bearer '' auth_header then missing
             else (case dict_get (token_to_agent b) (drop (length ''Bearer '') auth_header) of
               None \<Rightarrow> Inl (write_error 401 ''invalid token'')
             | Some agent_id \<Rightarrow> Inr agent_id))
          else if allow_query_token then
            (let token = query_first (parse_qs (url_query (rq_path rq))) ''token'' []
             in if token = [] then missing
                else (case dict_get (token_to_agent b) token of
                  Some agent_id \<Rightarrow> Inr agent_id
                | None \<Rightarrow> missing))
          else missing)"

definition check_rate_limit :: "seconds \<Rightarrow> string \<Rightarrow> broker \<Rightarrow> bool \<times> broker" where
  "check_rate_limit now agent_id b =
     (if rate_limit_per_second b \<le> 0 then (True, b)
      else let bucket = (case dict_get (rate_buckets b) agent_id of
                 Some bk \<Rightarrow> bk
               | None \<Rightarrow> new_bucket now (rate_limit_per_second b) None);
               (ok, bucket') = consume now 1 bucket
           in (ok, b\<lparr>rate_buckets := dict_set agent_id bucket' (rate_buckets b)\<rparr>))"

definition rate_limited :: answer where
  "rate_limited = Answer 429 (BJson (JDict [(''error'', JStr ''rate limit exceeded''),
     (''retry_after'', JFloat ''1.0'')]))"

definition authenticated_and_rate_limited ::
  "bool \<Rightarrow> ambient \<Rightarrow> http_request \<Rightarrow> broker \<Rightarrow> (answer + string) \<times> broker" where
  "authenticated_and_rate_limited allow_query_token a rq b =
     (case authenticate allow_query_token rq b of
        Inl ans \<Rightarrow> (Inl ans, b)
      | Inr agent_id \<Rightarrow>
          let rate_key = (if agent_id \<noteq> [] then agent_id else ''__anonymous__'')
          in (case check_rate_limit (mono a) rate_key b of
                (True, b') \<Rightarrow> (Inr agent_id, b')
              | (False, b') \<Rightarrow> (Inl rate_limited, b')))"

section \<open>GET /agents\<close>

definition build_agent_entry ::
  "registry \<Rightarrow> string \<Rightarrow> (string, json) dict \<Rightarrow> (string, seconds) dict \<Rightarrow> (string, int) dict \<Rightarrow>
   seconds \<Rightarrow> agent_entry" where
  "build_agent_entry reg agent_id caps hb_snapshot ttl_snapshot now =
     (let last_hb = dict_get hb_snapshot agent_id;
          ttl = dict_get ttl_snapshot agent_id
      in \<lparr>ae_agent_id = agent_id, ae_capabilities = caps,
          ae_last_seen = map_option (\<lambda>t. now - t) last_hb,
          ae_ttl = ttl,
          ae_status = (case (ttl, last_hb) of
              (Some n, None) \<Rightarrow> if n \<le> 0 then ACTIVE else UNKNOWN
            | (Some n, Some t) \<Rightarrow>
                if n \<le> 0 then ACTIVE else if now - t \<le> of_int n then ACTIVE else STALE
            | (None, _) \<Rightarrow> UNKNOWN),
          ae_mailbox = (case reg_lookup agent_id reg of Inr ep \<Rightarrow> ep_mailbox ep | Inl _ \<Rightarrow> False)\<rparr>)"

definition handle_agents :: "ambient \<Rightarrow> broker \<Rightarrow> answer" where
  "handle_agents a b = Answer 200 (BAgents
     (map (\<lambda>(agent_id, caps). build_agent_entry (registry b) agent_id caps (last_heartbeat b)
             (ttl_seconds b) (mono a)) (capabilities b)))"

section \<open>POST /agents\<close>

record register_args =
  v_agent_id :: string
  v_host :: string
  v_port :: int
  v_scheme :: string
  v_path :: string
  v_caps :: "(string, json) dict"
  v_ttl :: "int option"
  v_mailbox :: bool
  v_is_new :: bool

text \<open>
  \<open>_validate_register_payload\<close>: the left value is the status, the detail and the agent id
  that \<open>_reject\<close> is called with.
\<close>

definition check_endpoint :: "json \<Rightarrow> json \<Rightarrow> string \<Rightarrow> (int \<times> string \<times> string) + (string \<times> int)" where
  "check_endpoint host port agent_id =
     (case as_str host of
        None \<Rightarrow> Inl (400, ''host is required and must be a non-empty string'', agent_id)
      | Some h \<Rightarrow>
          if h = [] then Inl (400, ''host is required and must be a non-empty string'', agent_id)
          else if length h > 253 then Inl (400, ''host must not exceed 253 characters'', agent_id)
          else (case as_int port of
            None \<Rightarrow> Inl (400, ''port is required and must be an integer'', agent_id)
          | Some n \<Rightarrow>
              if \<not> (1 \<le> n \<and> n \<le> 65535)
              then Inl (400, ''port must be between 1 and 65535'', agent_id)
              else Inr (h, n)))"

definition mailbox_endpoint :: "json \<Rightarrow> json \<Rightarrow> string \<times> int" where
  "mailbox_endpoint host port =
     ((case as_str host of Some h \<Rightarrow> if h \<noteq> [] then h else ''mailbox'' | None \<Rightarrow> ''mailbox''),
      (case as_int port of Some n \<Rightarrow> if 1 \<le> n \<and> n \<le> 65535 then n else 0 | None \<Rightarrow> 0))"

definition check_scheme :: "(string, json) dict \<Rightarrow> string \<Rightarrow> (int \<times> string \<times> string) + string" where
  "check_scheme data agent_id = (case dict_get data ''scheme'' of
     None \<Rightarrow> Inr ''http''
   | Some v \<Rightarrow> if v = JStr ''http'' then Inr ''http'' else if v = JStr ''https'' then Inr ''https''
       else Inl (400, ''scheme must be '' @ repr_str ''http'' @ '' or '' @ repr_str ''https'', agent_id))"

definition check_path :: "(string, json) dict \<Rightarrow> string \<Rightarrow> (int \<times> string \<times> string) + string" where
  "check_path data agent_id = (case dict_get data ''path'' of
     None \<Rightarrow> Inr ''/messages''
   | Some v \<Rightarrow> (case as_str v of
       Some p \<Rightarrow> if starts_with ''/'' p then Inr p
         else Inl (400, ''path must be a string starting with '' @ repr_str ''/'', agent_id)
     | None \<Rightarrow> Inl (400, ''path must be a string starting with '' @ repr_str ''/'', agent_id)))"

definition check_capabilities ::
  "(string, json) dict \<Rightarrow> string \<Rightarrow> (int \<times> string \<times> string) + (string, json) dict" where
  "check_capabilities data agent_id = (case dict_get data ''capabilities'' of
     None \<Rightarrow> Inr []
   | Some v \<Rightarrow> (case as_dict v of
       Some d \<Rightarrow> Inr d
     | None \<Rightarrow> Inl (400, ''capabilities must be a JSON object'', agent_id)))"

definition check_ttl :: "(string, json) dict \<Rightarrow> string \<Rightarrow> (int \<times> string \<times> string) + int option" where
  "check_ttl data agent_id = (case dict_get data ''ttl_seconds'' of
     None \<Rightarrow> Inr None
   | Some v \<Rightarrow> (case as_int v of
       Some n \<Rightarrow> if n < 0 then Inl (400, ''ttl_seconds must be a non-negative integer'', agent_id)
         else Inr (Some n)
     | None \<Rightarrow> Inl (400, ''ttl_seconds must be a non-negative integer'', agent_id)))"

definition validate_register_payload ::
  "(string, json) dict \<Rightarrow> string \<Rightarrow> broker \<Rightarrow> (int \<times> string \<times> string) + register_args" where
  "validate_register_payload data authenticated_agent_id b =
     (let host = get_default data ''host'' JNull;
          port = get_default data ''port'' JNull;
          mailbox_flag = py_truthy (get_default data ''mailbox'' (JBool False))
      in case as_str (get_default data ''agent_id'' JNull) of
           None \<Rightarrow> Inl (400, ''agent_id is required and must be a non-empty string'', ''unknown'')
         | Some agent_id \<Rightarrow>
             if agent_id = []
             then Inl (400, ''agent_id is required and must be a non-empty string'', ''unknown'')
             else if length agent_id > 255
             then Inl (400, ''agent_id must not exceed 255 characters'', agent_id)
             else if authenticated_agent_id \<noteq> [] \<and> agent_id \<noteq> authenticated_agent_id
             then Inl (403, ''agent_id does not match token'', authenticated_agent_id)
             else (case (if mailbox_flag then Inr (mailbox_endpoint host port)
                         else check_endpoint host port agent_id) of
               Inl r \<Rightarrow> Inl r
             | Inr (h, p) \<Rightarrow> (case check_scheme data agent_id of
                 Inl r \<Rightarrow> Inl r
               | Inr scheme \<Rightarrow> (case check_path data agent_id of
                   Inl r \<Rightarrow> Inl r
                 | Inr path \<Rightarrow> (case check_capabilities data agent_id of
                     Inl r \<Rightarrow> Inl r
                   | Inr caps \<Rightarrow> (case check_ttl data agent_id of
                       Inl r \<Rightarrow> Inl r
                     | Inr ttl \<Rightarrow>
                         Inr \<lparr>v_agent_id = agent_id, v_host = h, v_port = p, v_scheme = scheme,
                              v_path = path, v_caps = caps, v_ttl = ttl, v_mailbox = mailbox_flag,
                              v_is_new = (case reg_lookup agent_id (registry b) of
                                 Inr _ \<Rightarrow> False | Inl _ \<Rightarrow> True)\<rparr>))))))"

definition endpoint_of :: "register_args \<Rightarrow> endpoint" where
  "endpoint_of v = \<lparr>ep_agent_id = v_agent_id v, ep_host = v_host v, ep_port = v_port v,
     ep_scheme = v_scheme v, ep_path = v_path v, ep_mailbox = v_mailbox v\<rparr>"

text \<open>The state changes of an accepted registration.\<close>

definition apply_register :: "seconds \<Rightarrow> register_args \<Rightarrow> broker \<Rightarrow> broker" where
  "apply_register now v b =
     (let b = b\<lparr>registry := reg_register (endpoint_of v) (registry b)\<rparr>;
          b = (if v_mailbox v
               then b\<lparr>mailboxes := dict_setdefault (v_agent_id v) [] (mailboxes b)\<rparr> else b);
          b = b\<lparr>capabilities := dict_set (v_agent_id v) (v_caps v) (capabilities b)\<rparr>;
          b = b\<lparr>last_heartbeat := dict_set (v_agent_id v) now (last_heartbeat b)\<rparr>
      in case v_ttl v of
           Some ttl \<Rightarrow> b\<lparr>ttl_seconds := dict_set (v_agent_id v) ttl (ttl_seconds b)\<rparr>
         | None \<Rightarrow>
             if v_is_new v
             then b\<lparr>ttl_seconds := dict_set (v_agent_id v) (default_ttl_seconds b) (ttl_seconds b)\<rparr>
             else b)"

definition handle_register :: "ambient \<Rightarrow> string \<Rightarrow> http_request \<Rightarrow> broker \<Rightarrow> answer \<times> broker" where
  "handle_register a auth_id rq b = (case read_body rq b of
     Inl ans \<Rightarrow> (ans, b)
   | Inr raw \<Rightarrow> (case loads raw of
       None \<Rightarrow> reject 400 ''invalid JSON body'' ''unknown'' b
     | Some v \<Rightarrow> (case as_dict v of
         None \<Rightarrow> reject 400 ''body must be a JSON object'' ''unknown'' b
       | Some data \<Rightarrow> (case validate_register_payload data auth_id b of
           Inl (status, detail, who) \<Rightarrow> reject status detail who b
         | Inr v \<Rightarrow>
             let status = (if v_is_new v then 201 else 200);
                 b = apply_register (mono a) v b;
                 b = audit ''register'' (v_agent_id v) ''/agents'' status
                       (if v_is_new v then ''created'' else ''updated'') b
             in (Answer status (BJson (JDict [(''agent_id'', JStr (v_agent_id v))])), b)))))"

section \<open>DELETE /agents/<id>\<close>

definition suppress_not_found :: "registry \<Rightarrow> registry result \<Rightarrow> registry" where
  "suppress_not_found r res = (case res of Inr r' \<Rightarrow> r' | Inl e \<Rightarrow> r)"

definition forget_agent :: "string \<Rightarrow> broker \<Rightarrow> broker" where
  "forget_agent agent_id b =
     (let b = b\<lparr>registry := suppress_not_found (registry b) (reg_unregister agent_id (registry b))\<rparr>;
          b = b\<lparr>capabilities := dict_pop agent_id (capabilities b)\<rparr>;
          b = b\<lparr>last_heartbeat := dict_pop agent_id (last_heartbeat b),
                ttl_seconds := dict_pop agent_id (ttl_seconds b)\<rparr>
      in b\<lparr>mailboxes := dict_pop agent_id (mailboxes b)\<rparr>)"

definition handle_deregister :: "string \<Rightarrow> http_request \<Rightarrow> broker \<Rightarrow> answer \<times> broker" where
  "handle_deregister auth_id rq b =
     (let agent_id = parse_agent_id_from_path (rq_path rq)
      in if agent_id = [] then
           (write_error 400 ''missing agent_id in path'',
            audit ''deregister'' ''unknown'' (rq_path rq) 400 ''missing agent_id in path'' b)
         else if auth_id \<noteq> [] \<and> agent_id \<noteq> auth_id then
           (write_error 403 ''agent_id does not match token'',
            audit ''deregister'' auth_id (rq_path rq) 403 ''agent_id does not match token'' b)
         else
           (Answer 204 BEmpty,
            audit ''deregister'' agent_id (''/agents/'' @ agent_id) 204 ''deregistered'' (forget_agent agent_id b)))"

section \<open>POST /messages\<close>

definition record_traffic :: "ambient \<Rightarrow> message \<Rightarrow> traffic_disposition \<Rightarrow> int \<Rightarrow> broker \<Rightarrow> broker" where
  "record_traffic a m disposition status b =
     b\<lparr>traffic_buffer := deque_append (traffic_maxlen b) (traffic_buffer b)
        \<lparr>tr_timestamp = wall a, tr_source = sender (meta m), tr_destination = recipient (meta m),
         tr_type = mt_value (mtype m), tr_topic = get_default (extra (meta m)) ''topic'' JNull,
         tr_message_id = message_id m, tr_correlation_id = correlation_id m,
         tr_body_size_bytes = length (dumps (JDict (body m))),
         tr_disposition = disposition, tr_status = status\<rparr>\<rparr>"

definition enqueue :: "string \<Rightarrow> string \<Rightarrow> broker \<Rightarrow> broker" where
  "enqueue agent_id raw b =
     (let boxes = dict_setdefault agent_id [] (mailboxes b);
          queue = (case dict_get boxes agent_id of Some q \<Rightarrow> q | None \<Rightarrow> [])
      in b\<lparr>mailboxes := dict_set agent_id (queue @ [raw]) boxes\<rparr>)"

definition handle_message ::
  "'s exchange \<Rightarrow> (seconds \<Rightarrow> 's \<Rightarrow> 's) \<Rightarrow> ambient \<Rightarrow> string \<Rightarrow> message \<Rightarrow> broker \<Rightarrow> 's \<Rightarrow>
   (answer \<times> broker) \<times> 's" where
  "handle_message net sleep a auth_id m b s =
     (let rcpt = recipient (meta m)
      in if auth_id \<noteq> [] \<and> sender (meta m) \<noteq> JStr auth_id then
           ((write_error 403 ''sender does not match authenticated agent'',
             audit ''send'' auth_id ''/messages'' 403 ''sender does not match authenticated agent''
               (record_traffic a m REJECTED 403 b)), s)
         else if \<not> py_truthy rcpt then
           ((write_error 400 ''metadata.recipient is required'',
             audit ''send'' auth_id ''/messages'' 400 ''missing recipient''
               (record_traffic a m REJECTED 400 b)), s)
         else (case reg_lookup_value rcpt (registry b) of
           Inl (AgentNotFoundError _) \<Rightarrow>
             ((Answer 404 (BText (serialize (error_to (iso_now a) (fresh_id a) m UNKNOWN_RECIPIENT_CODE
                 (''unknown recipient: '' @ py_str rcpt) None []))),
               audit ''send'' auth_id ''/messages'' 404 (''unknown recipient: '' @ py_str rcpt)
                 (record_traffic a m UNKNOWN_RECIPIENT 404 b)), s)
         | Inl e \<Rightarrow> ((Died e, b), s)
         | Inr ep \<Rightarrow>
             if ep_mailbox ep then
               ((Answer 202 BEmpty,
                 audit ''send'' auth_id ''/messages'' 202 (''queued for mailbox '' @ py_str rcpt)
                   (record_traffic a m QUEUED 202 (enqueue (py_str rcpt) (serialize m) b))), s)
             else (case route_send net sleep a m b s of
               (Inl e, s') \<Rightarrow> ((Died e, b), s')
             | (Inr (status, body_str), s') \<Rightarrow>
                 ((Answer status (case body_str of Some t \<Rightarrow> BText t | None \<Rightarrow> BEmpty),
                   audit ''send'' auth_id ''/messages'' status (''recipient='' @ py_str rcpt)
                     (record_traffic a m ROUTED status b)), s'))))"

definition handle_send ::
  "'s exchange \<Rightarrow> (seconds \<Rightarrow> 's \<Rightarrow> 's) \<Rightarrow> ambient \<Rightarrow> string \<Rightarrow> http_request \<Rightarrow> broker \<Rightarrow> 's \<Rightarrow>
   (answer \<times> broker) \<times> 's" where
  "handle_send net sleep a auth_id rq b s = (case read_body rq b of
     Inl ans \<Rightarrow> ((ans, b), s)
   | Inr raw \<Rightarrow> (case deserialize raw of
       Inl e \<Rightarrow>
         if is_protocol_error e then
           ((write_error 400 (exn_str e),
             audit ''send'' auth_id ''/messages'' 400 (''deserialization error: '' @ exn_str e) b), s)
         else ((Died e, b), s)
     | Inr m \<Rightarrow> handle_message net sleep a auth_id m b s))"

section \<open>GET /messages\<close>

definition auto_register_mailbox :: "seconds \<Rightarrow> string \<Rightarrow> broker \<Rightarrow> broker" where
  "auto_register_mailbox now agent_id b =
     (let b = b\<lparr>registry := reg_register \<lparr>ep_agent_id = agent_id, ep_host = ''mailbox'', ep_port = 0,
                ep_scheme = ''http'', ep_path = DEFAULT_MESSAGE_PATH, ep_mailbox = True\<rparr> (registry b)\<rparr>;
          b = b\<lparr>mailboxes := dict_setdefault agent_id [] (mailboxes b)\<rparr>;
          b = b\<lparr>capabilities := dict_setdefault agent_id [] (capabilities b)\<rparr>;
          b = b\<lparr>last_heartbeat := dict_set agent_id now (last_heartbeat b),
                ttl_seconds := dict_setdefault agent_id (default_ttl_seconds b) (ttl_seconds b)\<rparr>
      in audit ''auto-register'' agent_id ''/messages'' 200 ''mailbox re-registered on poll'' b)"

definition messages_payload :: "string list \<Rightarrow> body" where
  "messages_payload ms = BJson (JDict [(''messages'', JList (map JStr ms))])"

text \<open>The \<open>with server.mailbox_cond\<close> block from one look at the mailbox to the next wait.\<close>

definition poll_check :: "seconds \<Rightarrow> string \<Rightarrow> seconds \<Rightarrow> broker \<Rightarrow> answer \<times> broker" where
  "poll_check now poll_id deadline b = (case dict_get (mailboxes b) poll_id of
     None \<Rightarrow> (Answer 200 (messages_payload []), b)
   | Some mbox \<Rightarrow>
       if mbox = [] \<and> 0 < deadline - now then (Waiting poll_id deadline, b)
       else (Answer 200 (messages_payload mbox),
             audit ''poll'' poll_id ''/messages'' 200 (''delivered='' @ nat_str (length mbox))
               (b\<lparr>mailboxes := dict_set poll_id [] (mailboxes b)\<rparr>)))"

definition poll_wait :: "(string, string list) dict \<Rightarrow> seconds" where
  "poll_wait query = (case py_float (query_first query ''wait'' ''25'') of
     None \<Rightarrow> 25
   | Some w \<Rightarrow> (case pf_max (Fin 0) (pf_min (Fin MAX_POLL_WAIT_SECONDS) w) of Fin x \<Rightarrow> x | _ \<Rightarrow> 0))"

definition handle_poll :: "ambient \<Rightarrow> string \<Rightarrow> http_request \<Rightarrow> broker \<Rightarrow> answer \<times> broker" where
  "handle_poll a agent_id rq b =
     (let query = parse_qs (url_query (rq_path rq));
          poll_id = (if agent_id \<noteq> [] then agent_id else query_first query ''agent_id'' [])
      in if poll_id = [] then (write_error 400 ''agent_id required (auth token or ?agent_id=)'', b)
         else
           let b = (if dict_has (mailboxes b) poll_id then b else auto_register_mailbox (mono a) poll_id b);
               b = (if dict_has (ttl_seconds b) poll_id
                    then b\<lparr>last_heartbeat := dict_set poll_id (mono a) (last_heartbeat b)\<rparr> else b)
           in poll_check (mono a) poll_id (mono a + poll_wait query) b)"

section \<open>GET /traffic\<close>

text \<open>\<open>min(limit, maxlen or 1000)\<close>, \<open>None\<close> for an absent, malformed or non-positive limit.\<close>

definition traffic_limit :: "(string, string list) dict \<Rightarrow> nat \<Rightarrow> nat option" where
  "traffic_limit query maxlen = (case py_int (query_first query ''limit'' []) of
     None \<Rightarrow> None
   | Some n \<Rightarrow> if n \<le> 0 then None else Some (min (nat n) (if maxlen = 0 then 1000 else maxlen)))"

definition handle_traffic :: "http_request \<Rightarrow> broker \<Rightarrow> answer" where
  "handle_traffic rq b =
     (let query = parse_qs (url_query (rq_path rq));
          agent_filter = query_first query ''agent'' [];
          topic_filter = query_first query ''topic'' [];
          since = py_float (query_first query ''since'' []);
          until = py_float (query_first query ''until'' []);
          records = traffic_buffer b;
          records = (if agent_filter = [] then records
            else filter (\<lambda>r. tr_source r = JStr agent_filter \<or> tr_destination r = JStr agent_filter) records);
          records = (if topic_filter = [] then records
            else filter (\<lambda>r. tr_topic r = JStr topic_filter) records);
          records = (case since of None \<Rightarrow> records
            | Some t \<Rightarrow> filter (\<lambda>r. pf_le t (Fin (tr_timestamp r))) records);
          records = (case until of None \<Rightarrow> records
            | Some t \<Rightarrow> filter (\<lambda>r. pf_le (Fin (tr_timestamp r)) t) records);
          records = (case traffic_limit query (traffic_maxlen b) of None \<Rightarrow> records
            | Some n \<Rightarrow> last_n n records)
      in Answer 200 (BTraffic records))"

section \<open>Dispatch\<close>

definition dashboard_reading_paths :: "string list" where
  "dashboard_reading_paths = [''/dashboard'', ''/'', ''/agents'', ''/traffic'']"

definition do_GET :: "ambient \<Rightarrow> http_request \<Rightarrow> broker \<Rightarrow> answer \<times> broker" where
  "do_GET a rq b =
     (if rq_path rq = HEALTH_PATH then (Answer 200 (BJson (JDict [(''status'', JStr ''ok'')])), b)
      else
        let parsed_path = url_path (rq_path rq)
        in (case authenticated_and_rate_limited (parsed_path \<in> set dashboard_reading_paths) a rq b of
              (Inl ans, b) \<Rightarrow> (ans, b)
            | (Inr agent_id, b) \<Rightarrow>
                if parsed_path = ''/agents'' then (handle_agents a b, b)
                else if parsed_path = ''/traffic'' then (handle_traffic rq b, b)
                else if parsed_path = DEFAULT_MESSAGE_PATH then handle_poll a agent_id rq b
                else if dashboard_enabled b \<and> (parsed_path = ''/dashboard'' \<or> parsed_path = ''/'')
                then (Answer 200 BHtml, b)
                else (write_error 404 ''not found'', b)))"

definition do_POST ::
  "'s exchange \<Rightarrow> (seconds \<Rightarrow> 's \<Rightarrow> 's) \<Rightarrow> ambient \<Rightarrow> http_request \<Rightarrow> broker \<Rightarrow> 's \<Rightarrow>
   (answer \<times> broker) \<times> 's" where
  "do_POST net sleep a rq b s =
     (case authenticated_and_rate_limited False a rq b of
        (Inl ans, b) \<Rightarrow> ((ans, b), s)
      | (Inr agent_id, b) \<Rightarrow>
          if rq_path rq = ''/agents'' then (handle_register a agent_id rq b, s)
          else if rq_path rq = DEFAULT_MESSAGE_PATH then handle_send net sleep a agent_id rq b s
          else ((write_error 404 ''not found'', b), s))"

definition do_DELETE :: "ambient \<Rightarrow> http_request \<Rightarrow> broker \<Rightarrow> answer \<times> broker" where
  "do_DELETE a rq b =
     (case authenticated_and_rate_limited False a rq b of
        (Inl ans, b) \<Rightarrow> (ans, b)
      | (Inr agent_id, b) \<Rightarrow>
          if starts_with ''/agents/'' (rq_path rq) then handle_deregister agent_id rq b
          else (write_error 404 ''not found'', b))"

section \<open>Eviction\<close>

definition sweep_agent :: "seconds \<Rightarrow> endpoint \<Rightarrow> broker \<Rightarrow> broker" where
  "sweep_agent now ep b =
     (case (dict_get (last_heartbeat b) (ep_agent_id ep), dict_get (ttl_seconds b) (ep_agent_id ep)) of
        (Some last_hb, Some ttl) \<Rightarrow>
          if ttl \<le> 0 then b
          else if now - last_hb \<le> of_int ttl + (if ep_mailbox ep then mailbox_grace_seconds b else 0) then b
          else forget_agent (ep_agent_id ep) b
      | _ \<Rightarrow> b)"

definition sweep_once :: "seconds \<Rightarrow> broker \<Rightarrow> broker" where
  "sweep_once now b = fold (sweep_agent now) (list_agents (registry b)) b"

section \<open>Construction\<close>

definition DEFAULT_RETRY_POLICY :: retry_policy where
  "DEFAULT_RETRY_POLICY = \<lparr>max_attempts = 1, base_delay = 0, max_delay = 0, backoff_factor = 2\<rparr>"

record broker_args =
  arg_ttl_seconds :: int
  arg_router_timeout :: string
  arg_retry_policy :: "retry_policy option"
  arg_ssl_context :: bool
  arg_require_client_cert :: bool
  arg_agent_tokens :: "(string, string) dict option"
  arg_max_body_size :: int
  arg_rate_limit :: seconds
  arg_traffic_buffer_size :: int
  arg_mailbox_grace :: seconds
  arg_dashboard_enabled :: bool

definition default_broker_args :: broker_args where
  "default_broker_args =
     \<lparr>arg_ttl_seconds = 60, arg_router_timeout = ''5.0'', arg_retry_policy = None,
      arg_ssl_context = False, arg_require_client_cert = False, arg_agent_tokens = None,
      arg_max_body_size = 1048576, arg_rate_limit = 0, arg_traffic_buffer_size = 1000,
      arg_mailbox_grace = MAX_POLL_WAIT_SECONDS, arg_dashboard_enabled = False\<rparr>"

definition invert_tokens :: "(string, string) dict \<Rightarrow> (string, string) dict" where
  "invert_tokens ts = fold (\<lambda>(agent_id, token) d. dict_set token agent_id d) ts []"

definition broker_init :: "broker_args \<Rightarrow> broker result" where
  "broker_init args =
     (if arg_require_client_cert args \<and> \<not> arg_ssl_context args
      then Inl (PyValueError ''require_client_cert requires ssl_context'')
      else if arg_traffic_buffer_size args < 0
      then Inl (PyValueError ''maxlen must be non-negative'')
      else Inr
        \<lparr>registry = [], capabilities = [], last_heartbeat = [], ttl_seconds = [],
         default_ttl_seconds = arg_ttl_seconds args,
         agent_tokens = arg_agent_tokens args,
         token_to_agent = (case arg_agent_tokens args of None \<Rightarrow> [] | Some ts \<Rightarrow> invert_tokens ts),
         max_body_size = arg_max_body_size args,
         rate_limit_per_second = arg_rate_limit args, rate_buckets = [],
         mailboxes = [], traffic_buffer = [], traffic_maxlen = nat (arg_traffic_buffer_size args),
         mailbox_grace_seconds = arg_mailbox_grace args,
         dashboard_enabled = arg_dashboard_enabled args,
         broker_router = \<lparr>rt_policy = (case arg_retry_policy args of Some p \<Rightarrow> p | None \<Rightarrow> DEFAULT_RETRY_POLICY),
                          rt_timeout = arg_router_timeout args\<rparr>,
         audit_log = []\<rparr>)"

end
