(* ===== verification/Broker_Invariant.thy ===== *)
theory Broker_Invariant
  imports Broker
begin

text \<open>
  The invariant of the broker's state. The registry, the capabilities, the heartbeats and the
  TTLs are five dictionaries behind different locks; between requests they describe the same
  agents, every mailbox belongs to a registered agent and every agent registered for pull
  delivery has a mailbox. Each operation keeps this, and none changes the configuration.
\<close>

section \<open>Systems with an invariant\<close>

text \<open>What the clients of an invariant use: an operation that keeps it can be run any number of times.\<close>

locale invariant_system =
  fixes act :: "'e \<Rightarrow> 's \<Rightarrow> 's" and inv :: "'s \<Rightarrow> bool"
  assumes act_keeps: "inv s \<Longrightarrow> inv (act e s)"
begin

lemma fold_keeps: "inv s \<Longrightarrow> inv (fold act es s)"
  by (induction es arbitrary: s) (auto intro: act_keeps)

end

text \<open>A relation between the state before and after that a run inherits from its steps.\<close>

locale framed_system =
  fixes act :: "'e \<Rightarrow> 's \<Rightarrow> 's" and view :: "'s \<Rightarrow> 'v"
  assumes act_view: "view (act e s) = view s"
begin

lemma fold_view: "view (fold act es s) = view s"
  by (induction es arbitrary: s) (simp_all add: act_view)

end

sublocale framed_system \<subseteq> view_inv: invariant_system act "\<lambda>s. view s = v" for v
  by unfold_locales (simp add: act_view)

section \<open>The invariant\<close>

definition same_agents :: "broker \<Rightarrow> bool" where
  "same_agents b \<longleftrightarrow>
     dict_keys (capabilities b) = dict_keys (registry b) \<and>
     dict_keys (last_heartbeat b) = dict_keys (registry b) \<and>
     dict_keys (ttl_seconds b) = dict_keys (registry b) \<and>
     dict_keys (mailboxes b) \<subseteq> dict_keys (registry b)"

definition own_keys :: "broker \<Rightarrow> bool" where
  "own_keys b \<longleftrightarrow>
     (\<forall>a ep. dict_get (registry b) a = Some ep \<longrightarrow>
        a \<noteq> [] \<and> ep_agent_id ep = a \<and> (ep_mailbox ep \<longrightarrow> a \<in> dict_keys (mailboxes b)))"

definition wf_state :: "broker \<Rightarrow> bool" where
  "wf_state b \<longleftrightarrow> wf_dict (registry b) \<and> wf_dict (capabilities b) \<and> wf_dict (mailboxes b) \<and>
     length (traffic_buffer b) \<le> traffic_maxlen b \<and>
     (\<forall>c caps. dict_get (capabilities b) c = Some caps \<longrightarrow> wf_json (JDict caps))"

definition coherent :: "broker \<Rightarrow> bool" where
  "coherent b \<longleftrightarrow> same_agents b \<and> own_keys b \<and> wf_state b"

definition config :: "broker \<Rightarrow>
    int \<times> (string, string) dict option \<times> (string, string) dict \<times> int \<times> seconds \<times> nat \<times> seconds \<times> bool \<times> router" where
  "config b = (default_ttl_seconds b, agent_tokens b, token_to_agent b, max_body_size b,
     rate_limit_per_second b, traffic_maxlen b, mailbox_grace_seconds b, dashboard_enabled b, broker_router b)"

text \<open>The agents of a broker.\<close>

definition agents :: "broker \<Rightarrow> string set" where
  "agents b = dict_keys (registry b)"

section \<open>Updates that do not matter\<close>

lemma coherent_audit [simp]: "coherent (b\<lparr>audit_log := x\<rparr>) = coherent b"
  by (simp add: coherent_def same_agents_def own_keys_def wf_state_def)

lemma coherent_buckets [simp]: "coherent (b\<lparr>rate_buckets := x\<rparr>) = coherent b"
  by (simp add: coherent_def same_agents_def own_keys_def wf_state_def)

lemma coherent_audit_op [simp]: "coherent (audit x1 x2 x3 x4 x5 b) = coherent b"
  by (simp add: audit_def)

lemma coherent_traffic: "coherent b \<Longrightarrow> coherent (record_traffic a m d st b)"
  by (simp add: coherent_def same_agents_def own_keys_def wf_state_def record_traffic_def deque_append_def)

lemma audit_frame [simp]:
  "registry (audit x1 x2 x3 x4 x5 b) = registry b" "capabilities (audit x1 x2 x3 x4 x5 b) = capabilities b"
  "last_heartbeat (audit x1 x2 x3 x4 x5 b) = last_heartbeat b" "ttl_seconds (audit x1 x2 x3 x4 x5 b) = ttl_seconds b"
  "mailboxes (audit x1 x2 x3 x4 x5 b) = mailboxes b" "traffic_buffer (audit x1 x2 x3 x4 x5 b) = traffic_buffer b"
  "config (audit x1 x2 x3 x4 x5 b) = config b"
  by (simp_all add: audit_def config_def)

lemma traffic_frame [simp]:
  "registry (record_traffic a m d st b) = registry b" "capabilities (record_traffic a m d st b) = capabilities b"
  "last_heartbeat (record_traffic a m d st b) = last_heartbeat b" "ttl_seconds (record_traffic a m d st b) = ttl_seconds b"
  "mailboxes (record_traffic a m d st b) = mailboxes b" "config (record_traffic a m d st b) = config b"
  by (simp_all add: record_traffic_def config_def)

section \<open>Registration\<close>

lemma reg_keys:
  "dict_keys (reg_register ep r) = insert (ep_agent_id ep) (dict_keys r)"
  "dict_keys (suppress_not_found r (reg_unregister a r)) = dict_keys r - {a}"
  by (auto simp: reg_register_def suppress_not_found_def reg_unregister_def dict_simps has_iff_keys split: sum.splits)

lemma reg_gets:
  "dict_get (reg_register ep r) a = (if a = ep_agent_id ep then Some ep else dict_get r a)"
  "dict_get (suppress_not_found r (reg_unregister c r)) a = (if a = c then None else dict_get r a)"
  by (auto simp: reg_register_def suppress_not_found_def reg_unregister_def dict_simps dict_has_def)

lemma reg_wf:
  "wf_dict r \<Longrightarrow> wf_dict (reg_register ep r)"
  "wf_dict r \<Longrightarrow> wf_dict (suppress_not_found r (reg_unregister a r))"
  by (auto simp: reg_register_def suppress_not_found_def reg_unregister_def wf_dict_set wf_dict_pop)

lemma apply_register_fields:
  "registry (apply_register now v b) = reg_register (endpoint_of v) (registry b)"
  "capabilities (apply_register now v b) = dict_set (v_agent_id v) (v_caps v) (capabilities b)"
  "last_heartbeat (apply_register now v b) = dict_set (v_agent_id v) now (last_heartbeat b)"
  "mailboxes (apply_register now v b) =
     (if v_mailbox v then dict_setdefault (v_agent_id v) [] (mailboxes b) else mailboxes b)"
  "ttl_seconds (apply_register now v b) = (case v_ttl v of
      Some ttl \<Rightarrow> dict_set (v_agent_id v) ttl (ttl_seconds b)
    | None \<Rightarrow> if v_is_new v then dict_set (v_agent_id v) (default_ttl_seconds b) (ttl_seconds b) else ttl_seconds b)"
  "traffic_buffer (apply_register now v b) = traffic_buffer b"
  "config (apply_register now v b) = config b"
  by (auto simp: apply_register_def config_def Let_def split: option.splits)

lemma traffic_maxlen_config: "traffic_maxlen b' = traffic_maxlen b" if "config b' = config b"
  using that by (simp add: config_def)

lemma apply_register_coherent:
  assumes "coherent b" "v_agent_id v \<noteq> []" "v_is_new v \<longleftrightarrow> v_agent_id v \<notin> agents b"
    and "wf_json (JDict (v_caps v))"
  shows "coherent (apply_register now v b)"
proof -
  have id: "ep_agent_id (endpoint_of v) = v_agent_id v" "ep_mailbox (endpoint_of v) = v_mailbox v"
    by (simp_all add: endpoint_of_def)
  have "same_agents (apply_register now v b)"
    using assms by (auto simp: coherent_def same_agents_def agents_def apply_register_fields
        reg_keys id dict_simps split: option.splits)
  moreover have "own_keys (apply_register now v b)"
    using assms by (auto simp: coherent_def own_keys_def apply_register_fields reg_gets id dict_simps)
  moreover have "wf_state (apply_register now v b)"
    using assms traffic_maxlen_config[OF apply_register_fields(7)[of now v b]]
    by (auto simp: coherent_def wf_state_def apply_register_fields reg_wf wf_dict_set wf_dict_setdefault dict_simps
        split: if_splits)
  ultimately show ?thesis by (simp add: coherent_def)
qed

lemma validate_register_elim:
  assumes "validate_register_payload data auth b = Inr v"
  obtains aid hp sch pth caps ttl mb where
    "get_default data ''agent_id'' JNull = JStr aid" "aid \<noteq> []" "\<not> 255 < length aid"
    "\<not> (auth \<noteq> [] \<and> aid \<noteq> auth)"
    "(if mb then Inr (mailbox_endpoint (get_default data ''host'' JNull) (get_default data ''port'' JNull))
      else check_endpoint (get_default data ''host'' JNull) (get_default data ''port'' JNull) aid) = Inr hp"
    "check_scheme data aid = Inr sch" "check_path data aid = Inr pth"
    "check_capabilities data aid = Inr caps" "check_ttl data aid = Inr ttl"
    "v = \<lparr>v_agent_id = aid, v_host = fst hp, v_port = snd hp, v_scheme = sch, v_path = pth, v_caps = caps,
          v_ttl = ttl, v_mailbox = mb,
          v_is_new = (case reg_lookup aid (registry b) of Inr _ \<Rightarrow> False | Inl _ \<Rightarrow> True)\<rparr>"
  using assms unfolding validate_register_payload_def Let_def
  by (simp only: result_simps as_simps prod.case_eq_if)
    (elim exE conjE, rule that, assumption+, erule Inr_inject[THEN sym])

lemma validate_register_Inr:
  assumes "validate_register_payload data auth b = Inr v"
  shows "v_agent_id v \<noteq> []" "length (v_agent_id v) \<le> 255" "auth \<noteq> [] \<Longrightarrow> v_agent_id v = auth"
    "v_is_new v \<longleftrightarrow> v_agent_id v \<notin> agents b"
    "get_default data ''agent_id'' JNull = JStr (v_agent_id v)"
proof -
  have new: "(case reg_lookup aid (registry b) of Inr _ \<Rightarrow> False | Inl _ \<Rightarrow> True) \<longleftrightarrow> aid \<notin> agents b" for aid
    by (auto simp: reg_lookup_def agents_def get_None_keys dest: get_Some_keys split: option.splits)
  from assms show "v_agent_id v \<noteq> []" "length (v_agent_id v) \<le> 255" "auth \<noteq> [] \<Longrightarrow> v_agent_id v = auth"
    "v_is_new v \<longleftrightarrow> v_agent_id v \<notin> agents b"
    "get_default data ''agent_id'' JNull = JStr (v_agent_id v)"
    by (rule validate_register_elim; simp add: new)+
qed

text \<open>The arguments a register request is accepted with.\<close>

definition accepted_args :: "string \<Rightarrow> http_request \<Rightarrow> broker \<Rightarrow> register_args option" where
  "accepted_args auth rq b = (case read_body rq b of
     Inr raw \<Rightarrow> (case loads raw of
       Some (JDict data) \<Rightarrow> (case validate_register_payload data auth b of Inr v \<Rightarrow> Some v | Inl _ \<Rightarrow> None)
     | _ \<Rightarrow> None)
   | Inl _ \<Rightarrow> None)"

fun is_success :: "answer \<Rightarrow> bool" where
  "is_success (Answer st bd) = (st < 400)"
| "is_success (Died e) = False"
| "is_success (Waiting p d) = False"

lemma write_error_success [simp]: "is_success (write_error st msg) = (st < 400)"
  by (simp add: write_error_def)

lemma handle_register_accepted:
  assumes "accepted_args auth rq b = Some v"
  shows "handle_register a auth rq b =
    (Answer (if v_is_new v then 201 else 200) (BJson (JDict [(''agent_id'', JStr (v_agent_id v))])),
     audit ''register'' (v_agent_id v) ''/agents'' (if v_is_new v then 201 else 200)
       (if v_is_new v then ''created'' else ''updated'') (apply_register (mono a) v b))"
  using assms
  by (auto simp: accepted_args_def handle_register_def Let_def split: sum.splits option.splits json.splits)

lemma read_body_Inl: "read_body rq b = Inl ans \<Longrightarrow> \<not> is_success ans"
  by (auto simp: read_body_def split: option.splits if_splits)

lemma check_endpoint_Inl: "check_endpoint h p a = Inl r \<Longrightarrow> fst r = 400"
  by (auto simp: check_endpoint_def split: option.split_asm if_split_asm)

lemma check_scheme_Inl: "check_scheme d a = Inl r \<Longrightarrow> fst r = 400"
  by (auto simp: check_scheme_def split: option.split_asm if_split_asm)

lemma check_path_Inl: "check_path d a = Inl r \<Longrightarrow> fst r = 400"
  by (auto simp: check_path_def split: option.split_asm if_split_asm)

lemma check_capabilities_Inl: "check_capabilities d a = Inl r \<Longrightarrow> fst r = 400"
  by (auto simp: check_capabilities_def split: option.split_asm)

lemma check_ttl_Inl: "check_ttl d a = Inl r \<Longrightarrow> fst r = 400"
  by (auto simp: check_ttl_def split: option.split_asm if_split_asm)

lemmas check_Inl = check_endpoint_Inl check_scheme_Inl check_path_Inl check_capabilities_Inl check_ttl_Inl

lemma validate_register_Inl:
  assumes "validate_register_payload data auth b = Inl r"
  shows "fst r = 400 \<or> fst r = 403"
  using assms
  unfolding validate_register_payload_def Let_def result_errors prod.case_eq_if
  by (elim disjE exE conjE) (auto dest: check_Inl split: if_split_asm)

lemma handle_register_refused:
  assumes "accepted_args auth rq b = None" "handle_register a auth rq b = (ans, b')"
  shows "\<not> is_success ans" "b' = b\<lparr>audit_log := audit_log b'\<rparr>"
  using assms
  by (auto simp: accepted_args_def handle_register_def Let_def reject_def audit_def as_dict_def
      dest!: read_body_Inl validate_register_Inl
      split: sum.splits option.splits json.splits prod.splits)

section \<open>Removal\<close>

lemma forget_agent_fields:
  "registry (forget_agent c b) = suppress_not_found (registry b) (reg_unregister c (registry b))"
  "capabilities (forget_agent c b) = dict_pop c (capabilities b)"
  "last_heartbeat (forget_agent c b) = dict_pop c (last_heartbeat b)"
  "ttl_seconds (forget_agent c b) = dict_pop c (ttl_seconds b)"
  "mailboxes (forget_agent c b) = dict_pop c (mailboxes b)"
  "traffic_buffer (forget_agent c b) = traffic_buffer b"
  "config (forget_agent c b) = config b"
  by (simp_all add: forget_agent_def Let_def config_def)

lemma forget_agent_coherent:
  assumes "coherent b" shows "coherent (forget_agent c b)"
proof -
  have "same_agents (forget_agent c b)"
    using assms by (auto simp: coherent_def same_agents_def forget_agent_fields reg_keys dict_simps)
  moreover have "own_keys (forget_agent c b)"
    using assms by (auto simp: coherent_def own_keys_def forget_agent_fields reg_gets dict_simps split: if_splits)
  moreover have "wf_state (forget_agent c b)"
    using assms traffic_maxlen_config[OF forget_agent_fields(7)[of c b]]
    by (simp add: coherent_def wf_state_def forget_agent_fields reg_wf wf_dict_pop dict_simps)
  ultimately show ?thesis by (simp add: coherent_def)
qed

lemma forget_agent_agents: "agents (forget_agent c b) = agents b - {c}"
  by (simp add: agents_def forget_agent_fields reg_keys)

section \<open>Sending\<close>

lemma enqueue_mailboxes:
  "mailboxes (enqueue c raw b) =
     dict_set c ((case dict_get (mailboxes b) c of Some q \<Rightarrow> q | None \<Rightarrow> []) @ [raw]) (dict_setdefault c [] (mailboxes b))"
  by (simp add: enqueue_def Let_def dict_simps split: option.splits)

lemma enqueue_frame [simp]:
  "registry (enqueue c raw b) = registry b" "capabilities (enqueue c raw b) = capabilities b"
  "last_heartbeat (enqueue c raw b) = last_heartbeat b" "ttl_seconds (enqueue c raw b) = ttl_seconds b"
  "traffic_buffer (enqueue c raw b) = traffic_buffer b" "config (enqueue c raw b) = config b"
  by (simp_all add: enqueue_def Let_def config_def)

lemma enqueue_coherent:
  assumes "coherent b" "c \<in> agents b" shows "coherent (enqueue c raw b)"
proof -
  have "same_agents (enqueue c raw b)"
    using assms by (auto simp: coherent_def same_agents_def agents_def enqueue_mailboxes dict_simps)
  moreover have "own_keys (enqueue c raw b)"
    using assms by (auto simp: coherent_def own_keys_def enqueue_mailboxes dict_simps)
  moreover have "wf_state (enqueue c raw b)"
    using assms traffic_maxlen_config[of "enqueue c raw b" b]
    by (simp add: coherent_def wf_state_def enqueue_mailboxes wf_dict_set wf_dict_setdefault)
  ultimately show ?thesis by (simp add: coherent_def)
qed

lemma reg_lookup_value_Inr: "reg_lookup_value v r = Inr ep \<longleftrightarrow> (\<exists>a. v = JStr a \<and> dict_get r a = Some ep)"
  by (auto simp: reg_lookup_value_def reg_lookup_def split: json.splits option.splits)

lemma handle_message_coherent:
  assumes "coherent b"
  shows "coherent (snd (fst (handle_message net sleep a auth m b s)))"
proof -
  have "coherent (enqueue (py_str (recipient (meta m))) raw b)"
    if "reg_lookup_value (recipient (meta m)) (registry b) = Inr ep" for ep raw
    using that assms by (auto simp: reg_lookup_value_Inr py_str_def agents_def intro!: enqueue_coherent dest: get_Some_keys)
  then show ?thesis
    using assms by (auto simp: handle_message_def Let_def intro: coherent_traffic split: sum.splits exn.splits prod.splits)
qed

lemma handle_message_config: "config (snd (fst (handle_message net sleep a auth m b s))) = config b"
  by (auto simp: handle_message_def Let_def split: sum.splits exn.splits prod.splits)

lemma handle_send_coherent:
  "coherent b \<Longrightarrow> coherent (snd (fst (handle_send net sleep a auth rq b s)))"
  by (auto simp: handle_send_def intro: handle_message_coherent split: sum.splits)

lemma handle_send_config: "config (snd (fst (handle_send net sleep a auth rq b s))) = config b"
  by (auto simp: handle_send_def handle_message_config split: sum.splits)

section \<open>Polling\<close>

definition mailbox_ep :: "string \<Rightarrow> endpoint" where
  "mailbox_ep c = \<lparr>ep_agent_id = c, ep_host = ''mailbox'', ep_port = 0, ep_scheme = ''http'',
     ep_path = DEFAULT_MESSAGE_PATH, ep_mailbox = True\<rparr>"

lemma auto_register_fields:
  "registry (auto_register_mailbox now c b) = reg_register (mailbox_ep c) (registry b)"
  "capabilities (auto_register_mailbox now c b) = dict_setdefault c [] (capabilities b)"
  "last_heartbeat (auto_register_mailbox now c b) = dict_set c now (last_heartbeat b)"
  "ttl_seconds (auto_register_mailbox now c b) = dict_setdefault c (default_ttl_seconds b) (ttl_seconds b)"
  "mailboxes (auto_register_mailbox now c b) = dict_setdefault c [] (mailboxes b)"
  "traffic_buffer (auto_register_mailbox now c b) = traffic_buffer b"
  "config (auto_register_mailbox now c b) = config b"
  by (simp_all add: auto_register_mailbox_def Let_def config_def mailbox_ep_def audit_def)

lemma auto_register_coherent:
  assumes "coherent b" "c \<noteq> []" shows "coherent (auto_register_mailbox now c b)"
proof -
  have id: "ep_agent_id (mailbox_ep c) = c" by (simp add: mailbox_ep_def)
  have "same_agents (auto_register_mailbox now c b)"
    using assms by (auto simp: coherent_def same_agents_def auto_register_fields reg_keys id dict_simps)
  moreover have "own_keys (auto_register_mailbox now c b)"
    using assms by (auto simp: coherent_def own_keys_def auto_register_fields reg_gets id dict_simps)
  moreover have "wf_state (auto_register_mailbox now c b)"
    using assms traffic_maxlen_config[OF auto_register_fields(7)[of now c b]]
    by (auto simp: coherent_def wf_state_def auto_register_fields reg_wf wf_dict_setdefault dict_simps
        split: option.splits if_splits)
  ultimately show ?thesis by (simp add: coherent_def)
qed

lemma poll_check_frame:
  "registry (snd (poll_check now c d b)) = registry b"
  "capabilities (snd (poll_check now c d b)) = capabilities b"
  "last_heartbeat (snd (poll_check now c d b)) = last_heartbeat b"
  "ttl_seconds (snd (poll_check now c d b)) = ttl_seconds b"
  "traffic_buffer (snd (poll_check now c d b)) = traffic_buffer b"
  "config (snd (poll_check now c d b)) = config b"
  by (simp_all add: poll_check_def audit_def config_def split: option.splits)

lemma poll_check_keys: "dict_keys (mailboxes (snd (poll_check now c d b))) = dict_keys (mailboxes b)"
  by (auto simp: poll_check_def dict_simps dest: get_Some_keys split: option.splits)

lemma poll_check_wf: "wf_dict (mailboxes b) \<Longrightarrow> wf_dict (mailboxes (snd (poll_check now c d b)))"
  by (simp add: poll_check_def wf_dict_set split: option.splits)

lemma poll_check_coherent:
  assumes "coherent b" shows "coherent (snd (poll_check now c d b))"
  using assms traffic_maxlen_config[OF poll_check_frame(6)[of now c d b]]
  by (simp add: coherent_def same_agents_def own_keys_def wf_state_def poll_check_frame poll_check_keys poll_check_wf)

definition beat :: "seconds \<Rightarrow> string \<Rightarrow> broker \<Rightarrow> broker" where
  "beat now c b = (if dict_has (ttl_seconds b) c then b\<lparr>last_heartbeat := dict_set c now (last_heartbeat b)\<rparr> else b)"

definition revive :: "seconds \<Rightarrow> string \<Rightarrow> broker \<Rightarrow> broker" where
  "revive now c b = (if dict_has (mailboxes b) c then b else auto_register_mailbox now c b)"

definition poll_id_of :: "string \<Rightarrow> http_request \<Rightarrow> string" where
  "poll_id_of agent_id rq =
     (if agent_id \<noteq> [] then agent_id else query_first (parse_qs (url_query (rq_path rq))) ''agent_id'' [])"

lemma handle_poll_alt:
  "handle_poll a agent_id rq b =
     (let c = poll_id_of agent_id rq
      in if c = [] then (write_error 400 ''agent_id required (auth token or ?agent_id=)'', b)
         else poll_check (mono a) c (mono a + poll_wait (parse_qs (url_query (rq_path rq))))
                (beat (mono a) c (revive (mono a) c b)))"
  unfolding handle_poll_def poll_id_of_def beat_def revive_def Let_def by (rule refl)

lemma beat_coherent: "coherent b \<Longrightarrow> coherent (beat now c b)"
  by (auto simp: beat_def coherent_def same_agents_def own_keys_def wf_state_def dict_simps has_iff_keys)

lemma beat_frame [simp]:
  "registry (beat now c b) = registry b" "capabilities (beat now c b) = capabilities b"
  "ttl_seconds (beat now c b) = ttl_seconds b" "mailboxes (beat now c b) = mailboxes b"
  "traffic_buffer (beat now c b) = traffic_buffer b" "config (beat now c b) = config b"
  by (simp_all add: beat_def config_def)

lemma revive_coherent: "coherent b \<Longrightarrow> c \<noteq> [] \<Longrightarrow> coherent (revive now c b)"
  by (simp add: revive_def auto_register_coherent)

lemma revive_config: "config (revive now c b) = config b"
  by (simp add: revive_def auto_register_fields)

lemma handle_poll_coherent: "coherent b \<Longrightarrow> coherent (snd (handle_poll a agent_id rq b))"
  by (simp add: handle_poll_alt Let_def poll_check_coherent beat_coherent revive_coherent)

lemma handle_poll_config: "config (snd (handle_poll a agent_id rq b)) = config b"
  by (simp add: handle_poll_alt Let_def poll_check_frame revive_config)

section \<open>Registration and removal requests\<close>

lemma validate_register_caps:
  assumes "validate_register_payload data auth b = Inr v" "wf_json (JDict data)"
  shows "wf_json (JDict (v_caps v))"
proof -
  from assms(1) obtain aid caps where "check_capabilities data aid = Inr caps" "v_caps v = caps"
    by (rule validate_register_elim) simp
  moreover have "wf_json w" if "dict_get data k = Some w" for k w
    using assms(2) get_in_set[OF that] by (auto simp: wf_members_iff)
  ultimately show ?thesis
    by (auto simp: check_capabilities_def simp del: wf_json.simps split: option.splits) simp
qed

lemma accepted_args_Some:
  assumes "accepted_args auth rq b = Some v"
  shows "v_agent_id v \<noteq> []" "length (v_agent_id v) \<le> 255" "auth \<noteq> [] \<Longrightarrow> v_agent_id v = auth"
    "v_is_new v \<longleftrightarrow> v_agent_id v \<notin> agents b" "wf_json (JDict (v_caps v))"
proof -
  from assms obtain raw data where v: "validate_register_payload data auth b = Inr v" "loads raw = Some (JDict data)"
    by (auto simp: accepted_args_def split: sum.splits option.splits json.splits)
  note r = validate_register_Inr[OF v(1)]
  show "v_agent_id v \<noteq> []" "length (v_agent_id v) \<le> 255" "auth \<noteq> [] \<Longrightarrow> v_agent_id v = auth"
    "v_is_new v \<longleftrightarrow> v_agent_id v \<notin> agents b" using r(1,2,3,4) by simp_all
  show "wf_json (JDict (v_caps v))" using validate_register_caps[OF v(1) loads_wf[OF v(2)]] .
qed

lemma handle_register_refused_frame:
  assumes "accepted_args auth rq b = None"
  shows "snd (handle_register a auth rq b) = b\<lparr>audit_log := audit_log (snd (handle_register a auth rq b))\<rparr>"
  using handle_register_refused(2)[OF assms, of a "fst (handle_register a auth rq b)"] by simp

lemma handle_register_coherent:
  assumes "coherent b" shows "coherent (snd (handle_register a auth rq b))"
proof (cases "accepted_args auth rq b")
  case None
  then show ?thesis using assms by (subst handle_register_refused_frame) simp_all
next
  case (Some v)
  then show ?thesis
    by (simp add: handle_register_accepted apply_register_coherent[OF assms] accepted_args_Some del: wf_json.simps)
qed

lemma config_audit [simp]: "config (b\<lparr>audit_log := x\<rparr>) = config b"
  by (simp add: config_def)

lemma handle_register_config: "config (snd (handle_register a auth rq b)) = config b"
proof (cases "accepted_args auth rq b")
  case None
  then show ?thesis by (subst handle_register_refused_frame) simp_all
next
  case (Some v)
  then show ?thesis by (simp add: handle_register_accepted apply_register_fields)
qed

lemma handle_deregister_coherent: "coherent b \<Longrightarrow> coherent (snd (handle_deregister auth rq b))"
  by (simp add: handle_deregister_def Let_def forget_agent_coherent)

lemma handle_deregister_config: "config (snd (handle_deregister auth rq b)) = config b"
  by (simp add: handle_deregister_def Let_def forget_agent_fields)

section \<open>Sweeping\<close>

lemma sweep_agent_coherent: "coherent b \<Longrightarrow> coherent (sweep_agent now ep b)"
  by (simp add: sweep_agent_def forget_agent_coherent split: option.splits)

lemma sweep_agent_config: "config (sweep_agent now ep b) = config b"
  by (simp add: sweep_agent_def forget_agent_fields split: option.splits)

interpretation sweeping: invariant_system "sweep_agent now" coherent for now
  by unfold_locales (rule sweep_agent_coherent)

interpretation sweep_frame: framed_system "sweep_agent now" config for now
  by unfold_locales (rule sweep_agent_config)

lemma sweep_once_coherent: "coherent b \<Longrightarrow> coherent (sweep_once now b)"
  by (simp add: sweep_once_def sweeping.fold_keeps)

lemma sweep_once_config: "config (sweep_once now b) = config b"
  by (simp add: sweep_once_def sweep_frame.fold_view)

section \<open>Requests\<close>

lemma check_rate_limit_coherent: "coherent (snd (check_rate_limit now k b)) = coherent b"
  by (simp add: check_rate_limit_def Let_def split: prod.splits)

lemma check_rate_limit_frame:
  assumes "check_rate_limit now k b = (ok, b')"
  shows "b' = b\<lparr>rate_buckets := rate_buckets b'\<rparr>"
  using assms by (auto simp: check_rate_limit_def Let_def split: prod.splits if_splits)

lemma admitted_frame:
  assumes "authenticated_and_rate_limited q a rq b = (r, b')"
  shows "b' = b\<lparr>rate_buckets := rate_buckets b'\<rparr>"
  using assms
  by (auto simp: authenticated_and_rate_limited_def Let_def split: sum.splits prod.splits bool.splits
      dest: check_rate_limit_frame)

lemma admitted_obtain:
  assumes "authenticated_and_rate_limited q a rq b = (r, b')"
  obtains x where "b' = b\<lparr>rate_buckets := x\<rparr>"
  using admitted_frame[OF assms] that by blast

lemma admitted_coherent:
  "authenticated_and_rate_limited q a rq b = (r, b') \<Longrightarrow> coherent b' = coherent b"
  by (erule admitted_obtain) simp

lemma admitted_config:
  "authenticated_and_rate_limited q a rq b = (r, b') \<Longrightarrow> config b' = config b"
  by (erule admitted_obtain) (simp add: config_def)

lemma do_GET_coherent: "coherent b \<Longrightarrow> coherent (snd (do_GET a rq b))"
  by (auto simp: do_GET_def Let_def dest: admitted_coherent intro: handle_poll_coherent
      split: prod.splits sum.splits)

lemma do_GET_config: "config (snd (do_GET a rq b)) = config b"
  by (auto simp: do_GET_def Let_def handle_poll_config dest: admitted_config split: prod.splits sum.splits)

lemma do_DELETE_coherent: "coherent b \<Longrightarrow> coherent (snd (do_DELETE a rq b))"
  by (auto simp: do_DELETE_def dest: admitted_coherent intro: handle_deregister_coherent
      split: prod.splits sum.splits)

lemma do_DELETE_config: "config (snd (do_DELETE a rq b)) = config b"
  by (auto simp: do_DELETE_def handle_deregister_config dest: admitted_config split: prod.splits sum.splits)

lemma do_POST_coherent: "coherent b \<Longrightarrow> coherent (snd (fst (do_POST net sleep a rq b s)))"
  by (auto simp: do_POST_def dest: admitted_coherent intro: handle_register_coherent handle_send_coherent
      split: prod.splits sum.splits)

lemma do_POST_config: "config (snd (fst (do_POST net sleep a rq b s))) = config b"
  by (auto simp: do_POST_def handle_register_config handle_send_config dest: admitted_config
      split: prod.splits sum.splits)

lemma broker_init_coherent: "broker_init args = Inr b \<Longrightarrow> coherent b"
  by (auto simp: broker_init_def coherent_def same_agents_def own_keys_def wf_state_def dict_simps split: if_splits)

end
