(* ===== verification/Broker_Props.thy ===== *)
theory Broker_Props
  imports Broker_Invariant
begin

text \<open>
  The behaviour of each broker operation: who a request may act for, what it changes for every
  other agent, what registration, removal, sending, polling and sweeping do to an agent, and
  what the monitoring endpoints report.
\<close>

section \<open>All methods\<close>

datatype http_method = GET | POST | DELETE

definition handle_request ::
  "'s exchange \<Rightarrow> (seconds \<Rightarrow> 's \<Rightarrow> 's) \<Rightarrow> http_method \<Rightarrow> ambient \<Rightarrow> http_request \<Rightarrow> broker \<Rightarrow> 's \<Rightarrow>
   (answer \<times> broker) \<times> 's" where
  "handle_request net sleep meth a rq b s = (case meth of
     GET \<Rightarrow> (do_GET a rq b, s)
   | POST \<Rightarrow> do_POST net sleep a rq b s
   | DELETE \<Rightarrow> (do_DELETE a rq b, s))"

lemma handle_request_coherent:
  "coherent b \<Longrightarrow> coherent (snd (fst (handle_request net sleep meth a rq b s)))"
  by (cases meth) (simp_all add: handle_request_def do_GET_coherent do_POST_coherent do_DELETE_coherent)

lemma handle_request_config:
  "config (snd (fst (handle_request net sleep meth a rq b s))) = config b"
  by (cases meth) (simp_all add: handle_request_def do_GET_config do_POST_config do_DELETE_config)

text \<open>The one request that is answered before authentication.\<close>

definition is_health_probe :: "http_method \<Rightarrow> http_request \<Rightarrow> bool" where
  "is_health_probe meth rq \<longleftrightarrow> meth = GET \<and> rq_path rq = HEALTH_PATH"

definition query_token_allowed :: "http_method \<Rightarrow> http_request \<Rightarrow> bool" where
  "query_token_allowed meth rq \<longleftrightarrow> meth = GET \<and> url_path (rq_path rq) \<in> set dashboard_reading_paths"

definition admission :: "http_method \<Rightarrow> http_request \<Rightarrow> broker \<Rightarrow> answer + string" where
  "admission meth rq b = authenticate (query_token_allowed meth rq) rq b"

lemma handle_request_refused:
  assumes "\<not> is_health_probe meth rq" "admission meth rq b = Inl ans"
  shows "handle_request net sleep meth a rq b s = ((ans, b), s)"
  using assms
  by (cases meth) (auto simp: handle_request_def is_health_probe_def admission_def query_token_allowed_def
      do_GET_def do_POST_def do_DELETE_def authenticated_and_rate_limited_def Let_def)

section \<open>Authentication\<close>

lemma authenticate_Inl:
  assumes "authenticate q rq b = Inl ans"
  shows "\<exists>msg. ans = write_error 401 msg"
  using assms by (auto simp: authenticate_def Let_def split: option.splits if_splits)

text \<open>The token a request presents.\<close>

definition presented_token :: "bool \<Rightarrow> http_request \<Rightarrow> string option" where
  "presented_token allow_query rq = (case rq_auth rq of
     Some (c # cs) \<Rightarrow> (if starts_with ''Bearer '' (c # cs) then Some (drop (length ''Bearer '') (c # cs)) else None)
   | _ \<Rightarrow> if allow_query \<and> query_first (parse_qs (url_query (rq_path rq))) ''token'' [] \<noteq> []
          then Some (query_first (parse_qs (url_query (rq_path rq))) ''token'' []) else None)"

lemma authenticate_Inr:
  assumes "agent_tokens b = Some ts"
  shows "authenticate q rq b = Inr who \<longleftrightarrow>
    (\<exists>tok. presented_token q rq = Some tok \<and> dict_get (token_to_agent b) tok = Some who)"
  using assms
  by (auto simp: authenticate_def presented_token_def Let_def split: option.splits if_splits list.splits)

lemma fold_invert_get:
  "dict_get (fold (\<lambda>(agent_id, token) d. dict_set token agent_id d) ts d) tok =
     (case map_of (rev (map prod.swap ts)) tok of Some a \<Rightarrow> Some a | None \<Rightarrow> dict_get d tok)"
  by (induction ts arbitrary: d) (auto simp: dict_simps map_add_def split: option.splits prod.splits)

text \<open>The inverted token map: the last agent of a token is its principal.\<close>

lemma invert_tokens_get: "dict_get (invert_tokens ts) tok = map_of (rev (map prod.swap ts)) tok"
  by (simp add: invert_tokens_def fold_invert_get split: option.splits)

lemma invert_tokens_sound: "dict_get (invert_tokens ts) tok = Some a \<Longrightarrow> (a, tok) \<in> set ts"
  by (auto simp: invert_tokens_get dest!: map_of_SomeD)

lemma invert_tokens_complete:
  assumes "distinct (map snd ts)" "(a, tok) \<in> set ts"
  shows "dict_get (invert_tokens ts) tok = Some a"
proof -
  have "map fst (rev (map prod.swap ts)) = rev (map snd ts)" by (simp add: rev_map o_def)
  with assms show ?thesis by (simp add: invert_tokens_get image_iff) (metis swap_simp)
qed

text \<open>A broker whose token map is the one its constructor builds.\<close>

definition token_map_ok :: "broker \<Rightarrow> bool" where
  "token_map_ok b \<longleftrightarrow> (\<forall>ts. agent_tokens b = Some ts \<longrightarrow> token_to_agent b = invert_tokens ts)"

lemma broker_init_tokens: "broker_init args = Inr b \<Longrightarrow> token_map_ok b"
  by (auto simp: broker_init_def token_map_ok_def split: if_splits)

lemma token_map_config: "config b' = config b \<Longrightarrow> token_map_ok b' = token_map_ok b"
  by (simp add: config_def token_map_ok_def)

section \<open>What a request cannot touch\<close>

text \<open>Everything the broker holds about one agent.\<close>

definition entry :: "broker \<Rightarrow> string \<Rightarrow>
    endpoint option \<times> (string, json) dict option \<times> seconds option \<times> int option" where
  "entry b c = (dict_get (registry b) c, dict_get (capabilities b) c, dict_get (last_heartbeat b) c,
     dict_get (ttl_seconds b) c)"

definition box :: "broker \<Rightarrow> string \<Rightarrow> string list" where
  "box b c = (case dict_get (mailboxes b) c of Some q \<Rightarrow> q | None \<Rightarrow> [])"

lemma entry_audit [simp]: "entry (audit x1 x2 x3 x4 x5 b) c = entry b c" "box (audit x1 x2 x3 x4 x5 b) c = box b c"
  by (simp_all add: entry_def box_def)

lemma entry_traffic [simp]: "entry (record_traffic a m d st b) c = entry b c" "box (record_traffic a m d st b) c = box b c"
  by (simp_all add: entry_def box_def)

lemma entry_enqueue [simp]: "entry (enqueue x raw b) c = entry b c"
  by (simp add: entry_def)

lemma box_enqueue: "box (enqueue x raw b) c = (if c = x then box b c @ [raw] else box b c)"
  by (auto simp: box_def enqueue_mailboxes dict_simps)

lemma entry_apply_register: "c \<noteq> v_agent_id v \<Longrightarrow> entry (apply_register now v b) c = entry b c"
  by (auto simp: entry_def apply_register_fields reg_gets dict_simps endpoint_of_def split: option.splits)

lemma box_apply_register [simp]: "box (apply_register now v b) c = box b c"
  by (auto simp: box_def apply_register_fields dict_simps split: option.splits)

lemma entry_forget: "entry (forget_agent x b) c = (if c = x then (None, None, None, None) else entry b c)"
  by (simp add: entry_def forget_agent_fields reg_gets dict_simps)

lemma box_forget: "box (forget_agent x b) c = (if c = x then [] else box b c)"
  by (simp add: box_def forget_agent_fields dict_simps)

lemma entry_poll_check [simp]: "entry (snd (poll_check now x d b)) c = entry b c"
  by (simp add: entry_def poll_check_frame)

lemma box_poll_check: "c \<noteq> x \<Longrightarrow> box (snd (poll_check now x d b)) c = box b c"
  by (auto simp: box_def poll_check_def dict_simps split: option.splits)

lemma entry_revive: "c \<noteq> x \<Longrightarrow> entry (revive now x b) c = entry b c"
  by (auto simp: entry_def revive_def auto_register_fields reg_gets dict_simps mailbox_ep_def)

lemma box_revive [simp]: "box (revive now x b) c = box b c"
  by (auto simp: box_def revive_def auto_register_fields dict_simps split: option.splits)

lemma entry_beat: "c \<noteq> x \<Longrightarrow> entry (beat now x b) c = entry b c"
  by (auto simp: entry_def beat_def dict_simps)

lemma box_beat [simp]: "box (beat now x b) c = box b c"
  by (simp add: box_def)

lemma entry_buckets [simp]: "entry (b\<lparr>rate_buckets := x\<rparr>) c = entry b c" "box (b\<lparr>rate_buckets := x\<rparr>) c = box b c"
  by (simp_all add: entry_def box_def)

text \<open>Polling touches the polling agent only.\<close>

lemma handle_poll_others:
  assumes "c \<noteq> poll_id_of who rq"
  shows "entry (snd (handle_poll a who rq b)) c = entry b c" "box (snd (handle_poll a who rq b)) c = box b c"
  using assms by (simp_all add: handle_poll_alt Let_def entry_beat entry_revive box_poll_check)

lemma handle_register_others:
  assumes "who \<noteq> []" "c \<noteq> who"
  shows "entry (snd (handle_register a who rq b)) c = entry b c" "box (snd (handle_register a who rq b)) c = box b c"
proof -
  have "entry (snd (handle_register a who rq b)) c = entry b c \<and> box (snd (handle_register a who rq b)) c = box b c"
  proof (cases "accepted_args who rq b")
    case None
    then obtain x where "snd (handle_register a who rq b) = b\<lparr>audit_log := x\<rparr>"
      using handle_register_refused_frame by blast
    then show ?thesis by (simp add: entry_def box_def)
  next
    case (Some v)
    with accepted_args_Some[OF Some] assms show ?thesis
      by (simp add: handle_register_accepted entry_apply_register)
  qed
  then show "entry (snd (handle_register a who rq b)) c = entry b c"
    "box (snd (handle_register a who rq b)) c = box b c" by auto
qed

lemma handle_deregister_others:
  assumes "who \<noteq> []" "c \<noteq> who"
  shows "entry (snd (handle_deregister who rq b)) c = entry b c" "box (snd (handle_deregister who rq b)) c = box b c"
  using assms by (auto simp: handle_deregister_def Let_def entry_forget box_forget)

lemma handle_message_entry: "entry (snd (fst (handle_message net sleep a who m b s))) c = entry b c"
  by (auto simp: handle_message_def Let_def split: sum.splits exn.splits prod.splits)

text \<open>The only effect of a send on the mailboxes.\<close>

definition queues_for :: "string \<Rightarrow> message \<Rightarrow> broker \<Rightarrow> string option" where
  "queues_for who m b =
     (if who \<noteq> [] \<and> sender (meta m) \<noteq> JStr who then None
      else (case recipient (meta m) of
        JStr c \<Rightarrow> (case dict_get (registry b) c of
            Some ep \<Rightarrow> if c \<noteq> [] \<and> ep_mailbox ep then Some c else None
          | None \<Rightarrow> None)
      | _ \<Rightarrow> None))"

lemma handle_message_queued:
  assumes "queues_for who m b = Some c"
  shows "handle_message net sleep a who m b s =
    ((Answer 202 BEmpty, audit ''send'' who ''/messages'' 202 (''queued for mailbox '' @ c)
        (record_traffic a m QUEUED 202 (enqueue c (serialize m) b))), s)"
proof -
  from assms obtain ep where c: "recipient (meta m) = JStr c" "c \<noteq> []" "dict_get (registry b) c = Some ep"
    "ep_mailbox ep" and who: "\<not> (who \<noteq> [] \<and> sender (meta m) \<noteq> JStr who)"
    by (auto simp: queues_for_def split: if_split_asm json.split_asm option.split_asm)
  have "reg_lookup_value (recipient (meta m)) (registry b) = Inr ep"
    using c by (simp add: reg_lookup_value_Inr)
  then show ?thesis
    using c(2,4) unfolding handle_message_def Let_def c(1) if_not_P[OF who] by (simp add: py_str_def)
qed

lemma route_send_not_202:
  assumes "route_send net sleep a m b s = (Inr (st, bd), s')" shows "st \<noteq> 202"
  using assms by (auto simp: route_send_def split: prod.splits sum.splits option.splits exn.splits)

lemma handle_message_not_queued:
  assumes "queues_for who m b = None" "handle_message net sleep a who m b s = ((ans, b'), s')"
  shows "mailboxes b' = mailboxes b" "ans \<noteq> Answer 202 BEmpty"
proof -
  consider (imp) "who \<noteq> [] \<and> sender (meta m) \<noteq> JStr who"
    | (rest) "\<not> (who \<noteq> [] \<and> sender (meta m) \<noteq> JStr who)" by blast
  then have "mailboxes b' = mailboxes b \<and> ans \<noteq> Answer 202 BEmpty"
  proof cases
    case imp
    with assms(2) show ?thesis by (auto simp: handle_message_def Let_def write_error_def)
  next
    case rest
    have "\<not> ep_mailbox ep" if "py_truthy (recipient (meta m))" "reg_lookup_value (recipient (meta m)) (registry b) = Inr ep" for ep
      using assms(1) rest that by (auto simp: queues_for_def reg_lookup_value_Inr split: if_splits)
    with assms(2) rest show ?thesis
      by (auto simp: handle_message_def Let_def write_error_def dest!: route_send_not_202
          split: if_splits sum.splits exn.splits prod.splits)
  qed
  then show "mailboxes b' = mailboxes b" "ans \<noteq> Answer 202 BEmpty" by auto
qed

section \<open>Isolation\<close>

lemma box_mailboxes: "mailboxes b' = mailboxes b \<Longrightarrow> box b' c = box b c"
  by (simp add: box_def)

text \<open>A send adds at most the message itself, in its canonical form, to its recipient's mailbox.\<close>

lemma handle_message_box:
  assumes "handle_message net sleep a who m b s = ((ans, b'), s')"
  shows "box b' c = box b c @ (if queues_for who m b = Some c then [serialize m] else [])"
proof (cases "queues_for who m b")
  case None
  then show ?thesis using box_mailboxes[OF handle_message_not_queued(1)[OF None assms]] by simp
next
  case (Some x)
  with assms have "b' = audit ''send'' who ''/messages'' 202 (''queued for mailbox '' @ x)
      (record_traffic a m QUEUED 202 (enqueue x (serialize m) b))"
    by (simp add: handle_message_queued)
  with Some show ?thesis by (simp add: box_enqueue)
qed

lemma queues_for_sender: "queues_for who m b = Some c \<Longrightarrow> who \<noteq> [] \<Longrightarrow> sender (meta m) = JStr who"
  by (auto simp: queues_for_def split: if_splits)

text \<open>A text the broker holds in a mailbox is a message of the given sender.\<close>

definition sent_by :: "string \<Rightarrow> string \<Rightarrow> bool" where
  "sent_by who raw \<longleftrightarrow> (\<exists>m. deserialize raw = Inr m \<and> sender (meta m) = JStr who)"

lemma handle_send_others:
  assumes "who \<noteq> []"
  shows "entry (snd (fst (handle_send net sleep a who rq b s))) c = entry b c"
    "\<exists>new. box (snd (fst (handle_send net sleep a who rq b s))) c = box b c @ new \<and> (\<forall>raw \<in> set new. sent_by who raw)"
proof -
  show "entry (snd (fst (handle_send net sleep a who rq b s))) c = entry b c"
    by (simp add: handle_send_def handle_message_entry split: sum.splits)
  show "\<exists>new. box (snd (fst (handle_send net sleep a who rq b s))) c = box b c @ new \<and> (\<forall>raw \<in> set new. sent_by who raw)"
  proof (cases "\<exists>raw m. read_body rq b = Inr raw \<and> deserialize raw = Inr m")
    case False
    then have "box (snd (fst (handle_send net sleep a who rq b s))) c = box b c"
      by (auto simp: handle_send_def split: sum.splits)
    then show ?thesis by simp
  next
    case True
    then obtain raw m where r: "read_body rq b = Inr raw" "deserialize raw = Inr m" by blast
    then have h: "handle_send net sleep a who rq b s = handle_message net sleep a who m b s"
      by (simp add: handle_send_def)
    obtain ans b' s' where e: "handle_message net sleep a who m b s = ((ans, b'), s')"
      by (metis surj_pair)
    have "sent_by who (serialize m)" if "queues_for who m b = Some c"
      using deserialize_canonical[OF r(2)] queues_for_sender[OF that assms] by (auto simp: sent_by_def)
    then show ?thesis using handle_message_box[OF e, of c] unfolding h e by auto
  qed
qed

lemma admitted_entry:
  assumes "authenticated_and_rate_limited q a rq b = (r, b')"
  shows "entry b' c = entry b c" "box b' c = box b c"
  by (rule admitted_obtain[OF assms], simp)+

lemma admitted_principal:
  assumes "authenticated_and_rate_limited q a rq b = (Inr who, b')"
  shows "authenticate q rq b = Inr who"
  using assms by (auto simp: authenticated_and_rate_limited_def Let_def split: sum.splits prod.splits bool.splits)

text \<open>
  The whole of what an authenticated request can do to another agent: nothing, but for adding
  messages to its mailbox that name the authenticated agent as their sender.
\<close>

definition others_untouched :: "string \<Rightarrow> broker \<Rightarrow> broker \<Rightarrow> string \<Rightarrow> bool" where
  "others_untouched who b b' c \<longleftrightarrow> entry b' c = entry b c \<and>
     (\<exists>new. box b' c = box b c @ new \<and> (\<forall>raw \<in> set new. sent_by who raw))"

lemma others_untouchedI: "entry b' c = entry b c \<Longrightarrow> box b' c = box b c \<Longrightarrow> others_untouched who b b' c"
  by (simp add: others_untouched_def)

lemma others_untouched_admit:
  "authenticated_and_rate_limited q a rq b = (r, b1) \<Longrightarrow> others_untouched who b1 b' c \<Longrightarrow> others_untouched who b b' c"
  by (simp add: others_untouched_def admitted_entry)

lemma handle_poll_untouched:
  "who \<noteq> [] \<Longrightarrow> c \<noteq> who \<Longrightarrow> others_untouched who b (snd (handle_poll a who rq b)) c"
  by (rule others_untouchedI) (simp_all add: handle_poll_others poll_id_of_def)

lemma handle_register_untouched:
  "who \<noteq> [] \<Longrightarrow> c \<noteq> who \<Longrightarrow> others_untouched who b (snd (handle_register a who rq b)) c"
  by (rule others_untouchedI) (simp_all add: handle_register_others)

lemma handle_deregister_untouched:
  "who \<noteq> [] \<Longrightarrow> c \<noteq> who \<Longrightarrow> others_untouched who b (snd (handle_deregister who rq b)) c"
  by (rule others_untouchedI) (simp_all add: handle_deregister_others)

lemma handle_send_untouched:
  "who \<noteq> [] \<Longrightarrow> others_untouched who b (snd (fst (handle_send net sleep a who rq b s))) c"
  by (simp add: others_untouched_def handle_send_others)

lemma others_untouched_refl [simp]: "others_untouched who b b c"
  by (simp add: others_untouched_def)

lemma do_GET_untouched:
  assumes "authenticate (url_path (rq_path rq) \<in> set dashboard_reading_paths) rq b = Inr who"
    and "who \<noteq> []" "c \<noteq> who"
  shows "others_untouched who b (snd (do_GET a rq b)) c"
proof (cases "authenticated_and_rate_limited (url_path (rq_path rq) \<in> set dashboard_reading_paths) a rq b")
  case (Pair r b1)
  have "who' = who" if "r = Inr who'" for who'
    using admitted_principal[of _ a rq b who'] Pair that assms(1) by auto
  then show ?thesis
    using Pair assms(2,3) others_untouched_admit[OF Pair]
    by (auto simp: do_GET_def Let_def handle_poll_untouched split: sum.splits)
qed

lemma do_POST_untouched:
  assumes "authenticate False rq b = Inr who" "who \<noteq> []" "c \<noteq> who"
  shows "others_untouched who b (snd (fst (do_POST net sleep a rq b s))) c"
proof (cases "authenticated_and_rate_limited False a rq b")
  case (Pair r b1)
  have "who' = who" if "r = Inr who'" for who'
    using admitted_principal[of _ a rq b who'] Pair that assms(1) by auto
  then show ?thesis
    using Pair assms(2,3) others_untouched_admit[OF Pair]
    by (auto simp: do_POST_def handle_register_untouched handle_send_untouched split: sum.splits)
qed

lemma do_DELETE_untouched:
  assumes "authenticate False rq b = Inr who" "who \<noteq> []" "c \<noteq> who"
  shows "others_untouched who b (snd (do_DELETE a rq b)) c"
proof (cases "authenticated_and_rate_limited False a rq b")
  case (Pair r b1)
  have "who' = who" if "r = Inr who'" for who'
    using admitted_principal[of _ a rq b who'] Pair that assms(1) by auto
  then show ?thesis
    using Pair assms(2,3) others_untouched_admit[OF Pair]
    by (auto simp: do_DELETE_def handle_deregister_untouched split: sum.splits)
qed

lemma handle_request_untouched:
  assumes "admission meth rq b = Inr who" "who \<noteq> []" "c \<noteq> who"
  shows "others_untouched who b (snd (fst (handle_request net sleep meth a rq b s))) c"
  using assms do_GET_untouched do_POST_untouched do_DELETE_untouched
  by (cases meth) (auto simp: handle_request_def admission_def query_token_allowed_def)

section \<open>Eviction\<close>

fun entry_expired :: "seconds \<Rightarrow> seconds \<Rightarrow>
    endpoint option \<times> (string, json) dict option \<times> seconds option \<times> int option \<Rightarrow> bool" where
  "entry_expired grace now (Some ep, caps, Some last_hb, Some ttl) =
     (0 < ttl \<and> of_int ttl + (if ep_mailbox ep then grace else 0) < now - last_hb)"
| "entry_expired grace now _ = False"

definition expired :: "seconds \<Rightarrow> broker \<Rightarrow> string \<Rightarrow> bool" where
  "expired now b c = entry_expired (mailbox_grace_seconds b) now (entry b c)"

lemma sweep_agent_cases:
  assumes "dict_get (registry b) (ep_agent_id ep) = Some ep"
  shows "sweep_agent now ep b = (if expired now b (ep_agent_id ep) then forget_agent (ep_agent_id ep) b else b)"
  using assms by (auto simp: sweep_agent_def expired_def entry_def split: option.splits)

lemma expired_forget: "expired now (forget_agent x b) c = (c \<noteq> x \<and> expired now b c)"
proof -
  have "mailbox_grace_seconds (forget_agent x b) = mailbox_grace_seconds b"
    using forget_agent_fields(7)[of x b] by (simp add: config_def)
  then show ?thesis by (cases "c = x") (simp_all add: expired_def entry_forget)
qed

text \<open>Of the agents \<open>cs\<close> of \<open>b\<close>, those that have expired are gone, and the others are as they were.\<close>

definition swept :: "seconds \<Rightarrow> string set \<Rightarrow> broker \<Rightarrow> broker \<Rightarrow> bool" where
  "swept now cs b b' \<longleftrightarrow> agents b' = agents b - {c \<in> cs. expired now b c} \<and>
     (\<forall>c. c \<notin> cs \<or> \<not> expired now b c \<longrightarrow> entry b' c = entry b c \<and> box b' c = box b c)"

lemma swept_kept: "\<not> expired now b x \<Longrightarrow> swept now cs b b' \<Longrightarrow> swept now (insert x cs) b b'"
  unfolding swept_def by auto

lemma swept_forgotten:
  assumes "expired now b x" "swept now cs (forget_agent x b) b'"
  shows "swept now (insert x cs) b b'"
proof -
  have "agents b - {x} - {c \<in> cs. c \<noteq> x \<and> expired now b c} = agents b - {c \<in> insert x cs. expired now b c}"
    using assms(1) by auto
  moreover have "entry b' c = entry b c \<and> box b' c = box b c" if "c \<notin> insert x cs \<or> \<not> expired now b c" for c
  proof -
    have "c \<noteq> x" using that assms(1) by auto
    moreover have "c \<notin> cs \<or> \<not> expired now (forget_agent x b) c" using that by (auto simp: expired_forget)
    ultimately show ?thesis using assms(2) unfolding swept_def by (simp add: entry_forget box_forget)
  qed
  ultimately show ?thesis using assms(2) unfolding swept_def expired_forget forget_agent_agents by simp
qed

lemma sweep_fold:
  assumes "distinct (map ep_agent_id eps)"
    and "\<forall>ep \<in> set eps. dict_get (registry b) (ep_agent_id ep) = Some ep"
  shows "swept now (ep_agent_id ` set eps) b (fold (sweep_agent now) eps b)"
  using assms
proof (induction eps arbitrary: b)
  case (Cons ep eps)
  let ?x = "ep_agent_id ep"
  have ep: "dict_get (registry b) ?x = Some ep" using Cons.prems by simp
  show ?case
  proof (cases "expired now b ?x")
    case True
    have "dict_get (registry (forget_agent ?x b)) (ep_agent_id ep') = Some ep'" if "ep' \<in> set eps" for ep'
    proof -
      have "ep_agent_id ep' \<noteq> ?x" using Cons.prems(1) that by (metis distinct.simps(2) image_eqI list.set_map list.simps(9))
      with Cons.prems(2) that show ?thesis by (simp add: forget_agent_fields reg_gets)
    qed
    then have "swept now (ep_agent_id ` set eps) (forget_agent ?x b) (fold (sweep_agent now) eps (forget_agent ?x b))"
      using Cons.prems(1) by (intro Cons.IH) simp_all
    with True show ?thesis by (simp add: sweep_agent_cases[OF ep] swept_forgotten)
  next
    case False
    then show ?thesis using Cons by (simp add: sweep_agent_cases[OF ep] swept_kept)
  qed
qed (simp add: swept_def)

lemma coherent_ids:
  assumes "coherent b"
  shows "distinct (map ep_agent_id (list_agents (registry b)))"
    "\<forall>ep \<in> set (list_agents (registry b)). dict_get (registry b) (ep_agent_id ep) = Some ep"
    "ep_agent_id ` set (list_agents (registry b)) = agents b"
proof -
  have wf: "wf_dict (registry b)" using assms by (simp add: coherent_def wf_state_def)
  have id: "ep_agent_id ep = a" if "(a, ep) \<in> set (registry b)" for a ep
    using that assms wf by (auto simp: coherent_def own_keys_def wf_get_iff)
  then have m: "map ep_agent_id (list_agents (registry b)) = map fst (registry b)"
    by (auto simp: list_agents_def)
  show "distinct (map ep_agent_id (list_agents (registry b)))"
    using wf m by (simp add: wf_dict_def)
  show "\<forall>ep \<in> set (list_agents (registry b)). dict_get (registry b) (ep_agent_id ep) = Some ep"
    using id wf by (auto simp: list_agents_def wf_get_iff)
  show "ep_agent_id ` set (list_agents (registry b)) = agents b"
    using m by (simp add: agents_def keys_fst flip: set_map)
qed

lemma sweep_once_exact:
  assumes "coherent b"
  shows "agents (sweep_once now b) = {c \<in> agents b. \<not> expired now b c}"
    "\<not> expired now b c \<Longrightarrow> entry (sweep_once now b) c = entry b c \<and> box (sweep_once now b) c = box b c"
  using sweep_fold[OF coherent_ids(1,2)[OF assms], of now] coherent_ids(3)[OF assms]
  by (auto simp: sweep_once_def swept_def Let_def)

text \<open>What \<open>GET /agents\<close> lists as active, the sweep of the same instant keeps.\<close>

lemma active_not_expired:
  assumes "coherent b" "c \<in> agents b" "0 \<le> mailbox_grace_seconds b"
    and "ae_status (build_agent_entry (registry b) c caps (last_heartbeat b) (ttl_seconds b) now) = ACTIVE"
  shows "\<not> expired now b c"
proof (cases "dict_get (registry b) c")
  case (Some ep)
  with assms(3,4) show ?thesis
    by (auto simp: expired_def entry_def build_agent_entry_def Let_def split: option.splits if_splits)
qed (simp add: expired_def entry_def)

end
