(* ===== verification/Broker_Behaviour.thy ===== *)
theory Broker_Behaviour
  imports Broker_Props
begin

text \<open>
  What the broker's operations achieve: registrations and their status codes, the outcome of a
  send and its record, delivery through a mailbox, recovery of a pull agent the broker has
  forgotten, the limit on bodies, and the answers of the monitoring endpoints.
\<close>

section \<open>Registration\<close>

lemma register_entry:
  "entry (apply_register now v b) (v_agent_id v) =
     (Some (endpoint_of v), Some (v_caps v), Some now,
      (case v_ttl v of Some ttl \<Rightarrow> Some ttl
       | None \<Rightarrow> if v_is_new v then Some (default_ttl_seconds b) else dict_get (ttl_seconds b) (v_agent_id v)))"
  by (auto simp: entry_def apply_register_fields reg_gets dict_simps endpoint_of_def split: option.splits)

lemma apply_register_agents: "agents (apply_register now v b) = insert (v_agent_id v) (agents b)"
  by (simp add: agents_def apply_register_fields reg_keys endpoint_of_def)

lemma handle_register_entry:
  assumes "accepted_args auth rq b = Some v"
  shows "entry (snd (handle_register a auth rq b)) (v_agent_id v) =
     (Some (endpoint_of v), Some (v_caps v), Some (mono a),
      (case v_ttl v of Some ttl \<Rightarrow> Some ttl
       | None \<Rightarrow> if v_agent_id v \<in> agents b then dict_get (ttl_seconds b) (v_agent_id v)
                else Some (default_ttl_seconds b)))"
  using accepted_args_Some(4)[OF assms]
  by (simp add: handle_register_accepted[OF assms] register_entry split: option.splits)

text \<open>The status of a registration says whether the agent was known.\<close>

lemma handle_register_status:
  assumes "handle_register a auth rq b = (Answer st bd, b')" "st < 400"
  shows "\<exists>v. accepted_args auth rq b = Some v \<and> st = (if v_agent_id v \<in> agents b then 200 else 201)"
proof (cases "accepted_args auth rq b")
  case None
  with assms show ?thesis using handle_register_refused(1)[OF None assms(1)] by simp
next
  case (Some v)
  with assms accepted_args_Some(4)[OF Some] show ?thesis by (auto simp: handle_register_accepted)
qed

text \<open>What a registered push endpoint looks like: a dialable address.\<close>

lemma check_endpoint_Inr:
  "check_endpoint h p a = Inr (hst, prt) \<Longrightarrow>
     h = JStr hst \<and> hst \<noteq> [] \<and> length hst \<le> 253 \<and> 1 \<le> prt \<and> prt \<le> 65535"
  by (auto simp: check_endpoint_def split: option.split_asm if_split_asm)

lemma mailbox_endpoint_props:
  "mailbox_endpoint h p = (hst, prt) \<Longrightarrow> hst \<noteq> [] \<and> 0 \<le> prt \<and> prt \<le> 65535"
  by (auto simp: mailbox_endpoint_def split: option.splits if_splits)

lemma check_scheme_Inr: "check_scheme d a = Inr sch \<Longrightarrow> sch = ''http'' \<or> sch = ''https''"
  by (auto simp: check_scheme_def split: option.split_asm if_split_asm)

lemma check_path_Inr: "check_path d a = Inr pth \<Longrightarrow> starts_with ''/'' pth"
  by (auto simp: check_path_def starts_with_def split: option.split_asm if_split_asm)

lemma check_ttl_Inr: "check_ttl d a = Inr (Some ttl) \<Longrightarrow> 0 \<le> ttl"
  by (auto simp: check_ttl_def split: option.split_asm if_split_asm)

definition good_endpoint :: "register_args \<Rightarrow> bool" where
  "good_endpoint v \<longleftrightarrow>
     v_host v \<noteq> [] \<and> 0 \<le> v_port v \<and> v_port v \<le> 65535 \<and> (\<not> v_mailbox v \<longrightarrow> 1 \<le> v_port v \<and> length (v_host v) \<le> 253) \<and>
     (v_scheme v = ''http'' \<or> v_scheme v = ''https'') \<and> starts_with ''/'' (v_path v) \<and>
     (\<forall>ttl. v_ttl v = Some ttl \<longrightarrow> 0 \<le> ttl)"

lemma validate_register_endpoint:
  assumes "validate_register_payload data auth b = Inr v"
  shows "good_endpoint v"
proof -
  from assms obtain aid hp sch pth caps ttl mb where
    hp: "(if mb then Inr (mailbox_endpoint (get_default data ''host'' JNull) (get_default data ''port'' JNull))
      else check_endpoint (get_default data ''host'' JNull) (get_default data ''port'' JNull) aid) = Inr hp"
    and checks: "check_scheme data aid = Inr sch" "check_path data aid = Inr pth" "check_ttl data aid = Inr ttl"
    and v: "v_host v = fst hp" "v_port v = snd hp" "v_scheme v = sch" "v_path v = pth" "v_ttl v = ttl" "v_mailbox v = mb"
    by (rule validate_register_elim) simp
  obtain h p where "hp = (h, p)" by (cases hp)
  with hp have "h \<noteq> [] \<and> 0 \<le> p \<and> p \<le> 65535 \<and> (\<not> mb \<longrightarrow> 1 \<le> p \<and> length h \<le> 253)"
    by (auto split: if_split_asm dest!: check_endpoint_Inr mailbox_endpoint_props)
  then show ?thesis
    using v \<open>hp = (h, p)\<close> check_scheme_Inr[OF checks(1)] check_path_Inr[OF checks(2)] checks(3)
    by (auto simp: good_endpoint_def dest: check_ttl_Inr)
qed

section \<open>Body limit\<close>

lemma read_body_too_large:
  assumes "content_length rq = Some n" "max_body_size b < n"
  shows "\<exists>bd. read_body rq b = Inl (Answer 413 bd)"
  using assms by (simp add: read_body_def)

lemma read_body_bounded:
  assumes "read_body rq b = Inr raw" "content_length rq = Some n" "0 \<le> n"
  shows "\<exists>bytes. utf8_decode bytes = Some raw \<and> int (length bytes) \<le> max_body_size b"
  using assms by (auto simp: read_body_def rfile_read_def split: if_splits option.splits
      intro!: exI[of _ "take (nat n) (rq_stream rq)"])

lemma handlers_too_large:
  assumes "content_length rq = Some n" "max_body_size b < n"
  shows "\<exists>bd. handle_register a who rq b = (Answer 413 bd, b)"
    "\<exists>bd. handle_send net sleep a who rq b s = ((Answer 413 bd, b), s)"
  using read_body_too_large[OF assms] by (auto simp: handle_register_def handle_send_def)

section \<open>Sending\<close>

text \<open>The disposition of a message and the status that goes with it.\<close>

definition last_traffic :: "broker \<Rightarrow> traffic_record option" where
  "last_traffic b = (if traffic_buffer b = [] then None else Some (last (traffic_buffer b)))"

lemma deque_append_last: "0 < n \<Longrightarrow> deque_append n xs x \<noteq> [] \<and> last (deque_append n xs x) = x"
  by (simp add: deque_append_def last_n_def last_drop)

lemma last_traffic_record:
  assumes "0 < traffic_maxlen b"
  shows "\<exists>r. last_traffic (record_traffic a m d st b) = Some r \<and> tr_status r = st \<and> tr_disposition r = d \<and>
    tr_message_id r = message_id m \<and> tr_source r = sender (meta m) \<and> tr_destination r = recipient (meta m)"
  using assms by (simp add: last_traffic_def record_traffic_def deque_append_last)

lemma last_traffic_audit [simp]: "last_traffic (audit x1 x2 x3 x4 x5 b) = last_traffic b"
  by (simp add: last_traffic_def)

lemma traffic_maxlen_enqueue [simp]: "traffic_maxlen (enqueue x raw b) = traffic_maxlen b"
  by (simp add: enqueue_def Let_def)

fun disposition_fits :: "traffic_disposition \<Rightarrow> int \<Rightarrow> bool" where
  "disposition_fits QUEUED st = (st = 202)"
| "disposition_fits REJECTED st = (st = 403 \<or> st = 400)"
| "disposition_fits UNKNOWN_RECIPIENT st = (st = 404)"
| "disposition_fits ROUTED st = (st = 200 \<or> st = 204 \<or> st = 404 \<or> st = 502)"

lemma route_send_status:
  assumes "route_send net sleep a m b s = (Inr (st, bd), s')"
  shows "st = 200 \<or> st = 204 \<or> st = 404 \<or> st = 502"
  using assms by (auto simp: route_send_def split: prod.splits sum.splits option.splits exn.splits)

text \<open>
  A routed message is answered 404 only when the registry does not know the recipient, which
  the handler has excluded before routing.
\<close>

lemma route_send_known:
  assumes "recipient (meta m) = JStr c" "c \<noteq> []" "dict_get (registry b) c = Some ep"
    and "route_send net sleep a m b s = (Inr (st, bd), s')"
  shows "st = 200 \<or> st = 204 \<or> st = 502"
proof -
  have r: "route net sleep (broker_router b) (registry b) m None s =
    retry_call (client_send net m ep (rt_timeout (broker_router b))) (rt_policy (broker_router b)) sleep s"
    using assms(1-3) by (simp add: route_known reg_abs_get)
  show ?thesis
    using assms(4) unfolding route_send_def r
    by (auto simp: delivery_failed_def split: prod.splits sum.splits option.splits exn.splits
        dest: retry_call_error)
qed

lemma handle_message_record:
  assumes "handle_message net sleep a who m b s = ((Answer st bd, b'), s')" "0 < traffic_maxlen b"
  shows "\<exists>r. last_traffic b' = Some r \<and> tr_message_id r = message_id m \<and> tr_status r = st \<and>
    tr_source r = sender (meta m) \<and> tr_destination r = recipient (meta m) \<and>
    disposition_fits (tr_disposition r) st"
proof -
  have rec: "\<exists>r. last_traffic (audit x1 x2 x3 x4 x5 (record_traffic a m d st b0)) = Some r \<and>
      tr_message_id r = message_id m \<and> tr_status r = st \<and> tr_source r = sender (meta m) \<and>
      tr_destination r = recipient (meta m) \<and> disposition_fits (tr_disposition r) st"
    if "disposition_fits d st" "traffic_maxlen b0 = traffic_maxlen b" for x1 x2 x3 x4 x5 d st b0
    using last_traffic_record[of b0 a m d st] that assms(2) by auto
  show ?thesis
    using assms(1) rec[of REJECTED] rec[of UNKNOWN_RECIPIENT] rec[of QUEUED] rec[of ROUTED]
    by (auto simp: handle_message_def Let_def write_error_def dest: route_send_status
        split: if_split_asm sum.split_asm exn.split_asm prod.split_asm)
qed

section \<open>Mailboxes\<close>

lemma dict_has_box: "dict_has (mailboxes b) c \<or> box b c = []"
  by (cases "dict_get (mailboxes b) c") (simp_all add: dict_has_def box_def)

text \<open>The first look of a poll: everything queued, in order, or a wait.\<close>

lemma handle_poll_answer:
  assumes "poll_id_of who rq = c" "c \<noteq> []" "handle_poll a who rq b = (ans, b')"
  shows "if box b c \<noteq> [] \<or> poll_wait (parse_qs (url_query (rq_path rq))) \<le> 0
    then ans = Answer 200 (messages_payload (box b c)) \<and> box b' c = []
    else ans = Waiting c (mono a + poll_wait (parse_qs (url_query (rq_path rq)))) \<and> box b' c = box b c"
proof -
  let ?w = "poll_wait (parse_qs (url_query (rq_path rq)))"
  let ?b = "beat (mono a) c (revive (mono a) c b)"
  have h: "poll_check (mono a) c (mono a + ?w) ?b = (ans, b')"
    using assms by (simp add: handle_poll_alt Let_def)
  have "dict_has (mailboxes ?b) c"
    by (simp add: revive_def auto_register_fields dict_simps)
  then obtain q where q: "dict_get (mailboxes ?b) c = Some q" by (auto simp: dict_has_def)
  have "box ?b c = box b c" by simp
  with q have "q = box b c" by (simp add: box_def)
  with h q show ?thesis
    by (auto simp: poll_check_def box_def dict_simps split: if_splits)
qed

text \<open>A poll registers its caller, with a mailbox and a heartbeat of the same instant.\<close>

lemma handle_poll_registers:
  assumes "coherent b" "poll_id_of who rq = c" "c \<noteq> []" "dict_get (mailboxes b) c = None"
  shows "\<exists>caps ttl. entry (snd (handle_poll a who rq b)) c = (Some (mailbox_ep c), Some caps, Some (mono a), Some ttl)"
proof -
  let ?b = "beat (mono a) c (revive (mono a) c b)"
  have r: "revive (mono a) c b = auto_register_mailbox (mono a) c b"
    using assms(4) by (simp add: revive_def dict_has_def)
  have "\<exists>caps ttl. entry ?b c = (Some (mailbox_ep c), Some caps, Some (mono a), Some ttl)"
    by (simp add: entry_def r beat_def auto_register_fields reg_gets dict_simps mailbox_ep_def split: option.splits)
  then show ?thesis using assms(2,3) by (simp add: handle_poll_alt Let_def)
qed

lemma poll_wait_bounds: "0 \<le> poll_wait q" "poll_wait q \<le> MAX_POLL_WAIT_SECONDS"
proof -
  have "0 \<le> poll_wait q \<and> poll_wait q \<le> MAX_POLL_WAIT_SECONDS"
  proof (cases "py_float (query_first q ''wait'' ''25'')")
    case None
    then show ?thesis by (simp add: poll_wait_def MAX_POLL_WAIT_SECONDS_def)
  next
    case (Some w)
    then show ?thesis
      by (cases w) (auto simp: poll_wait_def MAX_POLL_WAIT_SECONDS_def pf_max_def pf_min_def)
  qed
  then show "0 \<le> poll_wait q" "poll_wait q \<le> MAX_POLL_WAIT_SECONDS" by auto
qed

section \<open>Monitoring\<close>

definition traffic_matches :: "(string, string list) dict \<Rightarrow> traffic_record \<Rightarrow> bool" where
  "traffic_matches query r \<longleftrightarrow>
     (let ag = query_first query ''agent'' []; tp = query_first query ''topic'' [] in
      (ag = [] \<or> tr_source r = JStr ag \<or> tr_destination r = JStr ag) \<and>
      (tp = [] \<or> tr_topic r = JStr tp) \<and>
      (case py_float (query_first query ''since'' []) of None \<Rightarrow> True | Some t \<Rightarrow> pf_le t (Fin (tr_timestamp r))) \<and>
      (case py_float (query_first query ''until'' []) of None \<Rightarrow> True | Some t \<Rightarrow> pf_le (Fin (tr_timestamp r)) t))"

lemma if_filter: "(if c then xs else filter P xs) = filter (\<lambda>x. c \<or> P x) xs"
  by simp

lemma case_filter:
  "(case m of None \<Rightarrow> xs | Some t \<Rightarrow> filter (P t) xs) = filter (\<lambda>x. case m of None \<Rightarrow> True | Some t \<Rightarrow> P t x) xs"
  by (cases m) simp_all

lemma handle_traffic_filter:
  "handle_traffic rq b =
     (let query = parse_qs (url_query (rq_path rq));
          found = filter (traffic_matches query) (traffic_buffer b)
      in Answer 200 (BTraffic (case traffic_limit query (traffic_maxlen b) of None \<Rightarrow> found | Some n \<Rightarrow> last_n n found)))"
proof -
  have m: "traffic_matches q = (\<lambda>r. (((query_first q ''agent'' [] = [] \<or>
        tr_source r = JStr (query_first q ''agent'' []) \<or> tr_destination r = JStr (query_first q ''agent'' [])) \<and>
      (query_first q ''topic'' [] = [] \<or> tr_topic r = JStr (query_first q ''topic'' []))) \<and>
      (case py_float (query_first q ''since'' []) of None \<Rightarrow> True | Some t \<Rightarrow> pf_le t (Fin (tr_timestamp r)))) \<and>
      (case py_float (query_first q ''until'' []) of None \<Rightarrow> True | Some t \<Rightarrow> pf_le (Fin (tr_timestamp r)) t))" for q
    by (rule ext) (simp add: traffic_matches_def Let_def conj_assoc)
  show ?thesis
    unfolding handle_traffic_def Let_def if_filter case_filter filter_filter m
    by (simp only: conj_commute conj_left_commute conj_assoc)
qed

end
