(* ===== verification/Broker_System.thy ===== *)
theory Broker_System
  imports Broker_Behaviour "HOL-Library.Sublist"
begin

text \<open>
  The running broker: a step relation whose steps are one request, one wake-up of a long poll
  and one sweep, in any order, and the properties of every reachable state. Each handler is one
  step; only a long poll spans several, since it releases its lock while it waits.

  The world keeps, beside the broker and the network, what its clients can observe: the
  messages it accepted for a mailbox (answered 202), the messages it handed to a poll, and the
  agents that were removed.
\<close>

section \<open>The world\<close>

record 's world =
  w_broker :: broker
  w_net :: 's
  w_waiting :: "(string \<times> seconds) list"
  w_accepted :: "(string \<times> string) list"
  w_delivered :: "(string \<times> string) list"
  w_removed :: "string set"

text \<open>What an answer to a poll of \<open>c\<close> delivers.\<close>

definition delivered :: "string \<Rightarrow> answer \<Rightarrow> (string \<times> string) list" where
  "delivered c ans = (case ans of
     Answer st (BJson (JDict [(k, JList vs)])) \<Rightarrow>
       if k = ''messages'' then map (\<lambda>v. (c, py_str v)) vs else []
   | _ \<Rightarrow> [])"

definition newly_waiting :: "answer \<Rightarrow> (string \<times> seconds) list" where
  "newly_waiting ans = (case ans of Waiting c d \<Rightarrow> [(c, d)] | _ \<Rightarrow> [])"

text \<open>What a request answered 202 puts on the accepted list: its recipient and the message.\<close>

definition accepted :: "http_request \<Rightarrow> broker \<Rightarrow> answer \<Rightarrow> (string \<times> string) list" where
  "accepted rq b ans = (if ans \<noteq> Answer 202 BEmpty then [] else
     (case read_body rq b of
        Inl _ \<Rightarrow> []
      | Inr raw \<Rightarrow> (case deserialize raw of
          Inl _ \<Rightarrow> []
        | Inr m \<Rightarrow> [(py_str (recipient (meta m)), serialize m)])))"

text \<open>The agent a request polls for, given its principal.\<close>

definition polled_by :: "http_method \<Rightarrow> http_request \<Rightarrow> broker \<Rightarrow> string option" where
  "polled_by meth rq b =
     (if meth = GET \<and> url_path (rq_path rq) = DEFAULT_MESSAGE_PATH
      then (case admission meth rq b of Inr who \<Rightarrow> Some (poll_id_of who rq) | Inl _ \<Rightarrow> None)
      else None)"

inductive step :: "'s exchange \<Rightarrow> (seconds \<Rightarrow> 's \<Rightarrow> 's) \<Rightarrow> 's world \<Rightarrow> 's world \<Rightarrow> bool"
  for net :: "'s exchange" and sleep :: "seconds \<Rightarrow> 's \<Rightarrow> 's" where
  request:
    "handle_request net sleep meth a rq (w_broker w) (w_net w) = ((ans, b'), s') \<Longrightarrow>
     w' = w\<lparr>w_broker := b', w_net := s',
            w_waiting := w_waiting w @ newly_waiting ans,
            w_accepted := w_accepted w @ (if meth = POST then accepted rq (w_broker w) ans else []),
            w_delivered := w_delivered w @
              (case polled_by meth rq (w_broker w) of Some c \<Rightarrow> delivered c ans | None \<Rightarrow> []),
            w_removed := w_removed w \<union> (agents (w_broker w) - agents b')\<rparr> \<Longrightarrow>
     step net sleep w w'"
| wake:
    "(c, d) \<in> set (w_waiting w) \<Longrightarrow>
     poll_check now c d (w_broker w) = (ans, b') \<Longrightarrow>
     w' = w\<lparr>w_broker := b',
            w_waiting := remove1 (c, d) (w_waiting w) @ newly_waiting ans,
            w_delivered := w_delivered w @ delivered c ans\<rparr> \<Longrightarrow>
     step net sleep w w'"
| sweep:
    "w' = w\<lparr>w_broker := sweep_once now (w_broker w),
            w_removed := w_removed w \<union> (agents (w_broker w) - agents (sweep_once now (w_broker w)))\<rparr> \<Longrightarrow>
     step net sleep w w'"

inductive_cases step_cases: "step net sleep w w'"

definition start :: "broker \<Rightarrow> 's \<Rightarrow> 's world" where
  "start b s = \<lparr>w_broker = b, w_net = s, w_waiting = [], w_accepted = [], w_delivered = [], w_removed = {}\<rparr>"

inductive reachable :: "'s exchange \<Rightarrow> (seconds \<Rightarrow> 's \<Rightarrow> 's) \<Rightarrow> broker_args \<Rightarrow> 's \<Rightarrow> 's world \<Rightarrow> bool"
  for net :: "'s exchange" and sleep :: "seconds \<Rightarrow> 's \<Rightarrow> 's" and args :: broker_args and s0 :: 's where
  initial: "broker_init args = Inr b \<Longrightarrow> reachable net sleep args s0 (start b s0)"
| later: "reachable net sleep args s0 w \<Longrightarrow> step net sleep w w' \<Longrightarrow> reachable net sleep args s0 w'"

section \<open>Delivery, one step at a time\<close>

text \<open>
  The step of one agent's mailbox: what is delivered leaves at the front, what is accepted
  joins at the end, unless the agent is removed and the mailbox with it.
\<close>

definition of_agent :: "string \<Rightarrow> (string \<times> string) list \<Rightarrow> string list" where
  "of_agent c xs = map snd (filter (\<lambda>p. fst p = c) xs)"

lemma of_agent_simps [simp]:
  "of_agent c [] = []" "of_agent c (xs @ ys) = of_agent c xs @ of_agent c ys"
  "of_agent c ((d, x) # xs) = (if d = c then x # of_agent c xs else of_agent c xs)"
  by (simp_all add: of_agent_def)

lemma delivered_messages [simp]: "delivered c (Answer 200 (messages_payload ms)) = map (\<lambda>m. (c, m)) ms"
  by (simp add: delivered_def messages_payload_def py_str_def o_def)

lemma of_agent_map: "of_agent c (map (\<lambda>m. (d, m)) ms) = (if c = d then ms else [])"
  by (induction ms) auto

lemma delivered_other [simp]: "delivered c (Waiting x d) = []" "delivered c (Died e) = []"
  "delivered c (write_error st msg) = []" "delivered c (Answer st BEmpty) = []"
  "delivered c rate_limited = []"
  by (simp_all add: delivered_def write_error_def error_payload_def rate_limited_def)

lemma agents_frame [simp]: "agents (audit x1 x2 x3 x4 x5 b) = agents b" "agents (b\<lparr>rate_buckets := y\<rparr>) = agents b"
  by (simp_all add: agents_def)

lemma poll_check_delivery:
  assumes "poll_check now c d b = (ans, b')"
  shows "of_agent x (delivered c ans) @ box b' x = box b x"
  using assms
  by (auto simp: poll_check_def box_def dict_simps of_agent_map split: option.splits if_splits)

lemma handle_poll_delivery:
  assumes "handle_poll a who rq b = (ans, b')"
  shows "of_agent x (delivered (poll_id_of who rq) ans) @ box b' x = box b x"
proof (cases "poll_id_of who rq = []")
  case True
  with assms show ?thesis by (auto simp: handle_poll_alt Let_def)
next
  case False
  with assms have "poll_check (mono a) (poll_id_of who rq) (mono a + poll_wait (parse_qs (url_query (rq_path rq))))
    (beat (mono a) (poll_id_of who rq) (revive (mono a) (poll_id_of who rq) b)) = (ans, b')"
    by (simp add: handle_poll_alt Let_def)
  from poll_check_delivery[OF this, of x] show ?thesis by simp
qed

lemma handle_register_box: "box (snd (handle_register a who rq b)) x = box b x"
proof (cases "accepted_args who rq b")
  case None
  then obtain y where "snd (handle_register a who rq b) = b\<lparr>audit_log := y\<rparr>"
    using handle_register_refused_frame by blast
  then show ?thesis by (simp add: box_def)
qed (simp add: handle_register_accepted)

lemma handle_register_not_202: "fst (handle_register a who rq b) \<noteq> Answer 202 BEmpty"
proof (cases "accepted_args who rq b")
  case None
  obtain ans b' where "handle_register a who rq b = (ans, b')" by (cases "handle_register a who rq b")
  with handle_register_refused(1)[OF None this] show ?thesis by auto
qed (simp add: handle_register_accepted)

lemma read_body_Inl_202: "read_body rq b = Inl ans \<Longrightarrow> ans \<noteq> Answer 202 BEmpty"
  by (drule read_body_Inl) auto

text \<open>A send is answered 202 exactly when the message joined a mailbox.\<close>

lemma handle_send_delivery:
  assumes "handle_send net sleep a who rq b s = ((ans, b'), s')"
  shows "box b' x = box b x @ of_agent x (accepted rq b ans)"
proof (cases "\<exists>raw m. read_body rq b = Inr raw \<and> deserialize raw = Inr m")
  case False
  then have "box b' x = box b x" "ans \<noteq> Answer 202 BEmpty"
    using assms by (auto simp: handle_send_def write_error_def dest: read_body_Inl_202 split: sum.splits if_splits)
  then show ?thesis by (simp add: accepted_def)
next
  case True
  then obtain raw m where r: "read_body rq b = Inr raw" "deserialize raw = Inr m" by blast
  then have h: "handle_message net sleep a who m b s = ((ans, b'), s')"
    using assms by (simp add: handle_send_def)
  show ?thesis
  proof (cases "queues_for who m b")
    case None
    with handle_message_not_queued(2)[OF None h] show ?thesis
      by (simp add: handle_message_box[OF h] accepted_def)
  next
    case (Some c)
    then have "recipient (meta m) = JStr c" by (auto simp: queues_for_def split: if_splits json.splits option.splits)
    then show ?thesis
      using Some h handle_message_box[OF h, of x] r
      by (auto simp: handle_message_queued accepted_def py_str_def)
  qed
qed

lemma accepted_buckets [simp]: "accepted rq (b\<lparr>rate_buckets := y\<rparr>) ans = accepted rq b ans"
proof -
  have "read_body rq (b\<lparr>rate_buckets := y\<rparr>) = read_body rq b"
    by (simp add: read_body_def split: option.split)
  then show ?thesis by (simp add: accepted_def)
qed

lemma accepted_not_202: "ans \<noteq> Answer 202 BEmpty \<Longrightarrow> accepted rq b ans = []"
  by (simp add: accepted_def)

lemma admitted_Inl_answer:
  assumes "authenticated_and_rate_limited q a rq b = (Inl ans, b')"
  shows "\<not> is_success ans" "delivered c ans = []"
  using assms
  by (auto simp: authenticated_and_rate_limited_def Let_def
      dest!: authenticate_Inl split: sum.splits prod.splits bool.splits) (simp add: rate_limited_def)

lemma not_success_202: "\<not> is_success ans \<Longrightarrow> ans \<noteq> Answer 202 BEmpty"
  by auto

lemma do_POST_delivery:
  assumes "do_POST net sleep a rq b s = ((ans, b'), s')"
  shows "box b' x = box b x @ of_agent x (accepted rq b ans)"
proof (cases "authenticated_and_rate_limited False a rq b")
  case (Pair r b1)
  obtain y where b1: "b1 = b\<lparr>rate_buckets := y\<rparr>" using admitted_obtain[OF Pair] .
  show ?thesis
  proof (cases r)
    case (Inl e)
    with Pair assms have "ans = e" "b' = b1" by (auto simp: do_POST_def)
    with Inl Pair show ?thesis
      using admitted_Inl_answer(1)[of False a rq b e b1] b1 by (simp add: accepted_not_202[OF not_success_202])
  next
    case (Inr who)
    consider (reg) "rq_path rq = ''/agents''" | (send) "rq_path rq = DEFAULT_MESSAGE_PATH"
      | (none) "rq_path rq \<noteq> ''/agents''" "rq_path rq \<noteq> DEFAULT_MESSAGE_PATH" by blast
    then show ?thesis
    proof cases
      case reg
      with Inr Pair assms have h: "handle_register a who rq b1 = (ans, b')" by (simp add: do_POST_def)
      then show ?thesis
        using handle_register_box[of a who rq b1 x] handle_register_not_202[of a who rq b1] b1
        by (simp add: accepted_not_202)
    next
      case send
      with Inr Pair assms have "handle_send net sleep a who rq b1 s = ((ans, b'), s')"
        by (simp add: do_POST_def DEFAULT_MESSAGE_PATH_def)
      from handle_send_delivery[OF this, of x] show ?thesis using b1 by simp
    next
      case none
      with Inr Pair assms b1 show ?thesis by (auto simp: do_POST_def write_error_def accepted_def)
    qed
  qed
qed

lemma do_GET_delivery:
  assumes "do_GET a rq b = (ans, b')"
  shows "of_agent x (case polled_by GET rq b of Some c \<Rightarrow> delivered c ans | None \<Rightarrow> []) @ box b' x = box b x"
proof (cases "authenticated_and_rate_limited (url_path (rq_path rq) \<in> set dashboard_reading_paths) a rq b")
  case (Pair r b1)
  note b1 = admitted_entry[OF Pair]
  show ?thesis
  proof (cases r)
    case (Inl e)
    have "delivered c e = []" for c using admitted_Inl_answer(2) Pair Inl by blast
    then have "\<And>c. delivered c ans = []" "box b' x = box b x"
      using Pair Inl assms b1 by (auto simp: do_GET_def Let_def delivered_def split: if_splits)
    then show ?thesis by (simp split: option.split)
  next
    case (Inr who)
    then have who: "admission GET rq b = Inr who"
      using admitted_principal Pair by (simp add: admission_def query_token_allowed_def)
    show ?thesis
    proof (cases "url_path (rq_path rq) = DEFAULT_MESSAGE_PATH")
      case True
      then have "rq_path rq \<noteq> HEALTH_PATH"
        by (auto simp: DEFAULT_MESSAGE_PATH_def HEALTH_PATH_def url_path_def)
      with True Pair Inr assms have "handle_poll a who rq b1 = (ans, b')"
        by (simp add: do_GET_def Let_def DEFAULT_MESSAGE_PATH_def)
      from handle_poll_delivery[OF this, of x] show ?thesis
        using True who b1 by (simp add: polled_by_def)
    next
      case False
      then have "polled_by GET rq b = None" "box b' x = box b x"
        using assms Pair Inr b1 by (auto simp: polled_by_def do_GET_def Let_def split: if_splits)
      then show ?thesis by simp
    qed
  qed
qed

lemma handle_deregister_box:
  assumes "coherent b" "handle_deregister who rq b = (ans, b')"
  shows "box b' x = box b x \<or> box b' x = [] \<and> x \<in> agents b - agents b'"
proof -
  have "box b x = []" if "x \<notin> agents b"
    using that assms(1) by (auto simp: box_def coherent_def same_agents_def agents_def
        dest: get_Some_keys split: option.splits)
  then show ?thesis
    using assms(2) by (cases "x \<in> agents b")
      (auto simp: handle_deregister_def Let_def box_forget forget_agent_agents split: if_splits)
qed

lemma do_DELETE_delivery:
  assumes "coherent b" "do_DELETE a rq b = (ans, b')"
  shows "box b' x = box b x \<or> box b' x = [] \<and> x \<in> agents b - agents b'"
proof (cases "authenticated_and_rate_limited False a rq b")
  case (Pair r b1)
  have b1: "coherent b1" "box b1 x = box b x" "agents b1 = agents b"
    using assms(1) admitted_coherent[OF Pair] admitted_entry[OF Pair] admitted_obtain[OF Pair]
    by (simp, simp, metis agents_frame(2))
  then show ?thesis
    using assms(2) Pair handle_deregister_box[of b1 _ rq ans b' x]
    by (auto simp: do_DELETE_def split: sum.splits if_splits)
qed

lemma sweep_once_box:
  assumes "coherent b"
  shows "box (sweep_once now b) x = box b x \<or> box (sweep_once now b) x = [] \<and> x \<in> agents b - agents (sweep_once now b)"
proof (cases "expired now b x")
  case False
  then show ?thesis using sweep_once_exact(2)[OF assms] by blast
next
  case True
  then have "x \<in> agents b" by (auto simp: expired_def entry_def agents_def elim!: entry_expired.elims dest: get_Some_keys)
  moreover have "x \<notin> agents (sweep_once now b)" using True sweep_once_exact(1)[OF assms] by simp
  moreover from this have "box (sweep_once now b) x = []"
    using sweep_once_coherent[OF assms, of now]
    by (auto simp: box_def coherent_def same_agents_def agents_def dest: get_Some_keys split: option.splits)
  ultimately show ?thesis by blast
qed

section \<open>Every reachable state\<close>

lemma step_coherent:
  assumes "step net sleep w w'" "coherent (w_broker w)"
  shows "coherent (w_broker w')"
  using assms(1)
proof cases
  case (request meth a rq ans b' s')
  have "coherent (snd (fst (handle_request net sleep meth a rq (w_broker w) (w_net w))))"
    using assms(2) by (rule handle_request_coherent)
  with request show ?thesis by simp
next
  case (wake c d now ans b')
  then show ?thesis using poll_check_coherent[OF assms(2), of now c d] by simp
next
  case (sweep now)
  then show ?thesis using sweep_once_coherent[OF assms(2)] by simp
qed

lemma step_config:
  assumes "step net sleep w w'"
  shows "config (w_broker w') = config (w_broker w)"
  using assms
proof cases
  case (request meth a rq ans b' s')
  then show ?thesis
    using handle_request_config[of net sleep meth a rq "w_broker w" "w_net w"] by simp
next
  case (wake c d now ans b')
  then show ?thesis using poll_check_frame(6)[of now c d "w_broker w"] by simp
next
  case (sweep now)
  then show ?thesis by (simp add: sweep_once_config)
qed

lemma reachable_coherent_config:
  assumes "reachable net sleep args s0 w"
  shows "coherent (w_broker w) \<and> (\<exists>b. broker_init args = Inr b \<and> config (w_broker w) = config b)"
  using assms
  by induction (auto simp: start_def broker_init_coherent step_coherent step_config)

text \<open>The step of one mailbox.\<close>

definition ledger :: "'s world \<Rightarrow> string \<Rightarrow> string list" where
  "ledger w c = of_agent c (w_delivered w) @ box (w_broker w) c"

lemma step_ledger:
  assumes "step net sleep w w'" "coherent (w_broker w)"
  shows "(\<exists>new. of_agent c (w_accepted w') = of_agent c (w_accepted w) @ new \<and> ledger w' c = ledger w c @ new)
    \<or> c \<in> w_removed w' \<and> of_agent c (w_accepted w') = of_agent c (w_accepted w) \<and>
       ledger w' c = of_agent c (w_delivered w)"
  using assms(1)
proof cases
  case (request meth a rq ans b' s')
  show ?thesis
  proof (cases meth)
    case GET
    with request have "do_GET a rq (w_broker w) = (ans, b')" by (simp add: handle_request_def)
    from do_GET_delivery[OF this, of c] show ?thesis
      using GET request by (auto simp: ledger_def)
  next
    case POST
    with request have "do_POST net sleep a rq (w_broker w) (w_net w) = ((ans, b'), s')" by (simp add: handle_request_def)
    from do_POST_delivery[OF this, of c] show ?thesis
      using POST request by (auto simp: ledger_def polled_by_def)
  next
    case DELETE
    with request have "do_DELETE a rq (w_broker w) = (ans, b')" by (simp add: handle_request_def)
    from do_DELETE_delivery[OF assms(2) this, of c] show ?thesis
      using DELETE request by (auto simp: ledger_def polled_by_def)
  qed
next
  case (wake d t now ans b')
  then show ?thesis using poll_check_delivery[of now d t "w_broker w" ans b' c] by (auto simp: ledger_def)
next
  case (sweep now)
  then show ?thesis using sweep_once_box[OF assms(2), of now c] by (auto simp: ledger_def)
qed

lemma step_removed: "step net sleep w w' \<Longrightarrow> w_removed w \<subseteq> w_removed w'"
  by (elim step_cases) auto

lemma reachable_ledger:
  assumes "reachable net sleep args s0 w"
  shows "subseq (ledger w c) (of_agent c (w_accepted w)) \<and>
    (c \<notin> w_removed w \<longrightarrow> ledger w c = of_agent c (w_accepted w))"
  using assms
proof induction
  case (initial b)
  then show ?case by (auto simp: start_def ledger_def box_def broker_init_def split: if_splits)
next
  case (later w w')
  have sub: "subseq (of_agent c (w_delivered w)) (ledger w c)"
    by (auto simp: ledger_def intro: prefix_imp_subseq)
  have coh: "coherent (w_broker w)" using reachable_coherent_config[OF later.hyps(1)] by simp
  from step_ledger[OF later.hyps(2) coh, of c] show ?case
  proof
    assume "\<exists>new. of_agent c (w_accepted w') = of_agent c (w_accepted w) @ new \<and> ledger w' c = ledger w c @ new"
    then show ?thesis using later.IH step_removed[OF later.hyps(2)] by auto
  next
    assume "c \<in> w_removed w' \<and> of_agent c (w_accepted w') = of_agent c (w_accepted w) \<and>
       ledger w' c = of_agent c (w_delivered w)"
    then show ?thesis using later.IH sub by (auto intro: subseq_order.trans)
  qed
qed

section \<open>Who is served\<close>

text \<open>The principals of a token table.\<close>

definition principals :: "(string, string) dict \<Rightarrow> string set" where
  "principals ts = fst ` set ts"

definition served_ok :: "(string, string) dict \<Rightarrow> 's world \<Rightarrow> bool" where
  "served_ok ts w \<longleftrightarrow>
     fst ` set (w_waiting w) \<subseteq> principals ts \<and> fst ` set (w_delivered w) \<subseteq> principals ts \<and>
     (\<forall>c raw. (c, raw) \<in> set (w_accepted w) \<longrightarrow> (\<exists>who \<in> principals ts. sent_by who raw))"

lemma admission_principal:
  assumes "agent_tokens b = Some ts" "token_map_ok b" "admission meth rq b = Inr who"
  shows "who \<in> principals ts"
proof -
  obtain tok where "dict_get (token_to_agent b) tok = Some who"
    using assms(3) unfolding admission_def authenticate_Inr[OF assms(1)] by blast
  then have "(who, tok) \<in> set ts"
    using assms(1,2) by (intro invert_tokens_sound) (simp add: token_map_ok_def)
  then show ?thesis by (force simp: principals_def)
qed

lemma waiting_of_poll: "poll_check now c d b = (ans, b') \<Longrightarrow> set (newly_waiting ans) \<subseteq> {(c, d)}"
  by (auto simp: poll_check_def newly_waiting_def split: option.splits if_splits)

lemma newly_waiting_simps [simp]:
  "newly_waiting (Answer st bd) = []" "newly_waiting (Died e) = []" "newly_waiting (write_error st msg) = []"
  by (simp_all add: newly_waiting_def write_error_def)

lemma delivered_keys: "fst ` set (delivered c ans) \<subseteq> {c}"
  by (auto simp: delivered_def split: answer.splits body.splits json.splits list.splits prod.splits)

lemma handle_poll_waiting:
  assumes "handle_poll a who rq b = (ans, b')"
  shows "fst ` set (newly_waiting ans) \<subseteq> {poll_id_of who rq}"
proof (cases "poll_id_of who rq = []")
  case True
  with assms show ?thesis by (auto simp: handle_poll_alt Let_def)
next
  case False
  with assms have "poll_check (mono a) (poll_id_of who rq) (mono a + poll_wait (parse_qs (url_query (rq_path rq))))
    (beat (mono a) (poll_id_of who rq) (revive (mono a) (poll_id_of who rq) b)) = (ans, b')"
    by (simp add: handle_poll_alt Let_def)
  from waiting_of_poll[OF this] show ?thesis by auto
qed

lemma authenticate_answer: "authenticate q rq b = Inl ans \<Longrightarrow> newly_waiting ans = []"
  by (drule authenticate_Inl) auto

lemma admitted_Inl_waiting:
  "authenticated_and_rate_limited q a rq b = (Inl ans, b') \<Longrightarrow> newly_waiting ans = []"
  by (auto simp: authenticated_and_rate_limited_def Let_def rate_limited_def
      dest!: authenticate_answer split: sum.splits prod.splits bool.splits)

lemma do_GET_waiting:
  assumes "do_GET a rq b = (ans, b')"
  shows "fst ` set (newly_waiting ans) \<subseteq> set_option (polled_by GET rq b)"
proof (cases "authenticated_and_rate_limited (url_path (rq_path rq) \<in> set dashboard_reading_paths) a rq b")
  case (Pair r b1)
  show ?thesis
  proof (cases r)
    case (Inl e)
    then have "newly_waiting e = []" using Pair admitted_Inl_waiting by blast
    with Inl Pair assms show ?thesis by (auto simp: do_GET_def Let_def split: if_splits)
  next
    case (Inr who)
    then have who: "admission GET rq b = Inr who"
      using admitted_principal Pair by (simp add: admission_def query_token_allowed_def)
    show ?thesis
    proof (cases "newly_waiting ans = []")
      case False
      then have "url_path (rq_path rq) = DEFAULT_MESSAGE_PATH" "handle_poll a who rq b1 = (ans, b')"
        using assms Pair Inr by (auto simp: do_GET_def Let_def handle_agents_def handle_traffic_def split: if_splits)
      with who handle_poll_waiting show ?thesis by (force simp: polled_by_def)
    qed simp
  qed
qed

lemma handle_register_waiting: "newly_waiting (fst (handle_register a who rq b)) = []"
  by (auto simp: handle_register_def read_body_def reject_def Let_def split: sum.splits option.splits if_splits prod.splits)

lemma handle_message_waiting: "newly_waiting (fst (fst (handle_message net sleep a who m b s))) = []"
  by (auto simp: handle_message_def Let_def split: sum.splits exn.splits prod.splits)

lemma handle_send_waiting: "newly_waiting (fst (fst (handle_send net sleep a who rq b s))) = []"
  by (auto simp: handle_send_def handle_message_waiting read_body_def split: sum.splits option.splits if_splits)

lemma do_POST_waiting: "newly_waiting (fst (fst (do_POST net sleep a rq b s))) = []"
  by (auto simp: do_POST_def handle_register_waiting handle_send_waiting
      dest: admitted_Inl_waiting split: prod.splits sum.splits)

lemma do_DELETE_waiting: "newly_waiting (fst (do_DELETE a rq b)) = []"
  by (auto simp: do_DELETE_def handle_deregister_def Let_def dest: admitted_Inl_waiting split: prod.splits sum.splits)

lemma request_waiting:
  assumes "handle_request net sleep meth a rq b s = ((ans, b'), s')"
  shows "fst ` set (newly_waiting ans) \<subseteq> set_option (polled_by meth rq b)"
  using assms do_GET_waiting[of a rq b ans b'] do_POST_waiting[of net sleep a rq b s] do_DELETE_waiting[of a rq b]
  by (cases meth) (auto simp: handle_request_def)

text \<open>An accepted message names the principal of the request as its sender.\<close>

lemma handle_send_accepted:
  assumes "handle_send net sleep a who rq b s = ((ans, b'), s')" "who \<noteq> []" "(c, raw) \<in> set (accepted rq b ans)"
  shows "sent_by who raw"
proof -
  from assms(3) obtain t m where r: "ans = Answer 202 BEmpty" "read_body rq b = Inr t" "deserialize t = Inr m"
    "raw = serialize m"
    by (cases "read_body rq b"; cases "deserialize (projr (read_body rq b))")
      (auto simp: accepted_def split: if_splits)
  then have h: "handle_message net sleep a who m b s = ((ans, b'), s')"
    using assms(1) by (simp add: handle_send_def)
  then obtain d where "queues_for who m b = Some d"
    using handle_message_not_queued(2)[OF _ h] r(1) by (cases "queues_for who m b") auto
  from queues_for_sender[OF this assms(2)] deserialize_canonical[OF r(3)] r(4)
  show ?thesis by (auto simp: sent_by_def)
qed

lemma do_POST_accepted:
  assumes "do_POST net sleep a rq b s = ((ans, b'), s')" "admission POST rq b = Inr who" "who \<noteq> []"
    and "(c, raw) \<in> set (accepted rq b ans)"
  shows "sent_by who raw"
proof (cases "authenticated_and_rate_limited False a rq b")
  case (Pair r b1)
  obtain y where b1: "b1 = b\<lparr>rate_buckets := y\<rparr>" using admitted_obtain[OF Pair] .
  have 202: "ans = Answer 202 BEmpty" using assms(4) by (simp add: accepted_def split: if_splits)
  have "r = Inr who"
  proof (cases r)
    case (Inl e)
    then show ?thesis using Pair assms(1) 202 admitted_Inl_answer(1) by (fastforce simp: do_POST_def)
  next
    case (Inr who')
    then show ?thesis using admitted_principal Pair assms(2)
      by (fastforce simp: admission_def query_token_allowed_def)
  qed
  moreover have "rq_path rq \<noteq> ''/agents''"
  proof
    assume "rq_path rq = ''/agents''"
    then have "handle_register a who rq b1 = (ans, b')"
      using assms(1) Pair \<open>r = Inr who\<close> by (simp add: do_POST_def)
    with handle_register_not_202[of a who rq b1] 202 show False by simp
  qed
  ultimately have "handle_send net sleep a who rq b1 s = ((ans, b'), s')"
    using assms(1) Pair 202 by (auto simp: do_POST_def write_error_def split: if_splits)
  from handle_send_accepted[OF this assms(3)] assms(4) show ?thesis by (simp add: b1)
qed

lemma admission_POST_refused:
  assumes "do_POST net sleep a rq b s = ((ans, b'), s')" "admission POST rq b = Inl e"
  shows "accepted rq b ans = []"
proof -
  have "ans = e" using handle_request_refused[of POST rq b e net sleep a s] assms
    by (simp add: is_health_probe_def handle_request_def)
  moreover have "\<exists>msg. e = write_error 401 msg"
    using assms(2) by (intro authenticate_Inl) (simp add: admission_def)
  moreover from this obtain msg where "e = write_error 401 msg" ..
  ultimately show ?thesis by (simp add: accepted_def write_error_def)
qed

lemma request_accepted:
  assumes "handle_request net sleep meth a rq b s = ((ans, b'), s')" "agent_tokens b = Some ts" "token_map_ok b"
    and "[] \<notin> principals ts" "(c, raw) \<in> set (if meth = POST then accepted rq b ans else [])"
  shows "\<exists>who \<in> principals ts. sent_by who raw"
proof -
  have m: "meth = POST" "(c, raw) \<in> set (accepted rq b ans)" using assms(5) by (auto split: if_splits)
  then have post: "do_POST net sleep a rq b s = ((ans, b'), s')" using assms(1) by (simp add: handle_request_def)
  have "admission POST rq b \<noteq> Inl e" for e using admission_POST_refused[OF post, of e] m(2) by auto
  then obtain who where who: "admission POST rq b = Inr who" by (cases "admission POST rq b") auto
  have p: "who \<in> principals ts" using admission_principal[OF assms(2,3) who] .
  then have "who \<noteq> []" using assms(4) by auto
  from do_POST_accepted[OF post who this m(2)] p show ?thesis by blast
qed

lemma served_extends:
  assumes "served_ok ts w"
    and "w_waiting w' = ws @ added" "set ws \<subseteq> set (w_waiting w)" "fst ` set added \<subseteq> principals ts"
    and "w_delivered w' = w_delivered w @ del" "fst ` set del \<subseteq> principals ts"
    and "w_accepted w' = w_accepted w @ acc" "\<And>c raw. (c, raw) \<in> set acc \<Longrightarrow> \<exists>who \<in> principals ts. sent_by who raw"
  shows "served_ok ts w'"
  unfolding served_ok_def assms(2,5,7)
proof (intro conjI allI impI)
  have "fst ` set ws \<subseteq> fst ` set (w_waiting w)" by (rule image_mono) (rule assms(3))
  then show "fst ` set (ws @ added) \<subseteq> principals ts"
    using assms(1,4) unfolding served_ok_def by (simp add: image_Un) (metis subset_trans)
  show "fst ` set (w_delivered w @ del) \<subseteq> principals ts" using assms(1,6) by (simp add: served_ok_def image_Un)
  fix c raw
  assume "(c, raw) \<in> set (w_accepted w @ acc)"
  then show "\<exists>who \<in> principals ts. sent_by who raw" using assms(1,8) unfolding served_ok_def by (metis UnE set_append)
qed

lemma step_served:
  assumes "step net sleep w w'" "served_ok ts w" "agent_tokens (w_broker w) = Some ts"
    and "token_map_ok (w_broker w)" "[] \<notin> principals ts"
  shows "served_ok ts w'"
  using assms(1)
proof cases
  case (request meth a rq ans b' s')
  have polled: "set_option (polled_by meth rq (w_broker w)) \<subseteq> principals ts"
    using admission_principal[OF assms(3,4), of meth rq] assms(5)
    by (auto simp: polled_by_def poll_id_of_def split: if_splits sum.splits)
  let ?del = "case polled_by meth rq (w_broker w) of Some c \<Rightarrow> delivered c ans | None \<Rightarrow> []"
  show ?thesis
  proof (rule served_extends[OF assms(2)])
    show "w_waiting w' = w_waiting w @ newly_waiting ans" "w_delivered w' = w_delivered w @ ?del"
      "w_accepted w' = w_accepted w @ (if meth = POST then accepted rq (w_broker w) ans else [])"
      using request(2) by simp_all
    show "fst ` set (newly_waiting ans) \<subseteq> principals ts" using request_waiting[OF request(1)] polled by blast
    show "fst ` set ?del \<subseteq> principals ts" using polled delivered_keys by (fastforce split: option.split)
  qed (rule order_refl, rule request_accepted[OF request(1) assms(3,4,5)])
next
  case (wake c d now ans b')
  have "fst (c, d) \<in> fst ` set (w_waiting w)" by (intro imageI) (rule wake)
  then have c: "c \<in> principals ts" using assms(2) by (auto simp only: served_ok_def fst_conv)
  show ?thesis
  proof (rule served_extends[OF assms(2)])
    show "w_waiting w' = remove1 (c, d) (w_waiting w) @ newly_waiting ans" "w_delivered w' = w_delivered w @ delivered c ans"
      "w_accepted w' = w_accepted w @ []"
      using wake by simp_all
    show "fst ` set (newly_waiting ans) \<subseteq> principals ts" using waiting_of_poll[OF wake(2)] c by fastforce
    show "fst ` set (delivered c ans) \<subseteq> principals ts" using delivered_keys[of c ans] c by auto
  qed (rule set_remove1_subset, simp)
next
  case (sweep now)
  then show ?thesis using assms(2) by (simp add: served_ok_def)
qed

lemma reachable_served:
  assumes "reachable net sleep args s0 w" "arg_agent_tokens args = Some ts" "[] \<notin> principals ts"
  shows "served_ok ts w"
  using assms(1)
proof induction
  case (initial b)
  then show ?case by (simp add: start_def served_ok_def)
next
  case (later w w')
  obtain b where b: "broker_init args = Inr b" "config (w_broker w) = config b"
    using reachable_coherent_config[OF later.hyps(1)] by blast
  then have "agent_tokens (w_broker w) = Some ts" "token_map_ok (w_broker w)"
    using assms(2) broker_init_tokens[OF b(1)] token_map_config[OF b(2)]
    by (auto simp: config_def broker_init_def split: if_splits)
  with later assms(3) show ?case by (blast intro: step_served)
qed

end
