(* ===== verification/Protocol_Properties.thy ===== *)
theory Protocol_Properties
  imports Protocol_Props
begin

text \<open>
  The properties of the message layer, each with an instance at concrete values.
\<close>

section \<open>Sample messages\<close>

definition sample_metadata :: metadata where
  "sample_metadata = metadata_create ''2026-01-01T00:00:00+00:00'' (JStr ''alice'') (JStr ''bob'')
     [(''topic'', JStr ''build'')]"

definition sample_request :: message where
  "sample_request = mk_request ''m-1'' sample_metadata [(''op'', JStr ''ping''), (''n'', JInt 3)]"

text \<open>An envelope whose \<open>extra\<close> is null: every field the validation looks at is in order.\<close>

definition null_extra_text :: string where
  "null_extra_text = dumps (JDict
     [(''message_id'', JStr ''m-2''), (''type'', JStr ''request''), (''protocol_version'', JStr ''1.0''),
      (''metadata'', JDict [(''sender'', JStr ''alice''), (''recipient'', JStr ''bob''),
        (''timestamp'', JStr ''t''), (''extra'', JNull)]),
      (''body'', JDict []), (''correlation_id'', JNull)])"

lemma sample_request_ok: "valid_message sample_request" "wf_message sample_request"
  by (simp_all add: sample_request_def sample_metadata_def mk_request_def metadata_create_def valid_message_def
      wf_message_def py_int_current nonempty_str_def opt_str_def wf_dict_def)

section \<open>Properties\<close>

text \<open>
  Property C4. Writing a valid message and reading the text back gives the same message, all
  fields included: every kind, every body and every \<open>extra\<close> mapping.
\<close>

theorem message_roundtrip:
  assumes "valid_message m" "wf_message m"
  shows "deserialize (serialize m) = Inr m"
  by (rule deserialize_serialize[OF assms])

theorem message_roundtrip_witness: "deserialize (serialize sample_request) = Inr sample_request"
  by (rule message_roundtrip[OF sample_request_ok])

text \<open>
  Property C29. A text that \<open>deserialize\<close> accepts is a valid message, with the correlation
  rule of its kind, and the message has a canonical text that reads back as itself.
\<close>

theorem deserialize_accepts_valid:
  assumes "deserialize raw = Inr m"
  shows "valid_message m \<and> wf_message m \<and> deserialize (serialize m) = Inr m"
  using deserialize_sound[OF assms] deserialize_canonical[OF assms] by simp

theorem deserialize_accepts_valid_witness:
  "valid_message sample_request \<and> deserialize (serialize sample_request) = Inr sample_request"
  using deserialize_accepts_valid[of "serialize sample_request" sample_request]
    deserialize_serialize[OF sample_request_ok] by simp

text \<open>
  Property C30. \<open>validate\<close> accepts exactly the envelopes of the protocol: the five required
  fields present, a non-empty id, a known type, a version of the current major, a non-empty
  sender and time stamp, a mapping for a body, and the correlation id its kind asks for.
\<close>

theorem validate_accepts_iff:
  "validate (ADict d) = Inr () \<longleftrightarrow> (\<forall>f \<in> set REQUIRED_ENVELOPE_FIELDS. dict_has d f) \<and> envelope_ok d"
  by (rule validate_dict_ok)

theorem validate_accepts_iff_witness: "validate (ADict (to_dict sample_request)) = Inr ()"
  unfolding validate_accepts_iff envelope_ok_to_dict
  using sample_request_ok(1) to_dict_has[of _ sample_request] by simp


lemma null_extra_leaks: "deserialize null_extra_text = Inl PyTypeError"
  by code_simp


text \<open>
  The replies built from a request carry its id as correlation id, go back to its
  sender, come from the explicit sender or else from the address the request was sent to, and
  are valid messages when that address is a non-empty string.
\<close>

theorem replies_correlate:
  assumes "mid \<noteq> []" "now \<noteq> []" "nonempty_str (reply_address q s)"
  shows "(\<exists>r. response_to now mid q b s ext = Inr r \<and> valid_message r \<and>
      correlation_id r = Some (message_id q) \<and> recipient (meta r) = sender (meta q) \<and>
      sender (meta r) = reply_address q s) \<and>
      valid_message (error_to now mid q code msg s details) \<and>
      correlation_id (error_to now mid q code msg s details) = Some (message_id q) \<and>
      recipient (meta (error_to now mid q code msg s details)) = sender (meta q) \<and>
      sender (meta (error_to now mid q code msg s details)) = reply_address q s"
  using response_valid[OF assms, of b ext] error_valid[OF assms, of code msg details]
  by (auto simp: response_to_Inr error_to_def sender_build_reply)

theorem replies_correlate_witness:
  "\<exists>r. response_to ''t'' ''m-9'' sample_request None None [] = Inr r \<and>
     recipient (meta r) = JStr ''alice'' \<and> sender (meta r) = JStr ''bob''"
  using replies_correlate[of "''m-9''" "''t''" sample_request None None "[]" "[]" "[]" "[]"]
  by (auto simp: reply_address_def sample_request_def sample_metadata_def mk_request_def
      metadata_create_def nonempty_str_def)

text \<open>
  A value is redacted exactly when its key contains one of the secret patterns;
  every other value is shown as it is.
\<close>

theorem redaction_exact:
  "redact_value key v ps =
     (if \<exists>p \<in> set ps. \<exists>a b. key = a @ p @ b then JStr REDACTED_SENTINEL else v)"
  by (simp add: redact_value_def is_secret_iff)

theorem redaction_exact_witness:
  "redact_value ''api_token'' (JStr ''s3cr3t'') [''token''] = JStr ''***''"
proof -
  have "\<exists>p \<in> set [''token'']. \<exists>a b. ''api_token'' = a @ p @ b"
    by (rule bexI[of _ "''token''"], rule exI[of _ "''api_''"], rule exI[of _ "[]"]) simp_all
  then show ?thesis unfolding redaction_exact by (simp only: if_True REDACTED_SENTINEL_def)
qed

end
