(* ===== verification/Transport_Properties.thy ===== *)
theory Transport_Properties
  imports Transport_Props Rate_Limit Protocol_Properties
begin

text \<open>
  The properties of the registry, of retried calls, of the router and of the agent-side server,
  and of the token bucket, each with an instance at concrete values.
\<close>

section \<open>Samples\<close>

definition push_ep :: "string \<Rightarrow> endpoint" where
  "push_ep a = \<lparr>ep_agent_id = a, ep_host = ''10.0.0.1'', ep_port = 8443, ep_scheme = ''https'',
     ep_path = ''/messages'', ep_mailbox = False\<rparr>"

definition three_tries :: retry_policy where
  "three_tries = \<lparr>max_attempts = 3, base_delay = 1, max_delay = 3, backoff_factor = 2\<rparr>"

text \<open>A call that fails twice with a transport error and then succeeds; the state counts the calls.\<close>

definition flaky :: "(nat, string) io" where
  "flaky n = (if n < 2 then (Inl (TransportError ''down''), n + 1) else (Inr ''up'', n + 1))"

definition no_sleep :: "seconds \<Rightarrow> 's \<Rightarrow> 's" where
  "no_sleep d s = s"

text \<open>A network on which every exchange times out.\<close>

definition dead_net :: "'s exchange" where
  "dead_net ep text s = (HttpTimeout, s)"

section \<open>Properties\<close>

text \<open>
  Property C38. The registry is a finite map: its operations act on the abstract map from ids to
  endpoints as update, deletion and application, and \<open>list_agents\<close> lists its range.
\<close>

theorem registry_refines_map:
  "reg_abs (reg_register ep r) = (reg_abs r)(ep_agent_id ep \<mapsto> ep) \<and>
   (case reg_unregister a r of
      Inr r' \<Rightarrow> reg_abs r a \<noteq> None \<and> reg_abs r' = (reg_abs r)(a := None)
    | Inl e \<Rightarrow> reg_abs r a = None \<and> e = unknown_agent a) \<and>
   reg_lookup a r = (case reg_abs r a of Some ep \<Rightarrow> Inr ep | None \<Rightarrow> Inl (unknown_agent a)) \<and>
   (wf_dict r \<longrightarrow> set (list_agents r) = ran (reg_abs r))"
proof (intro conjI)
  show "case reg_unregister a r of
      Inr r' \<Rightarrow> reg_abs r a \<noteq> None \<and> reg_abs r' = (reg_abs r)(a := None)
    | Inl e \<Rightarrow> reg_abs r a = None \<and> e = unknown_agent a"
  proof (cases "reg_unregister a r")
    case (Inl e)
    then have "reg_lookup a r = Inl e" by (simp add: rg.unreg_error)
    with Inl rg.look_error show ?thesis by (auto simp: reg_abs_def)
  next
    case (Inr r')
    moreover from this obtain ep where "reg_lookup a r = Inr ep" using rg.registered_iff by blast
    ultimately show ?thesis by (simp add: reg_abs_unregister) (simp add: reg_abs_def)
  qed
qed (auto simp: reg_abs_register reg_lookup_def reg_abs_get list_agents_abs ran_def split: option.split)

theorem registry_refines_map_witness:
  "set (list_agents (reg_register (push_ep ''bob'') [])) = ran (reg_abs (reg_register (push_ep ''bob'') []))"
  using registry_refines_map[of "push_ep ''bob''" "reg_register (push_ep ''bob'') []" "''bob''"]
  by (simp add: reg_register_def wf_dict_set)

text \<open>
  Property C32. A retried call returns the outcome of its first attempt that is not a transport
  error, having made every attempt before it and slept the delay of the policy after each.
\<close>

theorem retry_stops_at_first:
  assumes "k < nat (max_attempts pol)" "\<not> transient (f (before_attempt f pol sleep s k))"
    and "\<And>j. j < k \<Longrightarrow> transient (f (before_attempt f pol sleep s j))"
  shows "retry_call f pol sleep s = f (before_attempt f pol sleep s k)"
  using assms by (rule retry_call_settled)

theorem retry_stops_at_first_witness: "retry_call flaky three_tries no_sleep 0 = (Inr ''up'', 3)"
proof -
  have "before_attempt flaky three_tries no_sleep 0 2 = 2"
    by (simp add: numeral_2_eq_2 flaky_def no_sleep_def)
  moreover have "transient (flaky (before_attempt flaky three_tries no_sleep 0 j))" if "j < 2" for j
    using that by (cases j) (auto simp: transient_def flaky_def no_sleep_def)
  moreover have "\<not> transient (flaky 2)" by (simp add: transient_def flaky_def)
  ultimately show ?thesis
    using retry_stops_at_first[of 2 three_tries flaky no_sleep 0] by (simp add: three_tries_def flaky_def)
qed

text \<open>
  When every attempt is a transport error the call fails with a \<open>DeliveryError\<close>
  whose cause is the error of the last attempt.
\<close>

theorem retry_exhausts:
  assumes "\<And>j. j < nat (max_attempts pol) \<Longrightarrow> transient (f (before_attempt f pol sleep s j))"
    and "0 < max_attempts pol"
  shows "retry_call f pol sleep s =
    (let r = f (before_attempt f pol sleep s (nat (max_attempts pol) - 1))
     in (Inl (delivery_failed pol (the_error r)), snd r))"
  using assms by (rule retry_call_exhausted)

definition always_down :: "(nat, string) io" where
  "always_down n = (Inl (TransportError ''down''), n + 1)"

theorem retry_exhausts_witness:
  "\<exists>n. retry_call always_down three_tries no_sleep 0
    = (Inl (delivery_failed three_tries (Some (TransportError ''down''))), n)"
proof -
  have "transient (always_down n)" for n by (simp add: transient_def always_down_def)
  then show ?thesis
    using retry_exhausts[of three_tries always_down no_sleep 0]
    by (simp add: three_tries_def always_down_def the_error_def Let_def)
qed

text \<open>
  A retried call makes at least one and at most \<open>max_attempts\<close> attempts and
  sleeps at most \<open>max_attempts - 1\<close> times the maximal delay.
\<close>

theorem retry_bounded:
  assumes "retry_call (counted f) pol (timed sleep) (0, 0, s) = (r, (n, t, s'))"
    and "0 < max_attempts pol" "0 \<le> max_delay pol"
  shows "1 \<le> n \<and> int n \<le> max_attempts pol \<and> t \<le> of_int (max_attempts pol - 1) * max_delay pol"
  by (rule retry_call_counted[OF assms])

theorem retry_bounded_witness:
  "\<exists>r n t s'. retry_call (counted always_down) three_tries (timed no_sleep) (0, 0, 0) = (r, (n, t, s'))
     \<and> n \<le> 3 \<and> t \<le> 6"
proof -
  obtain r n t s' where e:
    "retry_call (counted always_down) three_tries (timed no_sleep) (0, 0, 0) = (r, (n, t, s'))"
    by (metis surj_pair)
  have "n \<le> 3 \<and> t \<le> 6"
    using retry_bounded[OF e] by (simp add: three_tries_def)
  with e show ?thesis by blast
qed

text \<open>
  Property C33. A message whose recipient is registered is sent to the registered endpoint and
  to no other, and routing fails with a delivery error or lets an error through that is no
  transport error; only an unregistered recipient gives \<open>AgentNotFoundError\<close>, without any
  network traffic.
\<close>

theorem route_to_registered:
  assumes "recipient (meta m) = JStr a" "a \<noteq> []"
  shows "case reg_abs reg a of
     None \<Rightarrow> \<exists>e. route net sleep rt reg m timeout s = (Inl (AgentNotFoundError e), s)
   | Some ep \<Rightarrow>
       route net sleep rt reg m timeout s =
         retry_call (client_send net m ep (case timeout of None \<Rightarrow> rt_timeout rt | Some t \<Rightarrow> t)) (rt_policy rt) sleep s \<and>
       (\<forall>e s'. route net sleep rt reg m timeout s = (Inl e, s') \<longrightarrow>
          (\<exists>c. e = delivery_failed (rt_policy rt) c) \<or> \<not> is_transport_error e)"
proof (cases "reg_abs reg a")
  case None
  then show ?thesis using route_unknown[OF assms(1) None] by simp
next
  case (Some ep)
  then show ?thesis
    using route_known[OF assms Some, of net sleep rt timeout s] retry_call_error by force
qed

theorem route_to_registered_witness:
  "\<exists>e. route dead_net no_sleep \<lparr>rt_policy = three_tries, rt_timeout = ''5.0''\<rparr> [] sample_request None ()
     = (Inl (AgentNotFoundError e), ())"
  using route_to_registered[where m = sample_request and a = "''bob''" and reg = "[]" and net = dead_net
      and sleep = no_sleep and rt = "\<lparr>rt_policy = three_tries, rt_timeout = ''5.0''\<rparr>" and timeout = None and s = "()"]
  by (simp add: sample_request_def sample_metadata_def mk_request_def metadata_create_def reg_abs_get)

text \<open>
  The agent-side server runs its message handler only on a valid message that
  was posted to the message path.
\<close>

theorem handler_sees_valid_messages:
  assumes "agent_do_POST handler mp rq s = (out, s')" "s' \<noteq> s"
  shows "\<exists>m. valid_message m \<and> rq_path rq = mp \<and> s' = snd (handler m s)"
  by (rule agent_do_POST_handler[OF assms])

definition count_handler :: "message \<Rightarrow> (nat, message option) io" where
  "count_handler m n = (Inr None, n + 1)"

lemma count_handler_runs:
  "agent_do_POST count_handler ''/messages'' (posted ''/messages'' (serialize sample_request) None) 0
    = (Reply 204 PEmpty, 1)"
proof -
  have "is_ascii (serialize sample_request)" by code_simp
  then show ?thesis
    by (simp add: agent_do_POST_def posted_body deserialize_serialize[OF sample_request_ok] count_handler_def)
qed

theorem handler_sees_valid_messages_witness:
  "\<exists>m. valid_message m \<and> (1::nat) = snd (count_handler m 0)"
  using handler_sees_valid_messages[OF count_handler_runs] by auto



text \<open>
  Property C37. When the configured rate is below one request per second, the capacity of the
  bucket is below one token too, so that every request is refused for ever.
\<close>

theorem slow_rate_starves:
  assumes "rate < 1"
  shows "fst (consume_all ts (new_bucket now rate None)) = 0"
  using assms by (simp add: consume_all_starved)

theorem slow_rate_starves_witness: "fst (consume_all [10, 100, 1000] (new_bucket 0 (1 / 2) None)) = 0"
  by (rule slow_rate_starves) simp

end
