(* ===== verification/Broker_Properties.thy ===== *)
theory Broker_Properties
  imports Broker_System Transport_Properties
begin

text \<open>
  The properties of the broker, each with an instance on a small broker with two agents.
\<close>

section \<open>A sample broker\<close>

definition sample_args :: broker_args where
  "sample_args = default_broker_args\<lparr>arg_agent_tokens := Some [(''alice'', ''ta''), (''bob'', ''tb'')]\<rparr>"

definition sample_broker :: broker where
  "sample_broker = projr (broker_init sample_args)"

definition noon :: ambient where
  "noon = \<lparr>mono = 100, wall = 1000, iso_now = ''2026-01-01T12:00:00+00:00'', fresh_id = ''e-1''\<rparr>"

definition bob_args :: register_args where
  "bob_args = \<lparr>v_agent_id = ''bob'', v_host = ''mailbox'', v_port = 0, v_scheme = ''http'', v_path = ''/messages'',
     v_caps = [], v_ttl = None, v_mailbox = True, v_is_new = True\<rparr>"

text \<open>Bob is registered for pull delivery at second 100.\<close>

definition bob_broker :: broker where
  "bob_broker = apply_register 100 bob_args sample_broker"

definition bob_register_text :: string where
  "bob_register_text = dumps (JDict [(''agent_id'', JStr ''bob''), (''mailbox'', JBool True)])"

lemma sample_init: "broker_init sample_args = Inr sample_broker"
  by (simp add: sample_broker_def broker_init_def sample_args_def default_broker_args_def)

lemma sample_coherent: "coherent sample_broker"
  by (rule broker_init_coherent[OF sample_init])

lemma sample_tokens: "agent_tokens sample_broker = Some [(''alice'', ''ta''), (''bob'', ''tb'')]"
  "token_to_agent sample_broker = [(''ta'', ''alice''), (''tb'', ''bob'')]"
  by code_simp+

lemma sample_empty: "registry sample_broker = []" "mailboxes sample_broker = []" "agents sample_broker = {}"
  "max_body_size sample_broker = 1048576" "traffic_maxlen sample_broker = 1000" "default_ttl_seconds sample_broker = 60"
  "mailbox_grace_seconds sample_broker = 30"
  by (simp_all add: sample_broker_def broker_init_def sample_args_def default_broker_args_def agents_def
      dict_simps MAX_POLL_WAIT_SECONDS_def)

lemma bob_coherent: "coherent bob_broker"
  unfolding bob_broker_def
  by (rule apply_register_coherent[OF sample_coherent]) (simp_all add: bob_args_def sample_empty)

lemma bob_entry: "entry bob_broker ''bob'' = (Some (endpoint_of bob_args), Some [], Some 100, Some 60)"
  using register_entry[of 100 bob_args sample_broker] by (simp add: bob_broker_def bob_args_def sample_empty)

lemma bob_box: "box bob_broker c = []"
  by (simp add: bob_broker_def) (simp add: box_def sample_empty)

lemma bob_config: "config bob_broker = config sample_broker"
  by (simp add: bob_broker_def apply_register_fields)

lemma bob_frame: "agent_tokens bob_broker = agent_tokens sample_broker" "traffic_maxlen bob_broker = 1000"
  "max_body_size bob_broker = 1048576" "mailbox_grace_seconds bob_broker = 30"
  "token_to_agent bob_broker = token_to_agent sample_broker"
  using bob_config sample_empty by (simp_all add: config_def)

section \<open>Access\<close>

text \<open>
  Property C19. With tokens configured, a request that presents no known token is answered 401
  and changes nothing, whatever its method, target and body; only the health probe is open.
\<close>

theorem unauthenticated_refused:
  assumes "agent_tokens b = Some ts" "\<not> is_health_probe meth rq"
    and "\<And>tok. presented_token (query_token_allowed meth rq) rq = Some tok \<Longrightarrow> dict_get (token_to_agent b) tok = None"
  shows "\<exists>msg. handle_request net sleep meth a rq b s = ((write_error 401 msg, b), s)"
proof -
  have "admission meth rq b \<noteq> Inr who" for who
    using assms(3) by (auto simp: admission_def authenticate_Inr[OF assms(1)])
  then obtain ans where ans: "admission meth rq b = Inl ans" by (cases "admission meth rq b") auto
  then obtain msg where msg: "ans = write_error 401 msg"
    using authenticate_Inl[of "query_token_allowed meth rq" rq b ans] by (auto simp: admission_def)
  show ?thesis
    using handle_request_refused[OF assms(2) ans, of net sleep a s] unfolding msg by (rule exI)
qed

theorem unauthenticated_refused_witness:
  "\<exists>msg. handle_request dead_net no_sleep POST noon (posted ''/agents'' bob_register_text None) sample_broker ()
     = ((write_error 401 msg, sample_broker), ())"
  by (rule unauthenticated_refused[OF sample_tokens(1)])
    (simp_all add: is_health_probe_def presented_token_def query_token_allowed_def)

text \<open>
  Property C3. An authenticated request does nothing to any other agent, its registration, its
  capabilities, its heartbeat, its TTL and its queued messages, except to append messages to
  its mailbox that name the authenticated agent as their sender.
\<close>

theorem no_impersonation:
  assumes "admission meth rq b = Inr who" "who \<noteq> []" "c \<noteq> who"
  shows "let b' = snd (fst (handle_request net sleep meth a rq b s)) in
    entry b' c = entry b c \<and> (\<exists>new. box b' c = box b c @ new \<and> (\<forall>raw \<in> set new. sent_by who raw))"
  using handle_request_untouched[OF assms] by (simp add: others_untouched_def Let_def)

lemma alice_admitted: "admission POST (posted path text (Some ''Bearer ta'')) bob_broker = Inr ''alice''"
  unfolding admission_def authenticate_Inr[OF trans[OF bob_frame(1) sample_tokens(1)]]
  by (simp add: presented_token_def bob_frame sample_tokens starts_with_def)

theorem no_impersonation_witness:
  "let b' = snd (fst (handle_request dead_net no_sleep POST noon
      (posted ''/agents'' bob_register_text (Some ''Bearer ta'')) bob_broker ())) in
    entry b' ''bob'' = entry bob_broker ''bob'' \<and> (\<exists>new. box b' ''bob'' = box bob_broker ''bob'' @ new \<and>
      (\<forall>raw \<in> set new. sent_by ''alice'' raw))"
  by (rule no_impersonation[OF alice_admitted]) simp_all


lemma bob_register_body:
  "max_body_size b = 1048576 \<Longrightarrow> read_body (posted ''/agents'' bob_register_text auth) b = Inr bob_register_text"
  "loads bob_register_text = Some (JDict [(''agent_id'', JStr ''bob''), (''mailbox'', JBool True)])"
proof -
  have "is_ascii bob_register_text" "length bob_register_text < 100" by code_simp+
  then show "max_body_size b = 1048576 \<Longrightarrow> read_body (posted ''/agents'' bob_register_text auth) b = Inr bob_register_text"
    by (simp add: read_body_def posted_body)
  show "loads bob_register_text = Some (JDict [(''agent_id'', JStr ''bob''), (''mailbox'', JBool True)])" by code_simp
qed

lemma bob_registers: "accepted_args ''bob'' (posted ''/agents'' bob_register_text (Some ''Bearer tb'')) sample_broker
    = Some bob_args"
proof -
  have "validate_register_payload [(''agent_id'', JStr ''bob''), (''mailbox'', JBool True)] ''bob'' sample_broker
      = Inr bob_args"
    by (simp add: validate_register_payload_def get_default_def mailbox_endpoint_def check_scheme_def check_path_def
        check_capabilities_def check_ttl_def reg_lookup_def sample_empty as_str_def as_int_def bob_args_def)
  then show ?thesis by (simp add: accepted_args_def bob_register_body sample_empty)
qed


text \<open>
  Removing an agent removes its registration, capabilities, heartbeat, TTL and
  queued messages and nothing of any other agent, and removing it again changes nothing more
  and is answered 204 as well.
\<close>

theorem deregister_idempotent:
  assumes "handle_deregister auth rq b = (Answer 204 bd, b1)" "handle_deregister auth rq b1 = (ans, b2)"
  shows "let c = parse_agent_id_from_path (rq_path rq) in
    entry b1 c = (None, None, None, None) \<and> box b1 c = [] \<and> (\<forall>d. d \<noteq> c \<longrightarrow> entry b1 d = entry b d \<and> box b1 d = box b d) \<and>
    ans = Answer 204 bd \<and> (\<forall>d. entry b2 d = entry b1 d \<and> box b2 d = box b1 d)"
  using assms by (auto simp: handle_deregister_def Let_def write_error_def entry_forget box_forget split: if_splits)

theorem deregister_idempotent_witness:
  "\<exists>b1 b2. handle_deregister ''bob'' (fetched ''/agents/bob'' None) bob_broker = (Answer 204 BEmpty, b1) \<and>
     handle_deregister ''bob'' (fetched ''/agents/bob'' None) b1 = (Answer 204 BEmpty, b2) \<and>
     entry b1 ''bob'' = (None, None, None, None)"
proof -
  have p: "parse_agent_id_from_path ''/agents/bob'' = ''bob''" by code_simp
  define b1 where "b1 = snd (handle_deregister ''bob'' (fetched ''/agents/bob'' None) bob_broker)"
  have h: "handle_deregister ''bob'' (fetched ''/agents/bob'' None) bob_broker = (Answer 204 BEmpty, b1)"
    by (simp add: b1_def handle_deregister_def p Let_def)
  obtain ans b2 where h2: "handle_deregister ''bob'' (fetched ''/agents/bob'' None) b1 = (ans, b2)"
    by (cases "handle_deregister ''bob'' (fetched ''/agents/bob'' None) b1")
  from deregister_idempotent[OF h h2] h h2 show ?thesis by (auto simp: Let_def p)
qed

section \<open>Eviction\<close>

text \<open>
  Property C15. A sweep removes exactly the agents whose TTL, with the grace of a mailbox agent,
  has run out since their last heartbeat, and leaves every other agent as it was.
\<close>

theorem sweep_exact:
  assumes "coherent b"
  shows "agents (sweep_once now b) = {c \<in> agents b. \<not> expired now b c} \<and>
    (\<forall>c. \<not> expired now b c \<longrightarrow> entry (sweep_once now b) c = entry b c \<and> box (sweep_once now b) c = box b c)"
  using sweep_once_exact[OF assms] by blast

theorem sweep_exact_witness:
  "''bob'' \<in> agents (sweep_once 190 bob_broker) \<and> ''bob'' \<notin> agents (sweep_once 191 bob_broker)"
proof -
  have "expired t bob_broker ''bob'' = (90 < t - 100)" for t
    by (simp add: expired_def bob_entry bob_frame endpoint_of_def bob_args_def)
  moreover have "''bob'' \<in> agents bob_broker"
    using bob_entry by (auto simp: entry_def agents_def dest: get_Some_keys)
  ultimately show ?thesis using sweep_exact[OF bob_coherent] by simp
qed

text \<open>
  An agent that \<open>GET /agents\<close> lists as active is kept by a sweep of the same
  instant.
\<close>

theorem active_survives_sweep:
  assumes "coherent b" "c \<in> agents b" "0 \<le> mailbox_grace_seconds b"
    and "ae_status (build_agent_entry (registry b) c caps (last_heartbeat b) (ttl_seconds b) now) = ACTIVE"
  shows "c \<in> agents (sweep_once now b) \<and> entry (sweep_once now b) c = entry b c"
  using active_not_expired[OF assms] sweep_once_exact[OF assms(1)] assms(2) by blast

theorem active_survives_sweep_witness: "''bob'' \<in> agents (sweep_once 160 bob_broker)"
proof -
  have e: "dict_get (registry bob_broker) ''bob'' = Some (endpoint_of bob_args)"
    "dict_get (last_heartbeat bob_broker) ''bob'' = Some 100" "dict_get (ttl_seconds bob_broker) ''bob'' = Some 60"
    using bob_entry by (simp_all add: entry_def)
  have "ae_status (build_agent_entry (registry bob_broker) ''bob'' [] (last_heartbeat bob_broker) (ttl_seconds bob_broker) 160) = ACTIVE"
    using e by (simp add: build_agent_entry_def Let_def)
  moreover have "''bob'' \<in> agents bob_broker" using e(1) by (auto simp: agents_def dest: get_Some_keys)
  ultimately show ?thesis
    using active_survives_sweep[OF bob_coherent, of "''bob''" "[]" 160] by (simp add: bob_frame)
qed

section \<open>Sending\<close>

definition ping :: message where
  "ping = mk_request ''m-7'' (metadata_create ''2026-01-01T12:00:00+00:00'' (JStr ''alice'') (JStr ''bob'') [])
     [(''op'', JStr ''ping'')]"

lemma ping_ok: "valid_message ping" "wf_message ping"
  by (simp_all add: ping_def mk_request_def metadata_create_def valid_message_def
      wf_message_def py_int_current nonempty_str_def opt_str_def wf_dict_def)

lemma ping_queues: "queues_for ''alice'' ping bob_broker = Some ''bob''"
  using bob_entry by (simp add: queues_for_def ping_def mk_request_def metadata_create_def entry_def
      endpoint_of_def bob_args_def)

text \<open>
  Every message the broker answers for leaves a record in the traffic buffer with
  its id, its addresses, the status of the answer, and the disposition that status stands for.
\<close>

theorem send_is_recorded:
  assumes "handle_message net sleep a who m b s = ((Answer st bd, b'), s')" "0 < traffic_maxlen b"
  shows "\<exists>r. traffic_buffer b' \<noteq> [] \<and> last (traffic_buffer b') = r \<and> tr_message_id r = message_id m \<and>
    tr_status r = st \<and> tr_source r = sender (meta m) \<and> tr_destination r = recipient (meta m) \<and>
    disposition_fits (tr_disposition r) st"
  using handle_message_record[OF assms] by (auto simp: last_traffic_def split: if_splits)

theorem send_is_recorded_witness:
  "\<exists>b'. fst (handle_message dead_net no_sleep noon ''alice'' ping bob_broker ()) = (Answer 202 BEmpty, b') \<and>
     tr_message_id (last (traffic_buffer b')) = ''m-7''"
proof -
  define b' where "b' = snd (fst (handle_message dead_net no_sleep noon ''alice'' ping bob_broker ()))"
  have h: "handle_message dead_net no_sleep noon ''alice'' ping bob_broker () = ((Answer 202 BEmpty, b'), ())"
    by (simp add: b'_def handle_message_queued[OF ping_queues])
  have "tr_message_id (last (traffic_buffer b')) = ''m-7''"
    using send_is_recorded[OF h] by (simp add: bob_frame) (simp add: ping_def mk_request_def)
  with h show ?thesis by simp
qed

text \<open>
  Property C17. A message for an agent with a mailbox is answered 202 without any network
  traffic, and what joins the end of the mailbox reads back as that message; a message for an
  agent with an address is answered by the recipient's reply, 204, or 502, never 404.
\<close>

theorem send_to_registered:
  assumes "recipient (meta m) = JStr c" "c \<noteq> []" "dict_get (registry b) c = Some ep"
    and "who = [] \<or> sender (meta m) = JStr who" "valid_message m" "wf_message m"
    and "handle_message net sleep a who m b s = ((ans, b'), s')"
  shows "if ep_mailbox ep
    then ans = Answer 202 BEmpty \<and> s' = s \<and>
      (\<exists>raw. box b' c = box b c @ [raw] \<and> deserialize raw = Inr m)
    else mailboxes b' = mailboxes b \<and>
      (\<forall>st bd. ans = Answer st bd \<longrightarrow> st = 200 \<or> st = 204 \<or> st = 502)"
proof (cases "ep_mailbox ep")
  case True
  then have q: "queues_for who m b = Some c" using assms(1-4) by (auto simp: queues_for_def)
  from handle_message_queued[OF q, of net sleep a s] assms(7) have "ans = Answer 202 BEmpty" "s' = s" by simp_all
  with True q handle_message_box[OF assms(7), of c] deserialize_serialize[OF assms(5,6)] show ?thesis by simp
next
  case False
  then have q: "queues_for who m b = None" using assms(1-4) by (auto simp: queues_for_def)
  have who: "\<not> (who \<noteq> [] \<and> sender (meta m) \<noteq> JStr who)" using assms(4) by auto
  have l: "reg_lookup_value (JStr c) (registry b) = Inr ep" "py_truthy (JStr c)"
    using assms(2,3) by (simp_all add: reg_lookup_value_Inr)
  have "st = 200 \<or> st = 204 \<or> st = 502" if "ans = Answer st bd" for st bd
  proof (rule route_send_known[OF assms(1-3)])
    show "route_send net sleep a m b s = (Inr (st, snd (projr (fst (route_send net sleep a m b s)))), s')"
      using assms(7) that False l unfolding handle_message_def Let_def assms(1) if_not_P[OF who]
      by (auto split: prod.splits sum.splits)
  qed
  with False handle_message_not_queued(1)[OF q assms(7)] show ?thesis by auto
qed

theorem send_to_registered_witness:
  "\<exists>raw. box (snd (fst (handle_message dead_net no_sleep noon ''alice'' ping bob_broker ()))) ''bob'' = [raw] \<and>
     deserialize raw = Inr ping"
proof -
  obtain ans b' s' where h: "handle_message dead_net no_sleep noon ''alice'' ping bob_broker () = ((ans, b'), s')"
    by (metis surj_pair)
  have "dict_get (registry bob_broker) ''bob'' = Some (endpoint_of bob_args)" using bob_entry by (simp add: entry_def)
  from send_to_registered[OF _ _ this _ ping_ok h] h show ?thesis
    by (simp add: bob_box endpoint_of_def bob_args_def) (simp add: ping_def mk_request_def metadata_create_def)
qed

section \<open>Polling\<close>

text \<open>
  A poll answers at once with every queued message in order and empties the
  mailbox, or, when nothing is queued, waits with a deadline at most 30 seconds away, unless the
  caller asked for no wait.
\<close>

theorem poll_drains_or_waits:
  assumes "poll_id_of who rq = c" "c \<noteq> []" "handle_poll a who rq b = (ans, b')"
  shows "(ans = Answer 200 (messages_payload (box b c)) \<and> box b' c = []) \<or>
    (box b c = [] \<and> box b' c = [] \<and>
      (\<exists>deadline. ans = Waiting c deadline \<and> mono a < deadline \<and> deadline \<le> mono a + 30))"
proof -
  let ?w = "poll_wait (parse_qs (url_query (rq_path rq)))"
  have "?w \<le> 30" using poll_wait_bounds(2) by (simp add: MAX_POLL_WAIT_SECONDS_def)
  with handle_poll_answer[OF assms] show ?thesis
    by (cases "box b c \<noteq> [] \<or> ?w \<le> 0") auto
qed

theorem poll_drains_or_waits_witness:
  "\<exists>deadline. fst (handle_poll noon ''bob'' (fetched ''/messages'' None) bob_broker) = Waiting ''bob'' deadline \<or>
     fst (handle_poll noon ''bob'' (fetched ''/messages'' None) bob_broker) = Answer 200 (messages_payload [])"
proof -
  obtain ans b' where h: "handle_poll noon ''bob'' (fetched ''/messages'' None) bob_broker = (ans, b')" by fastforce
  show ?thesis using poll_drains_or_waits[OF _ _ h, of "''bob''"] h by (auto simp: poll_id_of_def bob_box)
qed



section \<open>Limits and monitoring\<close>

text \<open>The limit does not apply to a negative length: the body is read to its end.\<close>

lemma negative_length_unbounded:
  assumes "content_length rq = Some n" "n < 0" "0 \<le> max_body_size b" "utf8_decode (rq_stream rq) = Some raw"
  shows "read_body rq b = Inr raw"
  using assms by (simp add: read_body_def rfile_read_def)

text \<open>
  Property C35. A request whose \<open>Content-Length\<close> exceeds the limit is answered 413 and changes
  nothing; a body that is read through a non-negative length is no longer than the limit; with
  a negative length the whole stream is read, whatever the limit.
\<close>

theorem body_limit:
  assumes "content_length rq = Some n"
  shows "(max_body_size b < n \<longrightarrow>
      (\<exists>bd. handle_register a who rq b = (Answer 413 bd, b)) \<and>
      (\<exists>bd. handle_send net sleep a who rq b s = ((Answer 413 bd, b), s))) \<and>
    (\<forall>raw. read_body rq b = Inr raw \<and> 0 \<le> n \<longrightarrow>
      (\<exists>bytes. utf8_decode bytes = Some raw \<and> int (length bytes) \<le> max_body_size b)) \<and>
    (\<forall>raw. n < 0 \<and> 0 \<le> max_body_size b \<and> utf8_decode (rq_stream rq) = Some raw \<longrightarrow> read_body rq b = Inr raw)"
proof (intro conjI impI allI)
  assume "max_body_size b < n"
  from handlers_too_large[OF assms this] show
    "\<exists>bd. handle_register a who rq b = (Answer 413 bd, b)"
    "\<exists>bd. handle_send net sleep a who rq b s = ((Answer 413 bd, b), s)" .
next
  fix raw assume "read_body rq b = Inr raw \<and> 0 \<le> n"
  then show "\<exists>bytes. utf8_decode bytes = Some raw \<and> int (length bytes) \<le> max_body_size b"
    using read_body_bounded[OF _ assms, of b raw] by blast
next
  fix raw assume "n < 0 \<and> 0 \<le> max_body_size b \<and> utf8_decode (rq_stream rq) = Some raw"
  then show "read_body rq b = Inr raw" using negative_length_unbounded[OF assms] by blast
qed

theorem body_limit_witness:
  "\<exists>bd. handle_send dead_net no_sleep noon ''alice''
     (\<lparr>rq_path = ''/messages'', rq_auth = None, rq_length = Some (nat_str 2000000), rq_stream = []\<rparr>) bob_broker () =
     ((Answer 413 bd, bob_broker), ())"
proof -
  have "content_length \<lparr>rq_path = ''/messages'', rq_auth = None, rq_length = Some (nat_str 2000000), rq_stream = []\<rparr>
      = Some 2000000"
    using py_int_int_str[of 2000000] by (simp add: content_length_def int_str_def del: nat_str.simps)
  from body_limit[OF this, of bob_broker noon "''alice''" dead_net no_sleep "()"] show ?thesis
    by (simp add: bob_frame del: nat_str.simps)
qed

text \<open>
  \<open>GET /traffic\<close> answers with the records that match the agent, topic and time
  filters, in order, and of these the last \<open>limit\<close>.
\<close>

theorem traffic_query:
  "handle_traffic rq b =
     (let query = parse_qs (url_query (rq_path rq));
          found = filter (traffic_matches query) (traffic_buffer b)
      in Answer 200 (BTraffic (case traffic_limit query (traffic_maxlen b) of None \<Rightarrow> found | Some n \<Rightarrow> last_n n found)))"
  by (rule handle_traffic_filter)

section \<open>Every reachable state\<close>

text \<open>A run of two requests: Bob registers for pull delivery and Alice sends him a message.\<close>

lemma admitted_unlimited:
  assumes "authenticate q rq b = Inr who" "rate_limit_per_second b \<le> 0"
  shows "authenticated_and_rate_limited q a rq b = (Inr who, b)"
  using assms by (simp add: authenticated_and_rate_limited_def check_rate_limit_def Let_def)

lemma sample_unlimited: "rate_limit_per_second sample_broker = 0"
  by (simp add: sample_broker_def broker_init_def sample_args_def default_broker_args_def)

definition bob_world :: "unit world" where
  "bob_world = (start sample_broker ())\<lparr>w_broker := audit ''register'' ''bob'' ''/agents'' 201 ''created'' bob_broker\<rparr>"

definition ping_world :: "unit world" where
  "ping_world = bob_world\<lparr>
     w_broker := snd (fst (handle_message dead_net no_sleep noon ''alice'' ping (w_broker bob_world) ())),
     w_accepted := [(''bob'', serialize ping)]\<rparr>"

lemma bob_step: "step dead_net no_sleep (start sample_broker ()) bob_world"
proof (rule step.request)
  let ?rq = "posted ''/agents'' bob_register_text (Some ''Bearer tb'')"
  have "authenticate False ?rq sample_broker = Inr ''bob''"
    unfolding authenticate_Inr[OF sample_tokens(1)]
    by (simp add: presented_token_def sample_tokens starts_with_def)
  from admitted_unlimited[OF this] show
    "handle_request dead_net no_sleep POST noon ?rq (w_broker (start sample_broker ())) (w_net (start sample_broker ()))
      = ((Answer 201 (BJson (JDict [(''agent_id'', JStr ''bob'')])), w_broker bob_world), ())"
    by (simp add: handle_request_def do_POST_def handle_register_accepted[OF bob_registers] start_def bob_world_def
        sample_unlimited bob_broker_def noon_def bob_args_def)
  show "bob_world = (start sample_broker ())\<lparr>w_broker := w_broker bob_world, w_net := (),
      w_waiting := w_waiting (start sample_broker ()) @ newly_waiting (Answer 201 (BJson (JDict [(''agent_id'', JStr ''bob'')]))),
      w_accepted := w_accepted (start sample_broker ()) @
        (if POST = POST then accepted ?rq (w_broker (start sample_broker ())) (Answer 201 (BJson (JDict [(''agent_id'', JStr ''bob'')]))) else []),
      w_delivered := w_delivered (start sample_broker ()) @
        (case polled_by POST ?rq (w_broker (start sample_broker ())) of
           Some c \<Rightarrow> delivered c (Answer 201 (BJson (JDict [(''agent_id'', JStr ''bob'')]))) | None \<Rightarrow> []),
      w_removed := w_removed (start sample_broker ()) \<union> (agents (w_broker (start sample_broker ())) - agents (w_broker bob_world))\<rparr>"
    by (simp add: bob_world_def start_def accepted_def polled_by_def sample_empty)
qed

abbreviation ping_post :: http_request where
  "ping_post \<equiv> posted ''/messages'' (serialize ping) (Some ''Bearer ta'')"

lemma ping_read: "config b = config sample_broker \<Longrightarrow> read_body ping_post b = Inr (serialize ping)"
proof -
  assume "config b = config sample_broker"
  then have "max_body_size b = 1048576" by (simp add: config_def sample_empty)
  moreover have "is_ascii (serialize ping)" "length (serialize ping) < 400" by code_simp+
  ultimately show ?thesis by (simp add: read_body_def posted_body)
qed

lemma ping_accepted: "config b = config sample_broker \<Longrightarrow> accepted ping_post b (Answer 202 BEmpty) = [(''bob'', serialize ping)]"
  by (simp add: accepted_def ping_read deserialize_serialize[OF ping_ok])
    (simp add: py_str_def ping_def mk_request_def metadata_create_def)

lemma ping_answer:
  assumes cfg: "config b = config sample_broker" and q: "queues_for ''alice'' ping b = Some ''bob''"
  shows "handle_request dead_net no_sleep POST noon ping_post b () =
    ((Answer 202 BEmpty, snd (fst (handle_message dead_net no_sleep noon ''alice'' ping b ()))), ())"
proof -
  from cfg have fields: "agent_tokens b = Some [(''alice'', ''ta''), (''bob'', ''tb'')]" "rate_limit_per_second b = 0"
    "token_to_agent b = [(''ta'', ''alice''), (''tb'', ''bob'')]"
    by (simp_all add: config_def sample_tokens sample_unlimited)
  have auth: "authenticate False ping_post b = Inr ''alice''"
    unfolding authenticate_Inr[OF fields(1)] by (simp add: presented_token_def fields starts_with_def)
  have "handle_send dead_net no_sleep noon ''alice'' ping_post b () =
      ((Answer 202 BEmpty, snd (fst (handle_message dead_net no_sleep noon ''alice'' ping b ()))), ())"
    by (simp add: handle_send_def ping_read[OF cfg] deserialize_serialize[OF ping_ok] handle_message_queued[OF q])
  then show ?thesis
    using admitted_unlimited[OF auth] by (simp add: handle_request_def do_POST_def fields DEFAULT_MESSAGE_PATH_def)
qed

lemma ping_step: "step dead_net no_sleep bob_world ping_world"
proof (rule step.request)
  let ?b = "w_broker bob_world"
  have b: "?b = audit ''register'' ''bob'' ''/agents'' 201 ''created'' bob_broker" by (simp add: bob_world_def)
  have cfg: "config ?b = config sample_broker" by (simp add: b bob_config)
  have q: "queues_for ''alice'' ping ?b = Some ''bob''" using ping_queues unfolding queues_for_def b audit_frame .
  show "handle_request dead_net no_sleep POST noon ping_post ?b (w_net bob_world) = ((Answer 202 BEmpty, w_broker ping_world), ())"
    using ping_answer[OF cfg q] by (simp add: ping_world_def)
  have "agents (w_broker ping_world) = agents ?b"
    by (simp add: ping_world_def handle_message_queued[OF q] agents_def)
  then show "ping_world = bob_world\<lparr>w_broker := w_broker ping_world, w_net := (),
      w_waiting := w_waiting bob_world @ newly_waiting (Answer 202 BEmpty),
      w_accepted := w_accepted bob_world @ (if POST = POST then accepted ping_post ?b (Answer 202 BEmpty) else []),
      w_delivered := w_delivered bob_world @
        (case polled_by POST ping_post ?b of Some c \<Rightarrow> delivered c (Answer 202 BEmpty) | None \<Rightarrow> []),
      w_removed := w_removed bob_world \<union> (agents ?b - agents (w_broker ping_world))\<rparr>"
    by (simp add: ping_accepted[OF cfg] polled_by_def)
      (simp add: ping_world_def bob_world_def start_def)
qed

lemma ping_reachable: "reachable dead_net no_sleep sample_args () ping_world"
  by (rule reachable.later[OF reachable.later[OF reachable.initial[OF sample_init] bob_step] ping_step])



text \<open>
  Property C1. What an agent was handed followed by what is queued for it is a subsequence of
  what the broker accepted for it, in the order of acceptance: nothing is invented, duplicated
  or reordered. As long as the agent was never removed it is the whole of it: nothing is lost.
\<close>

theorem mailbox_fifo:
  assumes "reachable net sleep args s0 w"
  shows "subseq (of_agent c (w_delivered w) @ box (w_broker w) c) (of_agent c (w_accepted w)) \<and>
    (c \<notin> w_removed w \<longrightarrow> of_agent c (w_delivered w) @ box (w_broker w) c = of_agent c (w_accepted w))"
  using reachable_ledger[OF assms, of c] by (simp add: ledger_def)

theorem mailbox_fifo_witness: "box (w_broker ping_world) ''bob'' = [serialize ping]"
  using mailbox_fifo[OF ping_reachable, of "''bob''"] by (simp add: ping_world_def bob_world_def start_def)



end
