(* ===== verification/Broker_Config.thy ===== *)
theory Broker_Config
  imports Broker_Properties
begin

text \<open>
  The configuration of the broker daemon: the environment helpers of
  \<open>protocol/_config_helpers.py\<close>, \<open>BrokerConfig\<close> of \<open>broker/config.py\<close> and
  \<open>build_broker\<close> of \<open>broker/service.py\<close>.

  The environment is a dictionary. Reading a file, the test whether a file is readable and the
  loading of the TLS material are parameters. The warnings of the development mode are a list
  of values, newest last. An em dash in a text of the code is a hyphen here.
\<close>

section \<open>Environment (_config_helpers.py)\<close>

type_synonym environ = "(string, string) dict"

definition parse_bool :: "string \<Rightarrow> bool" where
  "parse_bool raw = (py_lower (py_strip raw) \<in> set [''1'', ''true'', ''yes''])"

definition env_get :: "environ \<Rightarrow> string \<Rightarrow> string \<Rightarrow> string" where
  "env_get env key def = (case dict_get env key of Some v \<Rightarrow> v | None \<Rightarrow> def)"

definition env_int :: "string \<Rightarrow> int result" where
  "env_int raw = (case py_int raw of
     Some n \<Rightarrow> Inr n
   | None \<Rightarrow> Inl (PyValueError (''invalid literal for int() with base 10: '' @ repr_str raw)))"

definition env_float :: "string \<Rightarrow> pyfloat option result" where
  "env_float raw = (if raw = [] then Inr None else (case py_float raw of
     Some x \<Rightarrow> Inr (Some x)
   | None \<Rightarrow> Inl (PyValueError (''could not convert string to float: '' @ repr_str raw))))"

definition or_none :: "string \<Rightarrow> string option" where
  "or_none s = (if s = [] then None else Some s)"

section \<open>Tokens (config.py)\<close>

definition token_entry :: "string \<Rightarrow> (string \<times> string) option result" where
  "token_entry raw =
     (let entry = py_strip raw
      in if entry = [] then Inr None
         else if CHR ''='' \<notin> set entry
         then Inl (PyValueError (''malformed token entry '' @ repr_str entry @ '': expected id=token format''))
         else let agent_id = py_strip (before (CHR ''='') entry); token = py_strip (after (CHR ''='') entry)
              in if agent_id = []
                 then Inl (PyValueError (''malformed token entry '' @ repr_str entry @ '': agent_id is empty''))
                 else if token = []
                 then Inl (PyValueError (''malformed token entry '' @ repr_str entry @ '': token is empty''))
                 else Inr (Some (agent_id, token)))"

fun token_entries :: "string list \<Rightarrow> (string, string) dict \<Rightarrow> (string, string) dict result" where
  "token_entries [] tokens = Inr tokens"
| "token_entries (e # es) tokens = (case token_entry e of
     Inl err \<Rightarrow> Inl err
   | Inr r \<Rightarrow> token_entries es (case r of None \<Rightarrow> tokens | Some (a, t) \<Rightarrow> dict_set a t tokens))"

definition parse_inline_tokens :: "string \<Rightarrow> (string, string) dict result" where
  "parse_inline_tokens raw = token_entries (split_on (CHR '','') raw) []"

fun json_type :: "json \<Rightarrow> string" where
  "json_type JNull = ''NoneType''"
| "json_type (JBool b) = ''bool''"
| "json_type (JInt i) = ''int''"
| "json_type (JFloat l) = ''float''"
| "json_type (JStr s) = ''str''"
| "json_type (JList vs) = ''list''"
| "json_type (JDict kvs) = ''dict''"

fun string_values :: "string \<Rightarrow> (string, json) dict \<Rightarrow> (string, string) dict result" where
  "string_values origin [] = Inr []"
| "string_values origin ((k, v) # kvs) = (case as_str v of
     None \<Rightarrow> Inl (PyValueError (origin @ '': token for '' @ repr_str k @ '' must be a string, got '' @ json_type v))
   | Some t \<Rightarrow> (case string_values origin kvs of Inl e \<Rightarrow> Inl e | Inr ts \<Rightarrow> Inr ((k, t) # ts)))"

definition tokens_from_file :: "(string \<Rightarrow> string result) \<Rightarrow> string \<Rightarrow> (string, string) dict result" where
  "tokens_from_file read_file path =
     (let origin = ''ROBOTSIX_BROKER_AGENT_TOKENS_FILE '' @ repr_str path
      in case read_file path of
        Inl e \<Rightarrow> if is_os_error e
          then Inl (PyValueError (origin @ '': cannot read file: '' @ exn_str e)) else Inl e
      | Inr raw_json \<Rightarrow> (case loads raw_json of
          None \<Rightarrow> Inl (PyValueError (origin @ '': invalid JSON: ''))
        | Some data \<Rightarrow> (case as_dict data of
            None \<Rightarrow> Inl (PyValueError (origin @ '': top-level value must be a JSON object, got '' @ json_type data))
          | Some kvs \<Rightarrow> string_values origin kvs)))"

section \<open>BrokerConfig (config.py)\<close>

record broker_config =
  cfg_host :: string
  cfg_port :: int
  cfg_env :: string
  cfg_tls_cert :: "string option"
  cfg_tls_key :: "string option"
  cfg_tls_ca :: "string option"
  cfg_require_client_cert :: bool
  cfg_agent_tokens :: "(string, string) dict option"
  cfg_ttl_seconds :: int
  cfg_rate_limit :: "pyfloat option"
  cfg_max_body_size :: int
  cfg_mailbox_grace :: "pyfloat option"
  cfg_audit_log :: "string option"
  cfg_dashboard_enabled :: bool

datatype warning = NoTls | TlsUnreadable | NoAuth | NoTokens

text \<open>\<open>not self.tls_cert\<close>: absent or empty.\<close>

definition missing :: "string option \<Rightarrow> bool" where
  "missing x = (x = None \<or> x = Some [])"

definition readable_opt :: "(string \<Rightarrow> bool) \<Rightarrow> string option \<Rightarrow> bool" where
  "readable_opt readable x = (case x of None \<Rightarrow> False | Some p \<Rightarrow> readable p)"

definition path_text :: "string option \<Rightarrow> string" where
  "path_text x = (case x of None \<Rightarrow> ''None'' | Some p \<Rightarrow> repr_str p)"

definition validate_tls :: "(string \<Rightarrow> bool) \<Rightarrow> broker_config \<Rightarrow> warning list result" where
  "validate_tls readable c =
     (if cfg_env c \<noteq> ''development'' then
        (if missing (cfg_tls_cert c) \<or> missing (cfg_tls_key c)
         then Inl (PyValueError (''TLS is required in production: set ROBOTSIX_BROKER_TLS_CERT and ROBOTSIX_BROKER_TLS_KEY''))
         else if \<not> readable_opt readable (cfg_tls_cert c)
         then Inl (PyValueError (''TLS certificate file not found or not readable: '' @ path_text (cfg_tls_cert c)))
         else if \<not> readable_opt readable (cfg_tls_key c)
         then Inl (PyValueError (''TLS key file not found or not readable: '' @ path_text (cfg_tls_key c)))
         else Inr [])
      else
        (if missing (cfg_tls_cert c) \<or> missing (cfg_tls_key c) then Inr [NoTls]
         else if \<not> (readable_opt readable (cfg_tls_cert c) \<and> readable_opt readable (cfg_tls_key c))
         then Inr [TlsUnreadable]
         else Inr []))"

definition validate_client_cert :: "(string \<Rightarrow> bool) \<Rightarrow> broker_config \<Rightarrow> unit result" where
  "validate_client_cert readable c =
     (if cfg_require_client_cert c then
        (if missing (cfg_tls_ca c)
         then Inl (PyValueError ''mutual TLS requires a CA bundle: set ROBOTSIX_BROKER_TLS_CA'')
         else if \<not> readable_opt readable (cfg_tls_ca c)
         then Inl (PyValueError (''TLS CA file not found or not readable: '' @ path_text (cfg_tls_ca c)))
         else Inr ())
      else Inr ())"

definition validate_auth :: "broker_config \<Rightarrow> warning list result" where
  "validate_auth c =
     (if cfg_env c \<noteq> ''development'' then
        (case cfg_agent_tokens c of
           None \<Rightarrow> Inl (PyValueError (''authentication is required in production: configure ROBOTSIX_BROKER_AGENT_TOKENS_FILE or ROBOTSIX_BROKER_AGENT_TOKENS''))
         | Some ts \<Rightarrow>
             if ts = [] then Inl (PyValueError (''authentication is required in production: agent tokens mapping is empty - at least one agent token must be configured''))
             else Inr [])
      else
        (case cfg_agent_tokens c of
           None \<Rightarrow> Inr [NoAuth]
         | Some ts \<Rightarrow> if ts = [] then Inr [NoTokens] else Inr []))"

definition validate_config :: "(string \<Rightarrow> bool) \<Rightarrow> broker_config \<Rightarrow> warning list result" where
  "validate_config readable c = (case validate_tls readable c of
     Inl e \<Rightarrow> Inl e
   | Inr ws1 \<Rightarrow> (case validate_client_cert readable c of
       Inl e \<Rightarrow> Inl e
     | Inr _ \<Rightarrow> (case validate_auth c of
         Inl e \<Rightarrow> Inl e
       | Inr ws2 \<Rightarrow> Inr (ws1 @ ws2))))"

text \<open>The token table: the file wins over the inline list.\<close>

definition env_tokens :: "(string \<Rightarrow> string result) \<Rightarrow> environ \<Rightarrow> (string, string) dict option result" where
  "env_tokens read_file env =
     (let file = env_get env ''ROBOTSIX_BROKER_AGENT_TOKENS_FILE'' [];
          inline = env_get env ''ROBOTSIX_BROKER_AGENT_TOKENS'' []
      in if file \<noteq> [] then
           (case tokens_from_file read_file file of Inl e \<Rightarrow> Inl e | Inr ts \<Rightarrow> Inr (Some ts))
         else if inline \<noteq> [] then
           (case parse_inline_tokens inline of Inl e \<Rightarrow> Inl e | Inr ts \<Rightarrow> Inr (Some ts))
         else Inr None)"

definition parse_config :: "(string \<Rightarrow> string result) \<Rightarrow> environ \<Rightarrow> broker_config result" where
  "parse_config read_file env =
     (let raw_cc = env_get env ''ROBOTSIX_BROKER_REQUIRE_CLIENT_CERT'' [];
          raw_dash = env_get env ''ROBOTSIX_BROKER_DASHBOARD_ENABLED'' []
      in case env_tokens read_file env of
        Inl e \<Rightarrow> Inl e
      | Inr tokens \<Rightarrow> (case env_int (env_get env ''ROBOTSIX_BROKER_PORT'' ''8443'') of
          Inl e \<Rightarrow> Inl e
        | Inr port \<Rightarrow> (case env_int (env_get env ''ROBOTSIX_BROKER_TTL_SECONDS'' ''60'') of
            Inl e \<Rightarrow> Inl e
          | Inr ttl \<Rightarrow> (case env_float (env_get env ''ROBOTSIX_BROKER_RATE_LIMIT'' []) of
              Inl e \<Rightarrow> Inl e
            | Inr rate \<Rightarrow> (case env_int (env_get env ''ROBOTSIX_BROKER_MAX_BODY_SIZE'' ''1048576'') of
                Inl e \<Rightarrow> Inl e
              | Inr body_size \<Rightarrow> (case env_float (env_get env ''ROBOTSIX_BROKER_MAILBOX_GRACE_SECONDS'' []) of
                  Inl e \<Rightarrow> Inl e
                | Inr grace \<Rightarrow> Inr
                    \<lparr>cfg_host = env_get env ''ROBOTSIX_BROKER_HOST'' ''0.0.0.0'',
                     cfg_port = port,
                     cfg_env = env_get env ''ROBOTSIX_BROKER_ENV'' ''production'',
                     cfg_tls_cert = or_none (env_get env ''ROBOTSIX_BROKER_TLS_CERT'' []),
                     cfg_tls_key = or_none (env_get env ''ROBOTSIX_BROKER_TLS_KEY'' []),
                     cfg_tls_ca = or_none (env_get env ''ROBOTSIX_BROKER_TLS_CA'' []),
                     cfg_require_client_cert = (if raw_cc \<noteq> [] then parse_bool raw_cc else False),
                     cfg_agent_tokens = tokens,
                     cfg_ttl_seconds = ttl,
                     cfg_rate_limit = rate,
                     cfg_max_body_size = body_size,
                     cfg_mailbox_grace = grace,
                     cfg_audit_log = or_none (env_get env ''ROBOTSIX_BROKER_AUDIT_LOG'' []),
                     cfg_dashboard_enabled = (if raw_dash \<noteq> [] then parse_bool raw_dash else False)\<rparr>))))))"

definition config_from_env ::
  "(string \<Rightarrow> string result) \<Rightarrow> (string \<Rightarrow> bool) \<Rightarrow> environ \<Rightarrow> (broker_config \<times> warning list) result" where
  "config_from_env read_file readable env = (case parse_config read_file env of
     Inl e \<Rightarrow> Inl e
   | Inr c \<Rightarrow> (case validate_config readable c of Inl e \<Rightarrow> Inl e | Inr ws \<Rightarrow> Inr (c, ws)))"

section \<open>build_broker (service.py)\<close>

text \<open>
  A float of the configuration as an exact number. \<open>inf\<close> and \<open>nan\<close> are accepted by the
  code but have no place in the broker's model: \<open>build_broker\<close> is \<open>None\<close> for them.
\<close>

definition finite_or :: "seconds \<Rightarrow> pyfloat option \<Rightarrow> seconds option" where
  "finite_or def x = (case x of None \<Rightarrow> Some def | Some (Fin r) \<Rightarrow> Some r | Some _ \<Rightarrow> None)"

definition uses_tls :: "broker_config \<Rightarrow> bool" where
  "uses_tls c = (\<not> missing (cfg_tls_cert c) \<and> \<not> missing (cfg_tls_key c))"

definition build_broker :: "(broker_config \<Rightarrow> unit result) \<Rightarrow> broker_config \<Rightarrow> broker result option" where
  "build_broker load_tls c =
     (case (finite_or (arg_rate_limit default_broker_args) (cfg_rate_limit c),
            finite_or (arg_mailbox_grace default_broker_args) (cfg_mailbox_grace c)) of
        (Some rate, Some grace) \<Rightarrow>
          Some (case (if uses_tls c then load_tls c else Inr ()) of
            Inl e \<Rightarrow> Inl e
          | Inr _ \<Rightarrow> broker_init (default_broker_args\<lparr>
              arg_ssl_context := uses_tls c,
              arg_require_client_cert := cfg_require_client_cert c,
              arg_agent_tokens := cfg_agent_tokens c,
              arg_ttl_seconds := cfg_ttl_seconds c,
              arg_rate_limit := rate,
              arg_max_body_size := cfg_max_body_size c,
              arg_mailbox_grace := grace,
              arg_dashboard_enabled := cfg_dashboard_enabled c\<rparr>))
      | _ \<Rightarrow> None)"

section \<open>What the configuration guarantees\<close>

lemma token_entry_Inr:
  "token_entry e = Inr (Some (a, t)) \<Longrightarrow> a \<noteq> [] \<and> t \<noteq> []"
  by (auto simp: token_entry_def Let_def split: if_splits)

lemma token_entries_ok:
  assumes "token_entries es ts = Inr ts'" "wf_dict ts" "\<forall>(a, t) \<in> set ts. a \<noteq> [] \<and> t \<noteq> []"
  shows "wf_dict ts' \<and> (\<forall>(a, t) \<in> set ts'. a \<noteq> [] \<and> t \<noteq> [])"
  using assms
proof (induction es arbitrary: ts)
  case (Cons e es)
  then obtain r where r: "token_entry e = Inr r"
    "token_entries es (case r of None \<Rightarrow> ts | Some (a, t) \<Rightarrow> dict_set a t ts) = Inr ts'"
    by (auto split: sum.splits)
  show ?case
  proof (rule Cons.IH[OF r(2)])
    show "wf_dict (case r of None \<Rightarrow> ts | Some (a, t) \<Rightarrow> dict_set a t ts)"
      using Cons.prems(2) by (auto simp: wf_dict_set split: option.split)
    have "set (dict_set a t ts) \<subseteq> insert (a, t) (set ts)" for a t
      unfolding dict_set_def by (induction ts) auto
    then show "\<forall>(a, t) \<in> set (case r of None \<Rightarrow> ts | Some (a, t) \<Rightarrow> dict_set a t ts). a \<noteq> [] \<and> t \<noteq> []"
      using Cons.prems(3) token_entry_Inr r(1) by (fastforce split: option.splits)
  qed
qed simp

lemma parse_inline_tokens_ok:
  assumes "parse_inline_tokens raw = Inr ts"
  shows "wf_dict ts" "\<forall>(a, t) \<in> set ts. a \<noteq> [] \<and> t \<noteq> []"
  using token_entries_ok[of "split_on (CHR '','') raw" "[]" ts] assms by (simp_all add: parse_inline_tokens_def)

lemma validate_config_production:
  assumes "validate_config readable c = Inr ws" "cfg_env c \<noteq> ''development''"
  shows "ws = []" "uses_tls c" "readable_opt readable (cfg_tls_cert c)" "readable_opt readable (cfg_tls_key c)"
    "\<exists>ts. cfg_agent_tokens c = Some ts \<and> ts \<noteq> []"
  using assms
  by (auto simp: validate_config_def validate_tls_def validate_auth_def uses_tls_def result_simps
      split: if_splits option.splits)

lemma validate_config_insecure:
  assumes "validate_config readable c = Inr ws"
  shows "cfg_agent_tokens c = None \<Longrightarrow> cfg_env c = ''development'' \<and> NoAuth \<in> set ws"
    "\<not> uses_tls c \<Longrightarrow> cfg_env c = ''development'' \<and> NoTls \<in> set ws"
  using assms
  by (auto simp: validate_config_def validate_tls_def validate_auth_def uses_tls_def result_simps
      split: if_splits option.splits)

lemma build_broker_fields:
  assumes "build_broker load_tls c = Some (Inr b)"
  shows "agent_tokens b = cfg_agent_tokens c" "max_body_size b = cfg_max_body_size c"
    "default_ttl_seconds b = cfg_ttl_seconds c" "token_map_ok b" "coherent b"
proof -
  from assms obtain args where args: "broker_init args = Inr b" "arg_agent_tokens args = cfg_agent_tokens c"
    "arg_max_body_size args = cfg_max_body_size c" "arg_ttl_seconds args = cfg_ttl_seconds c"
    by (fastforce simp: build_broker_def split: option.splits sum.splits if_splits)
  then show "agent_tokens b = cfg_agent_tokens c" "max_body_size b = cfg_max_body_size c"
    "default_ttl_seconds b = cfg_ttl_seconds c"
    by (auto simp: broker_init_def split: if_splits)
  show "token_map_ok b" "coherent b" using args(1) broker_init_tokens broker_init_coherent by blast+
qed

section \<open>Properties\<close>


definition sample_env :: environ where
  "sample_env = [(''ROBOTSIX_BROKER_TLS_CERT'', ''/tls/cert''), (''ROBOTSIX_BROKER_TLS_KEY'', ''/tls/key''),
     (''ROBOTSIX_BROKER_AGENT_TOKENS'', ''alice=ta, bob=tb'')]"

definition no_files :: "string \<Rightarrow> string result" where
  "no_files p = Inl (PyOSError ''no such file'')"

definition all_readable :: "string \<Rightarrow> bool" where
  "all_readable p = True"

definition sample_config :: broker_config where
  "sample_config = \<lparr>cfg_host = ''0.0.0.0'', cfg_port = 8443, cfg_env = ''production'',
     cfg_tls_cert = Some ''/tls/cert'', cfg_tls_key = Some ''/tls/key'', cfg_tls_ca = None,
     cfg_require_client_cert = False, cfg_agent_tokens = Some [(''alice'', ''ta''), (''bob'', ''tb'')],
     cfg_ttl_seconds = 60, cfg_rate_limit = None, cfg_max_body_size = 1048576, cfg_mailbox_grace = None,
     cfg_audit_log = None, cfg_dashboard_enabled = False\<rparr>"

lemma digit_chars: "digit_char 0 = CHR ''0''" "digit_char 1 = CHR ''1''" "digit_char 3 = CHR ''3''"
  "digit_char 4 = CHR ''4''" "digit_char 5 = CHR ''5''" "digit_char 6 = CHR ''6''" "digit_char 7 = CHR ''7''"
  "digit_char 8 = CHR ''8''"
  by code_simp+

lemma env_int_str: "env_int (int_str n) = Inr n"
  by (simp add: env_int_def py_int_int_str)

lemma default_numbers: "env_int ''8443'' = Inr 8443" "env_int ''60'' = Inr 60" "env_int ''1048576'' = Inr 1048576"
  "env_float [] = Inr None"
  using env_int_str[of 8443] env_int_str[of 60] env_int_str[of 1048576] digit_chars
  by (simp_all add: int_str_def nat_str.simps env_float_def)

lemma sample_inline: "parse_inline_tokens ''alice=ta, bob=tb'' = Inr [(''alice'', ''ta''), (''bob'', ''tb'')]"
  by code_simp

lemma sample_config_ok: "config_from_env no_files all_readable sample_env = Inr (sample_config, [])"
  by (simp add: config_from_env_def parse_config_def env_tokens_def env_get_def sample_env_def default_numbers
      sample_inline sample_config_def or_none_def validate_config_def validate_tls_def validate_client_cert_def
      validate_auth_def missing_def readable_opt_def all_readable_def Let_def)

definition tls_loads :: "broker_config \<Rightarrow> unit result" where
  "tls_loads c = Inr ()"


text \<open>
  A broker that runs without tokens or without TLS runs in development mode, and
  the reading of its configuration has warned about it.
\<close>

theorem insecure_only_with_warning:
  assumes "config_from_env read_file readable env = Inr (c, ws)"
  shows "(cfg_agent_tokens c = None \<longrightarrow> cfg_env c = ''development'' \<and> NoAuth \<in> set ws) \<and>
    (\<not> uses_tls c \<longrightarrow> cfg_env c = ''development'' \<and> NoTls \<in> set ws)"
proof -
  have "validate_config readable c = Inr ws"
    using assms by (auto simp: config_from_env_def split: sum.splits)
  from validate_config_insecure[OF this] show ?thesis by blast
qed

theorem insecure_only_with_warning_witness:
  "\<exists>c ws. config_from_env no_files all_readable [(''ROBOTSIX_BROKER_ENV'', ''development'')] = Inr (c, ws) \<and> NoAuth \<in> set ws"
proof -
  let ?env = "[(''ROBOTSIX_BROKER_ENV'', ''development'')]"
  obtain c ws where e: "config_from_env no_files all_readable ?env = Inr (c, ws)" "cfg_agent_tokens c = None"
    by (simp add: config_from_env_def parse_config_def env_tokens_def env_get_def default_numbers or_none_def
        validate_config_def validate_tls_def validate_client_cert_def validate_auth_def missing_def Let_def)
  with insecure_only_with_warning[OF e(1)] show ?thesis by blast
qed

end
