(* ===== verification/Entry_Logging.thy ===== *)
theory Entry_Logging
  imports Broker_Config
begin

text \<open>
  The logging set-up of the entry points, \<open>src/robotsix_agent_comm/_logging.py\<close>: the level read
  from the environment when the module is loaded, and \<open>setup_logging\<close>, which puts one handler on
  the root logger. What \<open>logging\<close> does with it is not modelled.
\<close>

section \<open>The level\<close>

text \<open>
  \<open>str.upper\<close>, but for the sharp s, the micro sign and the y with diaeresis, which it turns into
  letters that no attribute of \<open>logging\<close> has.
\<close>

definition upper_char :: "char \<Rightarrow> char" where
  "upper_char c = (let n = ord c in
     if (97 \<le> n \<and> n \<le> 122) \<or> (224 \<le> n \<and> n \<le> 254 \<and> n \<noteq> 247) then char_of (n - 32) else c)"

definition py_upper :: "string \<Rightarrow> string" where
  "py_upper s = map upper_char s"

text \<open>The integers among the attributes of \<open>logging\<close> whose names have no lower-case letter.\<close>

definition logging_ints :: "(string, int) dict" where
  "logging_ints = [(''CRITICAL'', 50), (''FATAL'', 50), (''ERROR'', 40), (''WARNING'', 30), (''WARN'', 30),
     (''INFO'', 20), (''DEBUG'', 10), (''NOTSET'', 0)]"

definition LOG_LEVEL_STR :: "environ \<Rightarrow> string" where
  "LOG_LEVEL_STR env = py_upper (env_get env ''LOG_LEVEL'' ''INFO'')"

definition LOG_LEVEL :: "environ \<Rightarrow> int" where
  "LOG_LEVEL env = (case dict_get logging_ints (LOG_LEVEL_STR env) of Some n \<Rightarrow> n | None \<Rightarrow> 20)"

section \<open>The root logger\<close>

definition LOG_FORMAT :: string where
  "LOG_FORMAT = ''%(asctime)s [%(levelname)s] %(name)s: %(message)s''"

definition LOG_DATEFMT :: string where
  "LOG_DATEFMT = ''%Y-%m-%dT%H:%M:%S''"

datatype log_handler = Stdout_Handler string string | Other_Handler string

record root_logger =
  log_level :: int
  log_handlers :: "log_handler list"

text \<open>\<open>basicConfig\<close> does nothing to a logger that has handlers, unless it is forced.\<close>

definition setup_logging :: "environ \<Rightarrow> bool \<Rightarrow> root_logger \<Rightarrow> root_logger" where
  "setup_logging env force lg =
     (if log_handlers lg \<noteq> [] \<and> \<not> force then lg
      else \<lparr>log_level = LOG_LEVEL env, log_handlers = [Stdout_Handler LOG_FORMAT LOG_DATEFMT]\<rparr>)"

text \<open>
  However often and after whatever set-up it is called as the entry points call it, the root
  logger has one handler and a level of \<open>logging\<close>, \<open>INFO\<close> for a name that is none.
\<close>

theorem logging_set_up:
  "setup_logging env True (setup_logging env f lg) = setup_logging env True lg \<and>
   log_handlers (setup_logging env True lg) = [Stdout_Handler LOG_FORMAT LOG_DATEFMT] \<and>
   log_level (setup_logging env True lg) = LOG_LEVEL env \<and> LOG_LEVEL env \<in> {0, 10, 20, 30, 40, 50} \<and>
   (dict_get logging_ints (LOG_LEVEL_STR env) = None \<longrightarrow> LOG_LEVEL env = 20)"
proof -
  have "n \<in> {0, 10, 20, 30, 40, 50}" if "dict_get logging_ints k = Some n" for k n
  proof -
    have "(k, n) \<in> set logging_ints" using that by (rule map_of_SomeD)
    then show ?thesis by (auto simp: logging_ints_def)
  qed
  then have "LOG_LEVEL env \<in> {0, 10, 20, 30, 40, 50}" unfolding LOG_LEVEL_def by (simp split: option.split)
  then show ?thesis by (simp add: setup_logging_def LOG_LEVEL_def)
qed

text \<open>The case of the name does not matter, and the default is \<open>INFO\<close>.\<close>

lemma level_names:
  "LOG_LEVEL [(''LOG_LEVEL'', ''debug'')] = 10" "LOG_LEVEL [(''LOG_LEVEL'', ''Warn'')] = 30"
  "LOG_LEVEL [(''LOG_LEVEL'', '' info '')] = 20" "LOG_LEVEL [(''LOG_LEVEL'', ''BASIC_FORMAT'')] = 20" "LOG_LEVEL [] = 20"
  by code_simp+

end
