(* ===== verification/Broker_Typing.thy ===== *)
theory Broker_Typing
  imports Broker_Properties
begin

text \<open>
  The types of what the broker stores. A JSON request is untyped; the checks of the handlers are
  what makes the stored endpoints and messages well typed. Here this is an invariant of every
  reachable state, whatever requests arrive and whether tokens are configured or not.
\<close>

section \<open>Well-typed endpoints and messages\<close>

definition endpoint_ok :: "endpoint \<Rightarrow> bool" where
  "endpoint_ok ep \<longleftrightarrow>
     ep_agent_id ep \<noteq> [] \<and> ep_host ep \<noteq> [] \<and> ep_port ep \<le> 65535 \<and>
     (if ep_mailbox ep then 0 \<le> ep_port ep else 1 \<le> ep_port ep \<and> length (ep_host ep) \<le> 253) \<and>
     (ep_scheme ep = ''http'' \<or> ep_scheme ep = ''https'') \<and> starts_with ''/'' (ep_path ep)"

text \<open>A text that reads as a valid message for \<open>c\<close> and is the very text that message is written as.\<close>

definition mail_ok :: "string \<Rightarrow> string \<Rightarrow> bool" where
  "mail_ok c raw = (case deserialize raw of
     Inl _ \<Rightarrow> False
   | Inr m \<Rightarrow> serialize m = raw \<and> valid_message m \<and> recipient (meta m) = JStr c)"

definition typed_endpoints :: "broker \<Rightarrow> bool" where
  "typed_endpoints b \<longleftrightarrow> (\<forall>c ep. dict_get (registry b) c = Some ep \<longrightarrow> endpoint_ok ep)"

lemma typed_frame: "registry b' = registry b \<Longrightarrow> typed_endpoints b' = typed_endpoints b"
  by (simp add: typed_endpoints_def)

lemma typed_register:
  "registry b' = reg_register ep (registry b) \<Longrightarrow> endpoint_ok ep \<Longrightarrow> typed_endpoints b \<Longrightarrow> typed_endpoints b'"
  by (simp add: typed_endpoints_def reg_gets)

section \<open>The checks of a registration\<close>

lemma check_endpoint_typed:
  "check_endpoint h p a = Inr (x, n) \<Longrightarrow> x \<noteq> [] \<and> length x \<le> 253 \<and> 1 \<le> n \<and> n \<le> 65535"
  by (auto simp: check_endpoint_def split: option.splits if_splits)

lemma mailbox_endpoint_typed: "mailbox_endpoint h p = (x, n) \<Longrightarrow> x \<noteq> [] \<and> 0 \<le> n \<and> n \<le> 65535"
  by (auto simp: mailbox_endpoint_def split: option.splits if_splits)

lemma check_scheme_typed: "check_scheme d a = Inr x \<Longrightarrow> x = ''http'' \<or> x = ''https''"
  by (auto simp: check_scheme_def split: option.splits if_splits)

lemma check_path_typed: "check_path d a = Inr x \<Longrightarrow> starts_with ''/'' x"
  by (auto simp: check_path_def starts_with_def split: option.splits if_splits)

lemma validate_register_typed:
  assumes "validate_register_payload data auth b = Inr v"
  shows "endpoint_ok (endpoint_of v)"
  using assms
proof (rule validate_register_elim)
  fix aid hp sch pth caps ttl mb
  assume id: "aid \<noteq> []"
    and hp: "(if mb then Inr (mailbox_endpoint (get_default data ''host'' JNull) (get_default data ''port'' JNull))
      else check_endpoint (get_default data ''host'' JNull) (get_default data ''port'' JNull) aid) = Inr hp"
    and sch: "check_scheme data aid = Inr sch" and pth: "check_path data aid = Inr pth"
    and v: "v = \<lparr>v_agent_id = aid, v_host = fst hp, v_port = snd hp, v_scheme = sch, v_path = pth, v_caps = caps,
          v_ttl = ttl, v_mailbox = mb,
          v_is_new = (case reg_lookup aid (registry b) of Inr _ \<Rightarrow> False | Inl _ \<Rightarrow> True)\<rparr>"
  obtain x n where xn: "hp = (x, n)" by (cases hp)
  have "x \<noteq> [] \<and> n \<le> 65535 \<and> (if mb then 0 \<le> n else 1 \<le> n \<and> length x \<le> 253)"
  proof (cases mb)
    case True
    with hp xn mailbox_endpoint_typed show ?thesis by (metis Inr_inject)
  next
    case False
    with hp xn check_endpoint_typed show ?thesis by simp
  qed
  then show ?thesis
    using id check_scheme_typed[OF sch] check_path_typed[OF pth] xn v by (simp add: endpoint_ok_def endpoint_of_def)
qed

lemma accepted_args_typed: "accepted_args auth rq b = Some v \<Longrightarrow> endpoint_ok (endpoint_of v)"
  by (auto simp: accepted_args_def split: sum.splits option.splits json.splits intro: validate_register_typed)

section \<open>Every operation keeps the endpoints typed\<close>

lemma handle_register_typed: "typed_endpoints b \<Longrightarrow> typed_endpoints (snd (handle_register a auth rq b))"
proof (cases "accepted_args auth rq b")
  case None
  assume "typed_endpoints b"
  then show ?thesis using handle_register_refused_frame[OF None, of a] typed_frame by (metis broker.select_convs(1) broker.update_convs(17) broker.surjective)
next
  case (Some v)
  assume "typed_endpoints b"
  then show ?thesis
    using typed_register[OF _ accepted_args_typed[OF Some], of _ b]
    by (simp add: handle_register_accepted[OF Some] apply_register_fields)
qed

lemma forget_agent_typed: "typed_endpoints b \<Longrightarrow> typed_endpoints (forget_agent c b)"
  by (simp add: typed_endpoints_def forget_agent_fields reg_gets)

lemma handle_deregister_typed: "typed_endpoints b \<Longrightarrow> typed_endpoints (snd (handle_deregister auth rq b))"
  using forget_agent_typed[of b] typed_frame[OF audit_frame(1)]
  by (simp add: handle_deregister_def Let_def)

lemma mailbox_ep_ok: "c \<noteq> [] \<Longrightarrow> endpoint_ok (mailbox_ep c)"
  by (simp add: endpoint_ok_def mailbox_ep_def DEFAULT_MESSAGE_PATH_def starts_with_def)

lemma handle_poll_typed: "typed_endpoints b \<Longrightarrow> typed_endpoints (snd (handle_poll a who rq b))"
  using typed_register[OF auto_register_fields(1) mailbox_ep_ok, of "poll_id_of who rq" b "mono a"]
  by (simp add: handle_poll_alt Let_def typed_endpoints_def poll_check_frame revive_def)

lemma enqueue_typed: "typed_endpoints (enqueue c raw b) = typed_endpoints b"
  by (simp add: typed_endpoints_def)

lemma handle_send_registry: "registry (snd (fst (handle_send net sleep a who rq b s))) = registry b"
  by (auto simp: handle_send_def handle_message_def Let_def split: sum.splits exn.splits prod.splits)

lemma admitted_typed:
  "authenticated_and_rate_limited q a rq b = (r, b') \<Longrightarrow> typed_endpoints b' = typed_endpoints b"
  by (erule admitted_obtain) (simp add: typed_endpoints_def)

lemma do_GET_typed: "typed_endpoints b \<Longrightarrow> typed_endpoints (snd (do_GET a rq b))"
  by (auto simp: do_GET_def Let_def dest: admitted_typed intro: handle_poll_typed split: prod.splits sum.splits)

lemma do_DELETE_typed: "typed_endpoints b \<Longrightarrow> typed_endpoints (snd (do_DELETE a rq b))"
  by (auto simp: do_DELETE_def dest: admitted_typed intro: handle_deregister_typed split: prod.splits sum.splits)

lemma do_POST_typed: "typed_endpoints b \<Longrightarrow> typed_endpoints (snd (fst (do_POST net sleep a rq b s)))"
  by (auto simp: do_POST_def typed_frame[OF handle_send_registry] dest: admitted_typed intro: handle_register_typed
      split: prod.splits sum.splits)

lemma request_typed:
  "typed_endpoints b \<Longrightarrow> typed_endpoints (snd (fst (handle_request net sleep meth a rq b s)))"
  by (cases meth) (simp_all add: handle_request_def do_GET_typed do_DELETE_typed do_POST_typed)

lemma sweep_agent_typed: "typed_endpoints b \<Longrightarrow> typed_endpoints (sweep_agent now ep b)"
  by (simp add: sweep_agent_def forget_agent_typed split: option.splits)

interpretation typed_sweep: invariant_system "sweep_agent now" typed_endpoints for now
  by unfold_locales (rule sweep_agent_typed)

section \<open>What is accepted is well typed\<close>

lemma handle_send_mail:
  assumes "handle_send net sleep a who rq b s = ((ans, b'), s')" "(c, raw) \<in> set (accepted rq b ans)"
  shows "mail_ok c raw"
proof -
  from assms(2) obtain t m where r: "ans = Answer 202 BEmpty" "read_body rq b = Inr t" "deserialize t = Inr m"
    "raw = serialize m" "c = py_str (recipient (meta m))"
    by (cases "read_body rq b"; cases "deserialize (projr (read_body rq b))") (auto simp: accepted_def split: if_splits)
  then have h: "handle_message net sleep a who m b s = ((ans, b'), s')"
    using assms(1) by (simp add: handle_send_def)
  then obtain d where "queues_for who m b = Some d"
    using handle_message_not_queued(2)[OF _ h] r(1) by (cases "queues_for who m b") auto
  then have "recipient (meta m) = JStr d" by (auto simp: queues_for_def split: if_splits json.splits option.splits)
  with r(4,5) deserialize_canonical[OF r(3)] deserialize_sound[OF r(3)] show ?thesis
    by (simp add: mail_ok_def py_str_def)
qed

lemma do_POST_mail:
  assumes "do_POST net sleep a rq b s = ((ans, b'), s')" "(c, raw) \<in> set (accepted rq b ans)"
  shows "mail_ok c raw"
proof (cases "authenticated_and_rate_limited False a rq b")
  case (Pair r b1)
  obtain y where b1: "b1 = b\<lparr>rate_buckets := y\<rparr>" using admitted_obtain[OF Pair] .
  have 202: "ans = Answer 202 BEmpty" using assms(2) by (simp add: accepted_def split: if_splits)
  then obtain who where r: "r = Inr who"
    using assms(1) Pair admitted_Inl_answer(1)[of False a rq b _ b1] by (cases r) (auto simp: do_POST_def)
  have "rq_path rq \<noteq> ''/agents''"
    using assms(1) Pair r 202 handle_register_not_202[of a who rq b1] by (auto simp: do_POST_def)
  then have "handle_send net sleep a who rq b1 s = ((ans, b'), s')"
    using assms(1) Pair r 202 by (auto simp: do_POST_def write_error_def split: if_splits)
  from handle_send_mail[OF this] assms(2) show ?thesis by (simp add: b1)
qed

definition well_typed :: "'s world \<Rightarrow> bool" where
  "well_typed w \<longleftrightarrow> typed_endpoints (w_broker w) \<and> (\<forall>(c, raw) \<in> set (w_accepted w). mail_ok c raw)"

lemma step_typed:
  assumes "step net sleep w w'" "well_typed w"
  shows "well_typed w'"
  using assms(1)
proof cases
  case (request meth a rq ans b' s')
  then have "typed_endpoints b'"
    using assms(2) request_typed[of "w_broker w" net sleep meth a rq "w_net w"] by (simp add: well_typed_def)
  moreover have "mail_ok c raw" if "meth = POST" "(c, raw) \<in> set (accepted rq (w_broker w) ans)" for c raw
    using do_POST_mail[OF _ that(2)] request(1) that(1) by (simp add: handle_request_def)
  ultimately show ?thesis using assms(2) request(2) by (auto simp: well_typed_def split: if_splits)
next
  case (wake c d now ans b')
  then show ?thesis
    using assms(2) typed_frame[OF poll_check_frame(1), of now c d "w_broker w"] by (simp add: well_typed_def)
next
  case (sweep now)
  then show ?thesis using assms(2) by (simp add: well_typed_def sweep_once_def typed_sweep.fold_keeps)
qed

lemma reachable_typed: "reachable net sleep args s0 w \<Longrightarrow> well_typed w"
proof (induction rule: reachable.induct)
  case (initial b)
  then show ?case
    by (auto simp: start_def well_typed_def typed_endpoints_def broker_init_def dict_simps split: if_splits)
qed (rule step_typed)

lemma of_agent_mem: "x \<in> set (of_agent c xs) \<longleftrightarrow> (c, x) \<in> set xs"
  by (auto simp: of_agent_def image_iff)

lemma subseq_mem: "subseq xs ys \<Longrightarrow> x \<in> set xs \<Longrightarrow> x \<in> set ys"
  by (induction rule: list_emb.induct) auto

section \<open>Reachable states\<close>

text \<open>
  What the broker stores is well typed in every reachable state: each endpoint has an id,
  a host, a port in range for its kind, the scheme http or https and an absolute path; each text
  in a mailbox, and each text handed to a poll, reads as a valid message for that very agent,
  and writing the message gives the text again. So no client ever fails to read its mail.
\<close>

theorem stored_data_well_typed:
  assumes "reachable net sleep args s0 w"
  shows "(\<forall>c ep. dict_get (registry (w_broker w)) c = Some ep \<longrightarrow> endpoint_ok ep) \<and>
    (\<forall>raw \<in> set (box (w_broker w) c). mail_ok c raw) \<and>
    (\<forall>raw. (c, raw) \<in> set (w_delivered w) \<longrightarrow> mail_ok c raw)"
proof -
  have t: "well_typed w" by (rule reachable_typed[OF assms])
  have sub: "subseq (ledger w c) (of_agent c (w_accepted w))"
    using reachable_ledger[OF assms, of c] by simp
  have mail: "mail_ok c raw" if "raw \<in> set (ledger w c)" for raw
  proof -
    have "(c, raw) \<in> set (w_accepted w)"
      using subseq_mem[OF sub that] by (simp add: of_agent_mem)
    then show ?thesis using t by (auto simp: well_typed_def)
  qed
  have "set (ledger w c) = set (of_agent c (w_delivered w)) \<union> set (box (w_broker w) c)" by (simp add: ledger_def)
  then show ?thesis
    using t mail by (simp add: of_agent_mem well_typed_def typed_endpoints_def)
qed

lemma ping_in_box: "box (w_broker ping_world) ''bob'' = [serialize ping]"
  using reachable_ledger[OF ping_reachable, of "''bob''"]
  by (simp add: ledger_def ping_world_def bob_world_def start_def)

theorem stored_data_well_typed_witness: "mail_ok ''bob'' (serialize ping)"
  using stored_data_well_typed[OF ping_reachable, of "''bob''"] by (simp add: ping_in_box)

end
