(* ===== verification/Broker_Threads.thy ===== *)
theory Broker_Threads
  imports Broker_Typing
begin

text \<open>
  The broker's threads, access by access. \<open>ThreadingHTTPServer\<close> runs every request in a thread
  of its own, beside the sweep thread, and the handlers of \<open>broker/server.py\<close> take one lock
  after the other. Here a handler is a program of accesses: each block under one lock, and each
  single read without one, is an atom; between two atoms any other thread may run. A handler
  that runs alone does what its definition in \<open>Broker\<close> says; what other schedules do is the
  subject of \<open>Broker_Races\<close>. The clock readings of one handler are those of its \<open>ambient\<close>.
\<close>

section \<open>Programs of atoms\<close>

datatype ('st, 'a) prog = Ret 'a | Atom "'st \<Rightarrow> 'st \<times> ('st, 'a) prog"

primrec run_prog :: "('st, 'a) prog \<Rightarrow> 'st \<Rightarrow> 'st \<times> 'a" where
  "run_prog (Ret x) = (\<lambda>s. (s, x))"
| "run_prog (Atom f) = (\<lambda>s. case map_prod id run_prog (f s) of (s', r) \<Rightarrow> r s')"

primrec bind_prog :: "('st, 'a) prog \<Rightarrow> ('a \<Rightarrow> ('st, 'b) prog) \<Rightarrow> ('st, 'b) prog" where
  "bind_prog (Ret x) = (\<lambda>k. k x)"
| "bind_prog (Atom f) = (\<lambda>k. Atom (\<lambda>s. case map_prod id bind_prog (f s) of (s', r) \<Rightarrow> (s', r k)))"

definition seq_prog :: "('st, 'a) prog \<Rightarrow> ('st, 'b) prog \<Rightarrow> ('st, 'b) prog" where
  "seq_prog p q = bind_prog p (\<lambda>_. q)"

text \<open>An access to the broker, a change of it, a look at it; \<open>'s\<close> is the world of the network.\<close>

type_synonym ('s, 'a) handler = "(broker \<times> 's, 'a) prog"

definition access :: "(broker \<Rightarrow> broker \<times> 'a) \<Rightarrow> ('s, 'a) handler" where
  "access f = Atom (\<lambda>st. case f (fst st) of (b, x) \<Rightarrow> ((b, snd st), Ret x))"

definition update :: "(broker \<Rightarrow> broker) \<Rightarrow> ('s, unit) handler" where
  "update f = access (\<lambda>b. (f b, ()))"

definition look :: "(broker \<Rightarrow> 'a) \<Rightarrow> ('s, 'a) handler" where
  "look f = access (\<lambda>b. (b, f b))"

lemma run_Atom [simp]: "run_prog (Atom f) s = (case f s of (s', p) \<Rightarrow> run_prog p s')"
  by (simp add: split_beta)

lemma bind_Atom [simp]: "bind_prog (Atom f) k = Atom (\<lambda>s. case f s of (s', p) \<Rightarrow> (s', bind_prog p k))"
  by (simp add: split_beta)

declare run_prog.simps(2) [simp del] bind_prog.simps(2) [simp del]

lemma prog_induct [case_names Ret Atom, induct type: prog]:
  assumes "\<And>x. P (Ret x)" "\<And>f. (\<And>s. P (snd (f s))) \<Longrightarrow> P (Atom f)"
  shows "P p"
proof (induction p rule: prog.induct)
  case (Atom f)
  then have "P (snd (f s))" for s using snds.intros[of "f s"] by blast
  then show ?case by (rule assms(2))
qed (rule assms(1))

lemma run_bind [simp]: "run_prog (bind_prog p k) s = (case run_prog p s of (s', x) \<Rightarrow> run_prog (k x) s')"
proof (induction p arbitrary: s rule: prog_induct)
  case (Atom f)
  obtain s' p where f: "f s = (s', p)" by (cases "f s")
  have "run_prog (bind_prog p k) s' = (case run_prog p s' of (s', x) \<Rightarrow> run_prog (k x) s')"
    using Atom[of s s'] f by simp
  then show ?case by (simp add: f)
qed simp

lemma run_seq [simp]: "run_prog (seq_prog p q) s = run_prog q (fst (run_prog p s))"
  by (simp add: seq_prog_def split_beta)

lemma run_access [simp]: "run_prog (access f) st = ((fst (f (fst st)), snd st), snd (f (fst st)))"
  by (simp add: access_def split_beta)

lemma run_update [simp]: "run_prog (update f) st = ((f (fst st), snd st), ())"
  by (simp add: update_def)

lemma run_look [simp]: "run_prog (look f) st = (st, f (fst st))"
  by (simp add: look_def)

section \<open>Authentication and rate limits\<close>

definition audit_prog :: "string \<Rightarrow> string \<Rightarrow> string \<Rightarrow> int \<Rightarrow> string \<Rightarrow> ('s, unit) handler" where
  "audit_prog action agent_id path status detail = update (audit action agent_id path status detail)"

text \<open>The bucket is found or made under the lock of the table, and consumed under its own.\<close>

definition get_bucket :: "seconds \<Rightarrow> string \<Rightarrow> broker \<Rightarrow> broker" where
  "get_bucket now agent_id b = b\<lparr>rate_buckets :=
     dict_setdefault agent_id (new_bucket now (rate_limit_per_second b) None) (rate_buckets b)\<rparr>"

definition consume_bucket :: "seconds \<Rightarrow> string \<Rightarrow> broker \<Rightarrow> broker \<times> bool" where
  "consume_bucket now agent_id b = (case dict_get (rate_buckets b) agent_id of
     None \<Rightarrow> (b, True)
   | Some bk \<Rightarrow> (case consume now 1 bk of
       (ok, bk') \<Rightarrow> (b\<lparr>rate_buckets := dict_set agent_id bk' (rate_buckets b)\<rparr>, ok)))"

definition rate_prog :: "seconds \<Rightarrow> string \<Rightarrow> ('s, bool) handler" where
  "rate_prog now agent_id =
     bind_prog (look (\<lambda>b. rate_limit_per_second b \<le> 0)) (\<lambda>off.
       if off then Ret True
       else seq_prog (update (get_bucket now agent_id)) (access (consume_bucket now agent_id)))"

definition admit_prog :: "bool \<Rightarrow> ambient \<Rightarrow> http_request \<Rightarrow> ('s, answer + string) handler" where
  "admit_prog allow_query_token a rq =
     bind_prog (look (authenticate allow_query_token rq)) (\<lambda>r. case r of
       Inl ans \<Rightarrow> Ret (Inl ans)
     | Inr agent_id \<Rightarrow>
         bind_prog (rate_prog (mono a) (if agent_id \<noteq> [] then agent_id else ''__anonymous__'')) (\<lambda>ok.
           Ret (if ok then Inr agent_id else Inl rate_limited)))"

section \<open>Registration and removal\<close>

definition reject_prog :: "int \<Rightarrow> string \<Rightarrow> string \<Rightarrow> ('s, answer) handler" where
  "reject_prog status detail agent_id =
     seq_prog (audit_prog ''register'' agent_id ''/agents'' status detail) (Ret (write_error status detail))"

definition apply_register_prog :: "seconds \<Rightarrow> register_args \<Rightarrow> ('s, unit) handler" where
  "apply_register_prog now v =
     seq_prog (update (\<lambda>b. b\<lparr>registry := reg_register (endpoint_of v) (registry b)\<rparr>))
    (seq_prog (if v_mailbox v
               then update (\<lambda>b. b\<lparr>mailboxes := dict_setdefault (v_agent_id v) [] (mailboxes b)\<rparr>) else Ret ())
    (seq_prog (update (\<lambda>b. b\<lparr>capabilities := dict_set (v_agent_id v) (v_caps v) (capabilities b)\<rparr>))
      (update (\<lambda>b. let b = b\<lparr>last_heartbeat := dict_set (v_agent_id v) now (last_heartbeat b)\<rparr>
         in case v_ttl v of
              Some ttl \<Rightarrow> b\<lparr>ttl_seconds := dict_set (v_agent_id v) ttl (ttl_seconds b)\<rparr>
            | None \<Rightarrow>
                if v_is_new v
                then b\<lparr>ttl_seconds := dict_set (v_agent_id v) (default_ttl_seconds b) (ttl_seconds b)\<rparr>
                else b))))"

text \<open>
  The body is read and checked with one access, the lookup that tells a new agent from a known
  one; the limits it reads never change.
\<close>

definition register_prog :: "ambient \<Rightarrow> string \<Rightarrow> http_request \<Rightarrow> ('s, answer) handler" where
  "register_prog a auth_id rq =
     bind_prog (look (read_body rq)) (\<lambda>body. case body of
       Inl ans \<Rightarrow> Ret ans
     | Inr raw \<Rightarrow> (case loads raw of
         None \<Rightarrow> reject_prog 400 ''invalid JSON body'' ''unknown''
       | Some v \<Rightarrow> (case as_dict v of
           None \<Rightarrow> reject_prog 400 ''body must be a JSON object'' ''unknown''
         | Some data \<Rightarrow> bind_prog (look (validate_register_payload data auth_id)) (\<lambda>checked. case checked of
             Inl (status, detail, who) \<Rightarrow> reject_prog status detail who
           | Inr v \<Rightarrow>
               let status = (if v_is_new v then 201 else 200)
               in seq_prog (apply_register_prog (mono a) v)
                 (seq_prog (audit_prog ''register'' (v_agent_id v) ''/agents'' status
                    (if v_is_new v then ''created'' else ''updated''))
                  (Ret (Answer status (BJson (JDict [(''agent_id'', JStr (v_agent_id v))])))))))))"

definition forget_prog :: "string \<Rightarrow> ('s, unit) handler" where
  "forget_prog agent_id =
     seq_prog (update (\<lambda>b. b\<lparr>registry := suppress_not_found (registry b) (reg_unregister agent_id (registry b))\<rparr>))
    (seq_prog (update (\<lambda>b. b\<lparr>capabilities := dict_pop agent_id (capabilities b)\<rparr>))
    (seq_prog (update (\<lambda>b. b\<lparr>last_heartbeat := dict_pop agent_id (last_heartbeat b),
                             ttl_seconds := dict_pop agent_id (ttl_seconds b)\<rparr>))
      (update (\<lambda>b. b\<lparr>mailboxes := dict_pop agent_id (mailboxes b)\<rparr>))))"

definition deregister_prog :: "string \<Rightarrow> http_request \<Rightarrow> ('s, answer) handler" where
  "deregister_prog auth_id rq =
     (let agent_id = parse_agent_id_from_path (rq_path rq)
      in if agent_id = [] then
           seq_prog (audit_prog ''deregister'' ''unknown'' (rq_path rq) 400 ''missing agent_id in path'')
             (Ret (write_error 400 ''missing agent_id in path''))
         else if auth_id \<noteq> [] \<and> agent_id \<noteq> auth_id then
           seq_prog (audit_prog ''deregister'' auth_id (rq_path rq) 403 ''agent_id does not match token'')
             (Ret (write_error 403 ''agent_id does not match token''))
         else
           seq_prog (forget_prog agent_id)
          (seq_prog (audit_prog ''deregister'' agent_id (''/agents/'' @ agent_id) 204 ''deregistered'')
             (Ret (Answer 204 BEmpty))))"

section \<open>Sending\<close>

definition traffic_prog :: "ambient \<Rightarrow> message \<Rightarrow> traffic_disposition \<Rightarrow> int \<Rightarrow> ('s, unit) handler" where
  "traffic_prog a m disposition status = update (record_traffic a m disposition status)"

text \<open>A refusal or an answer: its traffic record, its audit record, the response.\<close>

definition send_answer_prog ::
  "ambient \<Rightarrow> string \<Rightarrow> message \<Rightarrow> traffic_disposition \<Rightarrow> int \<Rightarrow> string \<Rightarrow> answer \<Rightarrow> ('s, answer) handler" where
  "send_answer_prog a auth_id m disposition status detail ans =
     seq_prog (traffic_prog a m disposition status)
    (seq_prog (audit_prog ''send'' auth_id ''/messages'' status detail) (Ret ans))"

text \<open>
  A direct delivery looks the recipient up, which is all that \<open>route_send\<close> takes from the broker,
  and then talks to the network. The exchange with its retries is one atom: it changes the world
  of the network only.
\<close>

definition network :: "('s \<Rightarrow> 'a \<times> 's) \<Rightarrow> ('s, 'a) handler" where
  "network f = Atom (\<lambda>(b, s). case f s of (r, s') \<Rightarrow> ((b, s'), Ret r))"

definition route_prog ::
  "'s exchange \<Rightarrow> (seconds \<Rightarrow> 's \<Rightarrow> 's) \<Rightarrow> ambient \<Rightarrow> message \<Rightarrow> ('s, (int \<times> string option) result) handler" where
  "route_prog net sleep a m = bind_prog (look (\<lambda>b. b)) (\<lambda>b. network (route_send net sleep a m b))"

text \<open>
  The recipient is looked up with one access and, when it pulls, its mailbox is appended to with
  another.
\<close>

definition message_prog ::
  "'s exchange \<Rightarrow> (seconds \<Rightarrow> 's \<Rightarrow> 's) \<Rightarrow> ambient \<Rightarrow> string \<Rightarrow> message \<Rightarrow> ('s, answer) handler" where
  "message_prog net sleep a auth_id m =
     (let rcpt = recipient (meta m)
      in if auth_id \<noteq> [] \<and> sender (meta m) \<noteq> JStr auth_id then
           send_answer_prog a auth_id m REJECTED 403 ''sender does not match authenticated agent''
             (write_error 403 ''sender does not match authenticated agent'')
         else if \<not> py_truthy rcpt then
           send_answer_prog a auth_id m REJECTED 400 ''missing recipient''
             (write_error 400 ''metadata.recipient is required'')
         else bind_prog (look (\<lambda>b. reg_lookup_value rcpt (registry b))) (\<lambda>found. case found of
           Inl (AgentNotFoundError _) \<Rightarrow>
             send_answer_prog a auth_id m UNKNOWN_RECIPIENT 404 (''unknown recipient: '' @ py_str rcpt)
               (Answer 404 (BText (serialize (error_to (iso_now a) (fresh_id a) m UNKNOWN_RECIPIENT_CODE
                 (''unknown recipient: '' @ py_str rcpt) None []))))
         | Inl e \<Rightarrow> Ret (Died e)
         | Inr ep \<Rightarrow>
             if ep_mailbox ep then
               seq_prog (update (enqueue (py_str rcpt) (serialize m)))
                 (send_answer_prog a auth_id m QUEUED 202 (''queued for mailbox '' @ py_str rcpt) (Answer 202 BEmpty))
             else bind_prog (route_prog net sleep a m) (\<lambda>r. case r of
                 Inl e \<Rightarrow> Ret (Died e)
               | Inr (status, body_str) \<Rightarrow>
                   send_answer_prog a auth_id m ROUTED status (''recipient='' @ py_str rcpt)
                     (Answer status (case body_str of Some t \<Rightarrow> BText t | None \<Rightarrow> BEmpty)))))"

definition send_prog ::
  "'s exchange \<Rightarrow> (seconds \<Rightarrow> 's \<Rightarrow> 's) \<Rightarrow> ambient \<Rightarrow> string \<Rightarrow> http_request \<Rightarrow> ('s, answer) handler" where
  "send_prog net sleep a auth_id rq =
     bind_prog (look (read_body rq)) (\<lambda>body. case body of
       Inl ans \<Rightarrow> Ret ans
     | Inr raw \<Rightarrow> (case deserialize raw of
         Inl e \<Rightarrow>
           if is_protocol_error e then
             seq_prog (audit_prog ''send'' auth_id ''/messages'' 400 (''deserialization error: '' @ exn_str e))
               (Ret (write_error 400 (exn_str e)))
           else Ret (Died e)
       | Inr m \<Rightarrow> message_prog net sleep a auth_id m))"

section \<open>Polling\<close>

definition auto_register_prog :: "seconds \<Rightarrow> string \<Rightarrow> ('s, unit) handler" where
  "auto_register_prog now agent_id =
     seq_prog (update (\<lambda>b. b\<lparr>registry := reg_register \<lparr>ep_agent_id = agent_id, ep_host = ''mailbox'', ep_port = 0,
        ep_scheme = ''http'', ep_path = DEFAULT_MESSAGE_PATH, ep_mailbox = True\<rparr> (registry b)\<rparr>))
    (seq_prog (update (\<lambda>b. b\<lparr>mailboxes := dict_setdefault agent_id [] (mailboxes b)\<rparr>))
    (seq_prog (update (\<lambda>b. b\<lparr>capabilities := dict_setdefault agent_id [] (capabilities b)\<rparr>))
    (seq_prog (update (\<lambda>b. b\<lparr>last_heartbeat := dict_set agent_id now (last_heartbeat b),
        ttl_seconds := dict_setdefault agent_id (default_ttl_seconds b) (ttl_seconds b)\<rparr>))
      (audit_prog ''auto-register'' agent_id ''/messages'' 200 ''mailbox re-registered on poll''))))"

text \<open>The block under \<open>mailbox_cond\<close>, up to a wait: the answer, and how many messages it took.\<close>

definition take_mail :: "seconds \<Rightarrow> string \<Rightarrow> seconds \<Rightarrow> broker \<Rightarrow> broker \<times> answer \<times> nat option" where
  "take_mail now poll_id deadline b = (case dict_get (mailboxes b) poll_id of
     None \<Rightarrow> (b, Answer 200 (messages_payload []), None)
   | Some mbox \<Rightarrow>
       if mbox = [] \<and> 0 < deadline - now then (b, Waiting poll_id deadline, None)
       else (b\<lparr>mailboxes := dict_set poll_id [] (mailboxes b)\<rparr>, Answer 200 (messages_payload mbox), Some (length mbox)))"

definition poll_check_prog :: "seconds \<Rightarrow> string \<Rightarrow> seconds \<Rightarrow> ('s, answer) handler" where
  "poll_check_prog now poll_id deadline =
     bind_prog (access (take_mail now poll_id deadline)) (\<lambda>(ans, taken). case taken of
          None \<Rightarrow> Ret ans
        | Some n \<Rightarrow> seq_prog (audit_prog ''poll'' poll_id ''/messages'' 200 (''delivered='' @ nat_str n)) (Ret ans))"

definition poll_prog :: "ambient \<Rightarrow> string \<Rightarrow> http_request \<Rightarrow> ('s, answer) handler" where
  "poll_prog a agent_id rq =
     (let query = parse_qs (url_query (rq_path rq));
          poll_id = (if agent_id \<noteq> [] then agent_id else query_first query ''agent_id'' [])
      in if poll_id = [] then Ret (write_error 400 ''agent_id required (auth token or ?agent_id=)'')
         else bind_prog (look (\<lambda>b. dict_has (mailboxes b) poll_id)) (\<lambda>known.
           seq_prog (if known then Ret () else auto_register_prog (mono a) poll_id)
          (seq_prog (update (\<lambda>b. if dict_has (ttl_seconds b) poll_id
             then b\<lparr>last_heartbeat := dict_set poll_id (mono a) (last_heartbeat b)\<rparr> else b))
            (poll_check_prog (mono a) poll_id (mono a + poll_wait query)))))"

section \<open>Dispatch\<close>

text \<open>
  The listing takes a snapshot of the heartbeats and then goes through the capabilities, looking
  each agent up in the registry. The code holds the lock of the capabilities meanwhile; here the
  capabilities are a snapshot as well, and any thread may run between two lookups.
\<close>

primrec entries_prog :: "(string, seconds) dict \<Rightarrow> (string, int) dict \<Rightarrow> seconds \<Rightarrow>
    (string \<times> (string, json) dict) list \<Rightarrow> ('s, agent_entry list) handler" where
  "entries_prog hb ttl now [] = Ret []"
| "entries_prog hb ttl now (c # cs) =
     bind_prog (look (\<lambda>b. build_agent_entry (registry b) (fst c) (snd c) hb ttl now)) (\<lambda>e.
       bind_prog (entries_prog hb ttl now cs) (\<lambda>es. Ret (e # es)))"

definition agents_prog :: "ambient \<Rightarrow> ('s, answer) handler" where
  "agents_prog a =
     bind_prog (look (\<lambda>b. (last_heartbeat b, ttl_seconds b))) (\<lambda>(hb, ttl).
       bind_prog (look capabilities) (\<lambda>cs.
         bind_prog (entries_prog hb ttl (mono a) cs) (\<lambda>es. Ret (Answer 200 (BAgents es)))))"

definition get_prog :: "ambient \<Rightarrow> http_request \<Rightarrow> ('s, answer) handler" where
  "get_prog a rq =
     (if rq_path rq = HEALTH_PATH then Ret (Answer 200 (BJson (JDict [(''status'', JStr ''ok'')])))
      else
        let parsed_path = url_path (rq_path rq)
        in bind_prog (admit_prog (parsed_path \<in> set dashboard_reading_paths) a rq) (\<lambda>r. case r of
             Inl ans \<Rightarrow> Ret ans
           | Inr agent_id \<Rightarrow>
               if parsed_path = ''/agents'' then agents_prog a
               else if parsed_path = ''/traffic'' then look (handle_traffic rq)
               else if parsed_path = DEFAULT_MESSAGE_PATH then poll_prog a agent_id rq
               else bind_prog (look dashboard_enabled) (\<lambda>enabled.
                 Ret (if enabled \<and> (parsed_path = ''/dashboard'' \<or> parsed_path = ''/'') then Answer 200 BHtml
                      else write_error 404 ''not found''))))"

definition post_prog ::
  "'s exchange \<Rightarrow> (seconds \<Rightarrow> 's \<Rightarrow> 's) \<Rightarrow> ambient \<Rightarrow> http_request \<Rightarrow> ('s, answer) handler" where
  "post_prog net sleep a rq =
     bind_prog (admit_prog False a rq) (\<lambda>r. case r of
       Inl ans \<Rightarrow> Ret ans
     | Inr agent_id \<Rightarrow>
         if rq_path rq = ''/agents'' then register_prog a agent_id rq
         else if rq_path rq = DEFAULT_MESSAGE_PATH then send_prog net sleep a agent_id rq
         else Ret (write_error 404 ''not found''))"

definition delete_prog :: "ambient \<Rightarrow> http_request \<Rightarrow> ('s, answer) handler" where
  "delete_prog a rq =
     bind_prog (admit_prog False a rq) (\<lambda>r. case r of
       Inl ans \<Rightarrow> Ret ans
     | Inr agent_id \<Rightarrow>
         if starts_with ''/agents/'' (rq_path rq) then deregister_prog agent_id rq
         else Ret (write_error 404 ''not found''))"

definition request_prog ::
  "'s exchange \<Rightarrow> (seconds \<Rightarrow> 's \<Rightarrow> 's) \<Rightarrow> http_method \<Rightarrow> ambient \<Rightarrow> http_request \<Rightarrow> ('s, answer) handler" where
  "request_prog net sleep meth a rq = (case meth of
     GET \<Rightarrow> get_prog a rq | POST \<Rightarrow> post_prog net sleep a rq | DELETE \<Rightarrow> delete_prog a rq)"

section \<open>The sweep\<close>

definition evict_prog :: "seconds \<Rightarrow> endpoint \<Rightarrow> ('s, unit) handler" where
  "evict_prog now ep =
     bind_prog (look (\<lambda>b. (dict_get (last_heartbeat b) (ep_agent_id ep), dict_get (ttl_seconds b) (ep_agent_id ep),
         mailbox_grace_seconds b))) (\<lambda>r. case r of
       (Some last_hb, Some ttl, grace) \<Rightarrow>
         if ttl \<le> 0 then Ret ()
         else if now - last_hb \<le> of_int ttl + (if ep_mailbox ep then grace else 0) then Ret ()
         else forget_prog (ep_agent_id ep)
     | _ \<Rightarrow> Ret ())"

primrec evict_all_prog :: "seconds \<Rightarrow> endpoint list \<Rightarrow> ('s, unit) handler" where
  "evict_all_prog now [] = Ret ()"
| "evict_all_prog now (ep # eps) = seq_prog (evict_prog now ep) (evict_all_prog now eps)"

definition sweep_prog :: "seconds \<Rightarrow> ('s, unit) handler" where
  "sweep_prog now = bind_prog (look (\<lambda>b. list_agents (registry b))) (evict_all_prog now)"

section \<open>A handler that runs alone\<close>

text \<open>Each program, run without interruption, is the handler of \<open>Broker\<close>.\<close>

lemma set_setdefault: "dict_set k v (dict_setdefault k x d) = dict_set k v d"
proof -
  have "AList.update k v (AList.update k x d) = AList.update k v d" by (induction d) auto
  then show ?thesis by (simp add: dict_setdefault_def dict_set_def split: option.split)
qed

lemma run_audit [simp]: "run_prog (audit_prog ac who path status detail) st = ((audit ac who path status detail (fst st), snd st), ())"
  by (simp add: audit_prog_def)

lemma run_reject [simp]:
  "run_prog (reject_prog status detail who) st =
    ((snd (reject status detail who (fst st)), snd st), fst (reject status detail who (fst st)))"
  by (simp add: reject_prog_def reject_def)

lemma run_rate:
  "run_prog (rate_prog now k) st =
    ((snd (check_rate_limit now k (fst st)), snd st), fst (check_rate_limit now k (fst st)))"
  by (cases "dict_get (rate_buckets (fst st)) k")
    (auto simp: rate_prog_def get_bucket_def consume_bucket_def check_rate_limit_def Let_def dict_simps set_setdefault split: prod.split)

lemma run_admit:
  "run_prog (admit_prog q a rq) st =
    ((snd (authenticated_and_rate_limited q a rq (fst st)), snd st), fst (authenticated_and_rate_limited q a rq (fst st)))"
  by (auto simp: admit_prog_def authenticated_and_rate_limited_def Let_def run_rate split: sum.split prod.split bool.split)

lemma run_apply_register: "run_prog (apply_register_prog now v) st = ((apply_register now v (fst st), snd st), ())"
  by (simp add: apply_register_prog_def apply_register_def Let_def split: option.split)

lemma run_register:
  "run_prog (register_prog a who rq) st =
    ((snd (handle_register a who rq (fst st)), snd st), fst (handle_register a who rq (fst st)))"
  by (simp add: register_prog_def handle_register_def Let_def run_apply_register split: sum.split option.split prod.split)

lemma run_forget: "run_prog (forget_prog c) st = ((forget_agent c (fst st), snd st), ())"
  by (simp add: forget_prog_def forget_agent_def Let_def)

lemma run_deregister:
  "run_prog (deregister_prog who rq) st =
    ((snd (handle_deregister who rq (fst st)), snd st), fst (handle_deregister who rq (fst st)))"
  by (simp add: deregister_prog_def handle_deregister_def Let_def run_forget)

lemma run_send_answer:
  "run_prog (send_answer_prog a who m disp status detail ans) st =
    ((audit ''send'' who ''/messages'' status detail (record_traffic a m disp status (fst st)), snd st), ans)"
  by (simp add: send_answer_prog_def traffic_prog_def)

text \<open>The result of a handler of a send, in the shape of a run.\<close>

definition as_run :: "(answer \<times> broker) \<times> 's \<Rightarrow> (broker \<times> 's) \<times> answer" where
  "as_run r = ((snd (fst r), snd r), fst (fst r))"

lemma run_route:
  "run_prog (route_prog net sleep a m) (b, s) = (case route_send net sleep a m b s of (r, s') \<Rightarrow> ((b, s'), r))"
  by (simp add: route_prog_def network_def split_beta)

lemma run_message: "run_prog (message_prog net sleep a who m) (b, s) = as_run (handle_message net sleep a who m b s)"
  by (auto simp: message_prog_def run_route handle_message_def as_run_def Let_def run_send_answer
      split: sum.split exn.split prod.split option.split)

lemma run_send: "run_prog (send_prog net sleep a who rq) (b, s) = as_run (handle_send net sleep a who rq b s)"
  by (auto simp: send_prog_def handle_send_def run_message split: sum.split) (simp_all add: as_run_def)

lemma run_auto_register:
  "run_prog (auto_register_prog now c) st = ((auto_register_mailbox now c (fst st), snd st), ())"
  by (simp add: auto_register_prog_def auto_register_mailbox_def Let_def)

lemma run_poll_check:
  "run_prog (poll_check_prog now c d) st = ((snd (poll_check now c d (fst st)), snd st), fst (poll_check now c d (fst st)))"
  by (auto simp: poll_check_prog_def take_mail_def poll_check_def split: option.split)

lemma run_poll:
  "run_prog (poll_prog a who rq) st = ((snd (handle_poll a who rq (fst st)), snd st), fst (handle_poll a who rq (fst st)))"
  by (simp add: poll_prog_def handle_poll_def Let_def run_poll_check run_auto_register)

lemma run_entries: "run_prog (entries_prog hb ttl now cs) st =
    (st, map (\<lambda>(agent_id, caps). build_agent_entry (registry (fst st)) agent_id caps hb ttl now) cs)"
  by (induction cs) (simp_all add: split_beta)

lemma run_agents: "run_prog (agents_prog a) st = (st, handle_agents a (fst st))"
  by (simp add: agents_prog_def handle_agents_def run_entries)

lemma run_evict: "run_prog (evict_prog now ep) st = ((sweep_agent now ep (fst st), snd st), ())"
  by (auto simp: evict_prog_def sweep_agent_def run_forget split: option.split)

lemma run_evict_all: "run_prog (evict_all_prog now eps) st = ((fold (sweep_agent now) eps (fst st), snd st), ())"
  by (induction eps arbitrary: st) (simp_all add: run_evict)

lemma run_sweep: "run_prog (sweep_prog now) st = ((sweep_once now (fst st), snd st), ())"
  by (simp add: sweep_prog_def sweep_once_def run_evict_all)

lemma run_get: "run_prog (get_prog a rq) (b, s) = ((snd (do_GET a rq b), s), fst (do_GET a rq b))"
  by (auto simp: get_prog_def do_GET_def Let_def run_admit run_agents run_poll DEFAULT_MESSAGE_PATH_def split: sum.split prod.split)

lemma run_post: "run_prog (post_prog net sleep a rq) (b, s) = as_run (do_POST net sleep a rq b s)"
  by (auto simp: post_prog_def do_POST_def Let_def run_admit run_register run_send split: sum.split prod.split)
    (simp_all add: as_run_def)

lemma run_delete: "run_prog (delete_prog a rq) (b, s) = ((snd (do_DELETE a rq b), s), fst (do_DELETE a rq b))"
  by (auto simp: delete_prog_def do_DELETE_def Let_def run_admit run_deregister split: sum.split prod.split)

lemma run_request: "run_prog (request_prog net sleep meth a rq) (b, s) = as_run (handle_request net sleep meth a rq b s)"
  by (cases meth) (simp_all add: request_prog_def handle_request_def run_get run_post run_delete as_run_def)

end
