(* ===== verification/Broker_Races.thy ===== *)
theory Broker_Races
  imports Broker_Threads
begin

text \<open>
  Interleavings of the broker's threads. A schedule says which thread makes its next access. What
  every schedule keeps is proved from the accesses one by one: the types of the stored data and
  the bounds. Requests of different agents do not disturb each other. Requests for the same agent
  can: the lookup of a recipient and the append to its mailbox are two accesses, and so are the
  test for an expired heartbeat and the eviction.
\<close>

section \<open>Schedules\<close>

fun step_thread :: "nat \<Rightarrow> ('st, 'a) prog list \<times> 'st \<Rightarrow> ('st, 'a) prog list \<times> 'st" where
  "step_thread i (ps, s) =
     (if i < length ps
      then (case ps ! i of Ret x \<Rightarrow> (ps, s) | Atom f \<Rightarrow> (case f s of (s', p) \<Rightarrow> (ps[i := p], s')))
      else (ps, s))"

definition run_schedule :: "nat list \<Rightarrow> ('st, 'a) prog list \<times> 'st \<Rightarrow> ('st, 'a) prog list \<times> 'st" where
  "run_schedule is w = fold step_thread is w"

lemma run_schedule_simps [simp]:
  "run_schedule [] w = w" "run_schedule (i # is) w = run_schedule is (step_thread i w)"
  "run_schedule (is @ js) w = run_schedule js (run_schedule is w)"
  by (simp_all add: run_schedule_def)

text \<open>A turn changes something only if the thread exists and has an access to make.\<close>

definition to_move :: "('st, 'a) prog list \<Rightarrow> nat \<Rightarrow> bool" where
  "to_move ps i \<longleftrightarrow> i < length ps \<and> (\<exists>f. ps ! i = Atom f)"

lemma turn_cases:
  obtains (idle) "\<not> to_move ps i" "step_thread i (ps, st) = (ps, st)"
    | (moves) f where "to_move ps i" "i < length ps" "ps ! i = Atom f"
        "step_thread i (ps, st) = (ps[i := snd (f st)], fst (f st))"
proof (cases "to_move ps i")
  case True
  then obtain f where "i < length ps" "ps ! i = Atom f" unfolding to_move_def by blast
  then show thesis using True by (intro moves) (simp_all add: split_beta)
next
  case False
  then have "step_thread i (ps, st) = (ps, st)" unfolding to_move_def by (cases "ps ! i") auto
  with False show thesis by (rule idle)
qed

section \<open>What every schedule keeps\<close>

text \<open>Each access of the program keeps \<open>good\<close>, and what the program returns satisfies \<open>post\<close>.\<close>

inductive keeps :: "('st \<Rightarrow> bool) \<Rightarrow> ('a \<Rightarrow> bool) \<Rightarrow> ('st, 'a) prog \<Rightarrow> bool"
  for good :: "'st \<Rightarrow> bool" and post :: "'a \<Rightarrow> bool" where
  keeps_Ret: "post x \<Longrightarrow> keeps good post (Ret x)"
| keeps_Atom: "(\<And>s. good s \<Longrightarrow> good (fst (f s))) \<Longrightarrow> (\<And>s. good s \<Longrightarrow> keeps good post (snd (f s))) \<Longrightarrow>
    keeps good post (Atom f)"

inductive_simps keeps_simps [simp]: "keeps good post (Ret x)" "keeps good post (Atom f)"

lemma keeps_bind: "keeps good mid p \<Longrightarrow> (\<And>x. mid x \<Longrightarrow> keeps good post (k x)) \<Longrightarrow> keeps good post (bind_prog p k)"
  by (induction p rule: keeps.induct) (auto simp: split_beta)

lemma keeps_seq: "keeps good (\<lambda>_. True) p \<Longrightarrow> keeps good post q \<Longrightarrow> keeps good post (seq_prog p q)"
  unfolding seq_prog_def by (rule keeps_bind)

lemma keeps_mono: "keeps good mid p \<Longrightarrow> (\<And>x. mid x \<Longrightarrow> post x) \<Longrightarrow> keeps good post p"
  by (induction p rule: keeps.induct) auto

text \<open>A schedule is a run of turns: the invariant of the atoms is the invariant of every schedule.\<close>

definition all_keep :: "('st \<Rightarrow> bool) \<Rightarrow> ('a \<Rightarrow> bool) \<Rightarrow> ('st, 'a) prog list \<times> 'st \<Rightarrow> bool" where
  "all_keep good post w \<longleftrightarrow> good (snd w) \<and> (\<forall>p \<in> set (fst w). keeps good post p)"

lemma turn_keeps: "all_keep good post w \<Longrightarrow> all_keep good post (step_thread i w)"
proof (cases rule: turn_cases[of "fst w" i "snd w"])
  case (moves f)
  assume w: "all_keep good post w"
  then have "keeps good post (Atom f)" using moves(2,3) nth_mem[of i "fst w"] unfolding all_keep_def by metis
  with w show ?thesis using moves(4) by (auto simp: all_keep_def dest!: set_update_subset_insert[THEN subsetD])
qed simp

interpretation keeping_turns: invariant_system step_thread "all_keep good post" for good post
  by unfold_locales (rule turn_keeps)

interpretation thread_count: framed_system step_thread "\<lambda>w. length (fst w)"
proof unfold_locales
  show "length (fst (step_thread i w)) = length (fst w)" for i :: nat and w :: "('a, 'b) prog list \<times> 'a"
    by (cases rule: turn_cases[of "fst w" i "snd w"]) simp_all
qed

lemma run_keeps: "all_keep good post w \<Longrightarrow> all_keep good post (run_schedule is w)"
  unfolding run_schedule_def by (rule keeping_turns.fold_keeps)

lemma run_length: "length (fst (run_schedule is w)) = length (fst w)"
  unfolding run_schedule_def by (rule thread_count.fold_view)

section \<open>The accesses of the broker\<close>

text \<open>
  The part of the broker's invariant that no interleaving breaks: the types of endpoints and
  mail, the keys of the registry, the length of the traffic buffer and the configuration.
\<close>

definition sound_store :: "broker \<Rightarrow> bool" where
  "sound_store b \<longleftrightarrow> typed_endpoints b \<and> (\<forall>c. \<forall>raw \<in> set (box b c). mail_ok c raw) \<and>
     (\<forall>c ep. dict_get (registry b) c = Some ep \<longrightarrow> ep_agent_id ep = c) \<and>
     length (traffic_buffer b) \<le> traffic_maxlen b"

abbreviation store_of :: "broker \<Rightarrow> broker \<times> 's \<Rightarrow> bool" where
  "store_of b0 st \<equiv> sound_store (fst st) \<and> config (fst st) = config b0"

lemma store_fields [simp]:
  "sound_store (b\<lparr>capabilities := x1\<rparr>) = sound_store b" "sound_store (b\<lparr>last_heartbeat := x2\<rparr>) = sound_store b"
  "sound_store (b\<lparr>ttl_seconds := x3\<rparr>) = sound_store b" "sound_store (b\<lparr>rate_buckets := x4\<rparr>) = sound_store b"
  "sound_store (b\<lparr>audit_log := x5\<rparr>) = sound_store b"
  by (simp_all add: sound_store_def typed_endpoints_def box_def)

lemma config_fields [simp]:
  "config (b\<lparr>capabilities := x1\<rparr>) = config b" "config (b\<lparr>last_heartbeat := x2\<rparr>) = config b"
  "config (b\<lparr>ttl_seconds := x3\<rparr>) = config b" "config (b\<lparr>rate_buckets := x4\<rparr>) = config b"
  "config (b\<lparr>registry := x6\<rparr>) = config b" "config (b\<lparr>mailboxes := x7\<rparr>) = config b"
  by (simp_all add: config_def)

lemma store_audit [simp]: "sound_store (audit x1 x2 x3 x4 x5 b) = sound_store b"
  by (simp add: audit_def)

lemma store_traffic: "sound_store b \<Longrightarrow> sound_store (record_traffic a m d st b)"
  by (simp add: sound_store_def record_traffic_def typed_endpoints_def box_def deque_append_def)

lemma store_register: "sound_store b \<Longrightarrow> endpoint_ok ep \<Longrightarrow> sound_store (b\<lparr>registry := reg_register ep (registry b)\<rparr>)"
  by (simp add: sound_store_def typed_endpoints_def reg_gets box_def)

lemma store_unregister:
  "sound_store b \<Longrightarrow> sound_store (b\<lparr>registry := suppress_not_found (registry b) (reg_unregister c (registry b))\<rparr>)"
  by (simp add: sound_store_def typed_endpoints_def reg_gets box_def)

lemma store_boxes:
  "sound_store b \<Longrightarrow> sound_store (b\<lparr>mailboxes := dict_setdefault c [] (mailboxes b)\<rparr>)"
  "sound_store b \<Longrightarrow> sound_store (b\<lparr>mailboxes := dict_pop c (mailboxes b)\<rparr>)"
  "sound_store b \<Longrightarrow> sound_store (b\<lparr>mailboxes := dict_set c [] (mailboxes b)\<rparr>)"
  by (auto simp: sound_store_def typed_endpoints_def box_def dict_simps split: option.splits if_splits)

lemma store_enqueue: "sound_store b \<Longrightarrow> mail_ok c raw \<Longrightarrow> sound_store (enqueue c raw b)"
  by (auto simp: sound_store_def typed_endpoints_def box_enqueue traffic_maxlen_enqueue)

lemmas store_intros = store_traffic store_register store_unregister store_boxes store_enqueue

lemma keeps_access:
  assumes "\<And>b. sound_store b \<Longrightarrow> sound_store (fst (f b))" "\<And>b. config (fst (f b)) = config b"
    and "\<And>b. sound_store b \<Longrightarrow> post (snd (f b))"
  shows "keeps (store_of b0) post (access f)"
  using assms by (simp add: access_def split_beta)

lemma keeps_update: "(\<And>b. sound_store b \<Longrightarrow> sound_store (f b)) \<Longrightarrow> (\<And>b. config (f b) = config b) \<Longrightarrow> post () \<Longrightarrow>
    keeps (store_of b0) post (update f)"
  unfolding update_def by (rule keeps_access) simp_all

lemma keeps_look: "(\<And>b. sound_store b \<Longrightarrow> post (f b)) \<Longrightarrow> keeps (store_of b0) post (look f)"
  unfolding look_def by (rule keeps_access) simp_all

lemma config_fixed:
  assumes "config b = config b'"
  shows "default_ttl_seconds b = default_ttl_seconds b'" "agent_tokens b = agent_tokens b'"
    "token_to_agent b = token_to_agent b'" "max_body_size b = max_body_size b'"
    "rate_limit_per_second b = rate_limit_per_second b'" "dashboard_enabled b = dashboard_enabled b'"
  using assms by (simp_all add: config_def)

lemma authenticate_config:
  assumes "config b = config b'"
  shows "authenticate q rq b = authenticate q rq b'"
  unfolding authenticate_def config_fixed[OF assms] by (rule refl)

lemma read_body_config:
  assumes "config b = config b'"
  shows "read_body rq b = read_body rq b'"
  unfolding read_body_def config_fixed[OF assms] by (rule refl)

section \<open>The handlers\<close>

text \<open>An answer that hands out mail hands out readable mail of one agent.\<close>

definition good_answer :: "answer \<Rightarrow> bool" where
  "good_answer ans \<longleftrightarrow> (\<exists>c. \<forall>(_, raw) \<in> set (delivered c ans). mail_ok c raw)"

lemma good_answers [simp]:
  "good_answer (write_error st msg)" "good_answer (Died e)" "good_answer (Waiting c d)" "good_answer (Answer st BEmpty)"
  "good_answer (Answer st (BText t))" "good_answer (Answer st BHtml)" "good_answer (Answer st (BAgents es))"
  "good_answer (Answer st (BTraffic rs))" "good_answer rate_limited"
  "good_answer (Answer st (BJson (JDict [(''agent_id'', v)])))" "good_answer (Answer st (BJson (JDict [(''status'', v)])))"
  by (simp_all add: good_answer_def) (simp_all add: delivered_def split: json.splits)

lemma good_messages: "\<forall>raw \<in> set ms. mail_ok c raw \<Longrightarrow> good_answer (Answer 200 (messages_payload ms))"
  unfolding good_answer_def by (rule exI[of _ c]) auto

lemma keeps_read_body:
  "keeps (store_of b0) (\<lambda>r. case r of Inl ans \<Rightarrow> good_answer ans | Inr _ \<Rightarrow> True) (look (read_body rq))"
  by (rule keeps_look) (auto simp: read_body_def good_answer_def delivered_def split: option.split)

lemma authenticate_good: "authenticate q rq b = Inl ans \<Longrightarrow> good_answer ans"
  by (drule authenticate_Inl) auto

lemma keeps_audit: "keeps (store_of b0) (\<lambda>_. True) (audit_prog ac who path status detail)"
  unfolding audit_prog_def by (rule keeps_update) simp_all

lemma keeps_reject: "keeps (store_of b0) good_answer (reject_prog status detail who)"
  unfolding reject_prog_def by (intro keeps_seq keeps_audit) simp

lemma keeps_rate: "keeps (store_of b0) (\<lambda>_. True) (rate_prog now k)"
proof -
  have "keeps (store_of b0) (\<lambda>_. True) (access (consume_bucket now k))"
    by (rule keeps_access) (simp_all add: consume_bucket_def split: option.split prod.split)
  then show ?thesis
    unfolding rate_prog_def
    by (intro keeps_bind[where mid = "\<lambda>_. True"] keeps_look)
      (auto intro!: keeps_seq keeps_update simp: get_bucket_def)
qed

lemma keeps_admit:
  "keeps (store_of b0) (\<lambda>r. case r of Inl ans \<Rightarrow> good_answer ans | Inr _ \<Rightarrow> True) (admit_prog q a rq)"
  unfolding admit_prog_def
proof (rule keeps_bind)
  show "keeps (store_of b0) (\<lambda>r. case r of Inl ans \<Rightarrow> good_answer ans | Inr _ \<Rightarrow> True) (look (authenticate q rq))"
    by (rule keeps_look) (auto dest: authenticate_good split: sum.split)
qed (auto intro!: keeps_bind[OF keeps_rate] split: sum.split)

lemma keeps_apply_register:
  "endpoint_ok (endpoint_of v) \<Longrightarrow> keeps (store_of b0) (\<lambda>_. True) (apply_register_prog now v)"
  unfolding apply_register_prog_def
  by (intro keeps_seq keeps_update) (auto intro!: keeps_update store_intros simp: Let_def split: option.split)

lemma keeps_checked:
  "keeps (store_of b0) (\<lambda>r. case r of Inl _ \<Rightarrow> True | Inr v \<Rightarrow> endpoint_ok (endpoint_of v))
    (look (validate_register_payload data who))"
  by (rule keeps_look) (auto dest: validate_register_typed split: sum.split)

lemma keeps_register: "keeps (store_of b0) good_answer (register_prog a who rq)"
  unfolding register_prog_def
  by (rule keeps_bind[OF keeps_read_body])
    (auto intro!: keeps_reject keeps_bind[OF keeps_checked] keeps_seq keeps_apply_register keeps_audit
      simp: Let_def split: sum.splits option.split)

lemma keeps_forget: "keeps (store_of b0) (\<lambda>_. True) (forget_prog c)"
  unfolding forget_prog_def by (intro keeps_seq keeps_update) (auto intro: store_intros)

lemma keeps_deregister: "keeps (store_of b0) good_answer (deregister_prog who rq)"
  unfolding deregister_prog_def by (auto intro!: keeps_seq keeps_forget keeps_audit simp: Let_def)

lemma keeps_traffic: "keeps (store_of b0) (\<lambda>_. True) (traffic_prog a m disp st)"
  unfolding traffic_prog_def by (rule keeps_update) (simp_all add: store_traffic)

lemma keeps_send_answer: "good_answer ans \<Longrightarrow> keeps (store_of b0) good_answer (send_answer_prog a who m disp st detail ans)"
  unfolding send_answer_prog_def by (intro keeps_seq keeps_traffic keeps_audit) simp

lemma keeps_route:
  "keeps (store_of b0) (\<lambda>_. True) (route_prog net sleep a m)"
  unfolding route_prog_def
  by (rule keeps_bind[where mid = "\<lambda>_. True"]) (auto intro: keeps_look simp: network_def split_beta)

lemma keeps_found:
  "keeps (store_of b0) (\<lambda>r. \<forall>ep. r = Inr ep \<longrightarrow> (\<exists>c. v = JStr c)) (look (\<lambda>b. reg_lookup_value v (registry b)))"
  by (rule keeps_look) (auto simp: reg_lookup_value_def split: json.splits if_splits)

lemma mail_ok_serialize: "deserialize raw = Inr m \<Longrightarrow> recipient (meta m) = JStr c \<Longrightarrow> mail_ok c (serialize m)"
  using deserialize_canonical deserialize_sound by (simp add: mail_ok_def)

lemma keeps_enqueue:
  "mail_ok c raw \<Longrightarrow> keeps (store_of b0) (\<lambda>_. True) (update (enqueue c raw))"
  by (rule keeps_update) (simp_all add: store_enqueue)

lemma keeps_message:
  assumes "deserialize raw = Inr m"
  shows "keeps (store_of b0) good_answer (message_prog net sleep a who m)"
  unfolding message_prog_def Let_def
  by (auto intro!: keeps_send_answer keeps_bind[OF keeps_found] keeps_bind[OF keeps_route] keeps_seq keeps_enqueue
      mail_ok_serialize[OF assms] simp: py_str_def split: sum.split exn.split option.split)

lemma keeps_send: "keeps (store_of b0) good_answer (send_prog net sleep a who rq)"
  unfolding send_prog_def
  by (rule keeps_bind[OF keeps_read_body])
    (auto intro!: keeps_message keeps_seq keeps_audit split: sum.splits)

lemma keeps_auto_register: "c \<noteq> [] \<Longrightarrow> keeps (store_of b0) (\<lambda>_. True) (auto_register_prog now c)"
  unfolding auto_register_prog_def
  by (intro keeps_seq keeps_update keeps_audit)
    (auto intro!: store_intros mailbox_ep_ok[unfolded mailbox_ep_def])

lemma take_mail_store:
  assumes "sound_store b"
  shows "sound_store (fst (take_mail now c d b))" "good_answer (fst (snd (take_mail now c d b)))"
proof -
  have "\<forall>raw \<in> set (box b c). mail_ok c raw" using assms by (simp add: sound_store_def)
  then show "good_answer (fst (snd (take_mail now c d b)))"
    by (auto simp: take_mail_def box_def intro!: good_messages[of _ c] split: option.splits if_splits)
  show "sound_store (fst (take_mail now c d b))"
    using assms by (auto simp: take_mail_def intro!: store_intros split: option.split)
qed

lemma keeps_take_mail: "keeps (store_of b0) (\<lambda>r. good_answer (fst r)) (access (take_mail now c d))"
  by (rule keeps_access) (simp_all add: take_mail_store, simp add: take_mail_def split: option.split)

lemma keeps_poll_check: "keeps (store_of b0) good_answer (poll_check_prog now c d)"
  unfolding poll_check_prog_def
  by (rule keeps_bind[OF keeps_take_mail]) (auto intro!: keeps_seq keeps_audit split: option.split)

lemma keeps_poll: "keeps (store_of b0) good_answer (poll_prog a who rq)"
proof -
  have has: "keeps (store_of b0) (\<lambda>_. True) (look (\<lambda>b. dict_has (mailboxes b) c))" for c
    by (rule keeps_look) simp
  have beat: "keeps (store_of b0) (\<lambda>_. True) (update (\<lambda>b. if dict_has (ttl_seconds b) c
      then b\<lparr>last_heartbeat := dict_set c (mono a) (last_heartbeat b)\<rparr> else b))" for c
    by (rule keeps_update) simp_all
  show ?thesis
    unfolding poll_prog_def Let_def
    by (auto intro!: keeps_bind[OF has] keeps_seq keeps_auto_register keeps_poll_check beat)
qed

lemma keeps_agents: "keeps (store_of b0) good_answer (agents_prog a)"
proof -
  have entries: "keeps (store_of b0) (\<lambda>_. True) (entries_prog hb ttl now cs)" for hb ttl now cs
    by (induction cs) (auto intro!: keeps_bind[where mid = "\<lambda>_. True"] keeps_look)
  show ?thesis
    unfolding agents_prog_def
    by (rule keeps_bind[where mid = "\<lambda>_. True"], rule keeps_look)
      (auto intro!: keeps_bind[where mid = "\<lambda>_. True"] keeps_look entries)
qed

lemma keeps_get: "keeps (store_of b0) good_answer (get_prog a rq)"
proof -
  have traffic: "keeps (store_of b0) good_answer (look (handle_traffic rq))"
    by (rule keeps_look) (simp add: handle_traffic_def Let_def)
  have enabled: "keeps (store_of b0) (\<lambda>_. True) (look dashboard_enabled)" by (rule keeps_look) simp
  show ?thesis
    unfolding get_prog_def Let_def
    by (auto intro!: keeps_bind[OF keeps_admit] keeps_bind[OF enabled] keeps_agents keeps_poll traffic split: sum.splits)
qed

lemma keeps_post: "keeps (store_of b0) good_answer (post_prog net sleep a rq)"
  unfolding post_prog_def
  by (rule keeps_bind[OF keeps_admit]) (auto intro!: keeps_register keeps_send split: sum.splits)

lemma keeps_delete: "keeps (store_of b0) good_answer (delete_prog a rq)"
  unfolding delete_prog_def
  by (rule keeps_bind[OF keeps_admit]) (auto intro!: keeps_deregister split: sum.splits)

lemma keeps_request: "keeps (store_of b0) good_answer (request_prog net sleep meth a rq)"
  by (cases meth) (simp_all add: request_prog_def keeps_get keeps_post keeps_delete)

lemma keeps_evict: "keeps (store_of b0) (\<lambda>_. True) (evict_prog now ep)"
  unfolding evict_prog_def
  by (rule keeps_bind[where mid = "\<lambda>_. True"]) (auto intro!: keeps_look keeps_forget split: option.splits)

lemma keeps_evict_all: "keeps (store_of b0) (\<lambda>_. True) (evict_all_prog now eps)"
  by (induction eps) (auto intro: keeps_seq keeps_evict)

lemma keeps_sweep: "keeps (store_of b0) (\<lambda>_. True) (sweep_prog now)"
  unfolding sweep_prog_def by (rule keeps_bind[where mid = "\<lambda>_. True"]) (auto intro: keeps_look keeps_evict_all)

section \<open>Jobs\<close>

text \<open>What the threads of the broker run: a request, the rest of a long poll that woke up, a sweep.\<close>

datatype job = Request http_method ambient http_request | Wake seconds string seconds | Sweep seconds

fun job_prog :: "'s exchange \<Rightarrow> (seconds \<Rightarrow> 's \<Rightarrow> 's) \<Rightarrow> job \<Rightarrow> ('s, answer option) handler" where
  "job_prog net sleep (Request meth a rq) = bind_prog (request_prog net sleep meth a rq) (\<lambda>ans. Ret (Some ans))"
| "job_prog net sleep (Wake now c deadline) = bind_prog (poll_check_prog now c deadline) (\<lambda>ans. Ret (Some ans))"
| "job_prog net sleep (Sweep now) = seq_prog (sweep_prog now) (Ret None)"

lemma keeps_job: "keeps (store_of b0) (\<lambda>r. \<forall>ans. r = Some ans \<longrightarrow> good_answer ans) (job_prog net sleep j)"
  by (cases j) (auto intro!: keeps_bind[OF keeps_request] keeps_bind[OF keeps_poll_check] keeps_seq keeps_sweep)

text \<open>A job as the handlers of \<open>Broker\<close> do it, in one piece.\<close>

fun do_job :: "'s exchange \<Rightarrow> (seconds \<Rightarrow> 's \<Rightarrow> 's) \<Rightarrow> job \<Rightarrow> broker \<times> 's \<Rightarrow> (broker \<times> 's) \<times> answer option" where
  "do_job net sleep (Request meth a rq) (b, s) =
     (case handle_request net sleep meth a rq b s of ((ans, b'), s') \<Rightarrow> ((b', s'), Some ans))"
| "do_job net sleep (Wake now c deadline) (b, s) =
     (case poll_check now c deadline b of (ans, b') \<Rightarrow> ((b', s), Some ans))"
| "do_job net sleep (Sweep now) (b, s) = ((sweep_once now b, s), None)"

lemma run_job: "run_prog (job_prog net sleep j) st = do_job net sleep j st"
  by (cases j; cases st) (simp_all add: run_request run_poll_check run_sweep as_run_def split_beta)

text \<open>A schedule that gives a thread enough turns in a row runs its program to the end.\<close>

primrec finishes :: "nat \<Rightarrow> ('st, 'a) prog \<Rightarrow> 'st \<Rightarrow> bool" where
  "finishes 0 p s = (case p of Ret _ \<Rightarrow> True | Atom _ \<Rightarrow> False)"
| "finishes (Suc n) p s = (case p of Ret _ \<Rightarrow> True | Atom f \<Rightarrow> (case f s of (s', p') \<Rightarrow> finishes n p' s'))"

lemma finishes_enough: "\<exists>n. finishes n p s"
proof (induction p arbitrary: s rule: prog_induct)
  case (Ret x)
  have "finishes 0 (Ret x) s" by simp
  then show ?case ..
next
  case (Atom f)
  from Atom[of s "fst (f s)"] obtain n where "finishes n (snd (f s)) (fst (f s))" ..
  then have "finishes (Suc n) (Atom f) s" by (simp add: split_beta)
  then show ?case ..
qed

lemma turns_in_a_row:
  assumes "finishes n (ps ! i) s" "i < length ps" "run_prog (ps ! i) s = (s', x)"
  shows "run_schedule (replicate n i) (ps, s) = (ps[i := Ret x], s')"
  using assms
proof (induction n arbitrary: ps s)
  case 0
  then show ?case by (cases "ps ! i") (auto, metis list_update_id)
next
  case (Suc n)
  show ?case
  proof (cases "ps ! i")
    case (Ret y)
    have idle: "run_schedule (replicate k i) (ps, s) = (ps, s)" for k by (induction k) (simp_all add: Ret)
    have "ps[i := Ret x] = ps" "s' = s" using Suc.prems(2,3) Ret by (simp_all add: list_update_same_conv)
    then show ?thesis using idle[of "Suc n"] by simp
  next
    case (Atom f)
    obtain t p where f: "f s = (t, p)" by (cases "f s")
    have "run_schedule (replicate n i) (ps[i := p], t) = ((ps[i := p])[i := Ret x], s')"
      by (rule Suc.IH) (use Suc.prems Atom f in simp_all)
    then show ?thesis using Atom f Suc.prems(2) by simp
  qed
qed

end
