(* ===== verification/Broker_Isolation.thy ===== *)
theory Broker_Isolation
  imports Broker_Races
begin

text \<open>
  Requests of different agents commute. A program is confined to a set of keys when every access
  looks at nothing but the state of these keys and changes nothing else; threads with disjoint
  keys then end as if each had run alone, whatever the schedule.
\<close>

section \<open>Confined programs\<close>

definition agree :: "('k \<Rightarrow> 'st \<Rightarrow> 'v) \<Rightarrow> 'k set \<Rightarrow> 'st \<Rightarrow> 'st \<Rightarrow> bool" where
  "agree view ks s t \<longleftrightarrow> (\<forall>k \<in> ks. view k s = view k t)"

inductive confined ::
  "('k \<Rightarrow> 'st \<Rightarrow> 'v) \<Rightarrow> ('st \<Rightarrow> bool) \<Rightarrow> 'k set \<Rightarrow> ('a \<Rightarrow> bool) \<Rightarrow> ('st, 'a) prog \<Rightarrow> bool"
  for view good ks post where
  confined_Ret: "post x \<Longrightarrow> confined view good ks post (Ret x)"
| confined_Atom:
    "(\<And>s. good s \<Longrightarrow> good (fst (f s))) \<Longrightarrow>
     (\<And>s k. good s \<Longrightarrow> k \<notin> ks \<Longrightarrow> view k (fst (f s)) = view k s) \<Longrightarrow>
     (\<And>s t. good s \<Longrightarrow> good t \<Longrightarrow> agree view ks s t \<Longrightarrow>
        snd (f s) = snd (f t) \<and> agree view ks (fst (f s)) (fst (f t))) \<Longrightarrow>
     (\<And>s. good s \<Longrightarrow> confined view good ks post (snd (f s))) \<Longrightarrow>
     confined view good ks post (Atom f)"

inductive_simps confined_Ret_iff [simp]: "confined view good ks post (Ret x)"

inductive_cases confined_AtomE: "confined view good ks post (Atom f)"

lemma confined_bind:
  assumes "confined view good ks mid p" "\<And>x. mid x \<Longrightarrow> confined view good ks post (k x)"
  shows "confined view good ks post (bind_prog p k)"
  using assms(1)
proof induction
  case (confined_Atom f)
  show ?case
    unfolding bind_Atom
  proof (rule confined.confined_Atom)
    fix s t
    assume st: "good s" "good t" "agree view ks s t"
    then show "snd (case f s of (s', p) \<Rightarrow> (s', bind_prog p k)) = snd (case f t of (s', p) \<Rightarrow> (s', bind_prog p k)) \<and>
        agree view ks (fst (case f s of (s', p) \<Rightarrow> (s', bind_prog p k))) (fst (case f t of (s', p) \<Rightarrow> (s', bind_prog p k)))"
      using confined_Atom.hyps(3)[OF st] by (simp add: split_beta)
  qed (use confined_Atom in \<open>simp_all add: split_beta\<close>)
qed (simp add: assms(2))

lemma confined_seq:
  "confined view good ks (\<lambda>_. True) p \<Longrightarrow> confined view good ks post q \<Longrightarrow> confined view good ks post (seq_prog p q)"
  unfolding seq_prog_def by (rule confined_bind)

text \<open>A thread ends as it would alone, when no other thread has a key of its own in common with it.\<close>

lemma schedule_confined:
  assumes "\<forall>j < length ps. confined view good (ks j) post (ps ! j)"
    and "\<forall>j < length ps. j \<noteq> i \<longrightarrow> ks i \<inter> ks j = {}" "i < length ps"
    and "good s" "good t" "agree view (ks i) s t"
    and "run_schedule sched (ps, s) = (ps', s')" "ps' ! i = Ret x"
  shows "\<exists>t'. run_prog (ps ! i) t = (t', x) \<and> agree view (ks i) s' t'"
  using assms
proof (induction sched arbitrary: ps s t)
  case Nil
  then show ?case by auto
next
  case (Cons j sched)
  show ?case
  proof (cases rule: turn_cases[of ps j s])
    case idle
    with Cons show ?thesis by simp
  next
    case (moves f)
    note j = moves(2,3) and step = moves(4)
    let ?ps = "ps[j := snd (f s)]"
    have conf: "confined view good (ks j) post (Atom f)" using Cons.prems(1) j by metis
    have f: "good (fst (f s))" "\<And>k. k \<notin> ks j \<Longrightarrow> view k (fst (f s)) = view k s"
      "confined view good (ks j) post (snd (f s))"
      using conf Cons.prems(4) by (auto elim: confined_AtomE)
    have all: "\<forall>n < length ?ps. confined view good (ks n) post (?ps ! n)"
      using Cons.prems(1) f(3) j(1) by (simp add: nth_list_update)
    show ?thesis
    proof (cases "j = i")
      case True
      have ft: "snd (f s) = snd (f t)" "agree view (ks i) (fst (f s)) (fst (f t))" "good (fst (f t))"
        using conf Cons.prems(4,5,6) True by (auto elim: confined_AtomE)
      have "\<exists>t'. run_prog (?ps ! i) (fst (f t)) = (t', x) \<and> agree view (ks i) s' t'"
        using Cons.IH[OF all _ _ f(1) ft(3) ft(2)] Cons.prems step by simp
      then show ?thesis using True j ft(1) by (simp add: split_beta)
    next
      case False
      then have "agree view (ks i) (fst (f s)) t"
        using Cons.prems(2,6) f(2) j(1) by (fastforce simp: agree_def)
      from Cons.IH[OF all _ _ f(1) Cons.prems(5) this] Cons.prems step False show ?thesis by simp
    qed
  qed
qed

section \<open>The state of one agent\<close>

text \<open>
  Everything the broker keeps under an agent's id. The shared logs are not part of it: all
  handlers append to them, none of those below reads them.
\<close>

definition agent_view :: "string \<Rightarrow> broker \<times> 's \<Rightarrow>
    (endpoint option \<times> (string, json) dict option \<times> seconds option \<times> int option) \<times>
    string list option \<times> token_bucket option" where
  "agent_view c st =
     (entry (fst st) c, dict_get (mailboxes (fst st)) c, dict_get (rate_buckets (fst st)) c)"

text \<open>A broker all of whose agents pull their mail: it never talks to the network.\<close>

definition pull_only :: "broker \<Rightarrow> bool" where
  "pull_only b \<longleftrightarrow> (\<forall>c ep. dict_get (registry b) c = Some ep \<longrightarrow> ep_mailbox ep)"

abbreviation calm :: "broker \<Rightarrow> broker \<times> 's \<Rightarrow> bool" where
  "calm b0 st \<equiv> pull_only (fst st) \<and> config (fst st) = config b0"

abbreviation own :: "broker \<Rightarrow> string set \<Rightarrow> ('a \<Rightarrow> bool) \<Rightarrow> ('s, 'a) handler \<Rightarrow> bool" where
  "own b0 ks post p \<equiv> confined agent_view (calm b0) ks post p"

lemma own_access:
  fixes f :: "broker \<Rightarrow> broker \<times> 'a"
  assumes "\<And>b. pull_only b \<Longrightarrow> pull_only (fst (f b))" "\<And>b. config (fst (f b)) = config b"
    and "\<And>b (s :: 's) k. k \<notin> ks \<Longrightarrow> agent_view k (fst (f b), s) = agent_view k (b, s)"
    and "\<And>b b' (s :: 's) (s' :: 's). config b = config b' \<Longrightarrow> \<forall>k \<in> ks. agent_view k (b, s) = agent_view k (b', s') \<Longrightarrow>
      pull_only b \<Longrightarrow>
      snd (f b) = snd (f b') \<and> (\<forall>k \<in> ks. agent_view k (fst (f b), s) = agent_view k (fst (f b'), s'))"
    and "\<And>b. pull_only b \<Longrightarrow> config b = config b0 \<Longrightarrow> post (snd (f b))"
  shows "own b0 ks post (access f :: ('s, 'a) handler)"
  unfolding access_def split_beta
proof (rule confined_Atom)
  fix st st' :: "broker \<times> 's"
  obtain b s b' s' where st: "st = (b, s)" "st' = (b', s')" by (cases st; cases st')
  assume "calm b0 st" "calm b0 st'" "agree agent_view ks st st'"
  then show "snd ((fst (f (fst st)), snd st), Ret (snd (f (fst st)))) = snd ((fst (f (fst st')), snd st'), Ret (snd (f (fst st')))) \<and>
      agree agent_view ks (fst ((fst (f (fst st)), snd st), Ret (snd (f (fst st)))))
        (fst ((fst (f (fst st')), snd st'), Ret (snd (f (fst st')))))"
    using assms(4)[of b b' s s'] by (simp add: st agree_def)
next
  fix st :: "broker \<times> 's" and k
  assume "calm b0 st" "k \<notin> ks"
  then show "agent_view k (fst ((fst (f (fst st)), snd st), Ret (snd (f (fst st))))) = agent_view k st"
    using assms(3)[of k "fst st" "snd st"] by simp
qed (simp_all add: assms(1,2,5))

lemma own_update:
  assumes "\<And>b. pull_only b \<Longrightarrow> pull_only (f b)" "\<And>b. config (f b) = config b"
    and "\<And>b (s :: 's) k. k \<notin> ks \<Longrightarrow> agent_view k (f b, s) = agent_view k (b, s)"
    and "\<And>b b' (s :: 's) (s' :: 's) k. config b = config b' \<Longrightarrow> k \<in> ks \<Longrightarrow>
      agent_view k (b, s) = agent_view k (b', s') \<Longrightarrow> agent_view k (f b, s) = agent_view k (f b', s')"
    and "post ()"
  shows "own b0 ks post (update f :: ('s, unit) handler)"
  unfolding update_def
proof (rule own_access)
  fix b b' :: broker and s s' :: 's
  assume "config b = config b'" "\<forall>k \<in> ks. agent_view k (b, s) = agent_view k (b', s')"
  then show "snd (f b, ()) = snd (f b', ()) \<and> (\<forall>k \<in> ks. agent_view k (fst (f b, ()), s) = agent_view k (fst (f b', ()), s'))"
    using assms(4)[of b b' _ s s'] by simp
qed (unfold prod.sel, rule assms, assumption, rule assms, rule assms, assumption, rule assms)

lemma own_look:
  assumes "\<And>b. pull_only b \<Longrightarrow> config b = config b0 \<Longrightarrow> post (f b)"
    and "\<And>b b' (s :: 's) (s' :: 's). config b = config b' \<Longrightarrow> \<forall>k \<in> ks. agent_view k (b, s) = agent_view k (b', s') \<Longrightarrow> f b = f b'"
  shows "own b0 ks post (look f :: ('s, 'a) handler)"
  unfolding look_def
proof (rule own_access)
  fix b b' :: broker and s s' :: 's
  assume "config b = config b'" "\<forall>k \<in> ks. agent_view k (b, s) = agent_view k (b', s')"
  then show "snd (b, f b) = snd (b', f b') \<and> (\<forall>k \<in> ks. agent_view k (fst (b, f b), s) = agent_view k (fst (b', f b'), s'))"
    using assms(2)[of b b' s s'] by simp
qed (use assms(1) in simp_all)

lemma pull_only_fields [simp]:
  "pull_only (b\<lparr>capabilities := x1\<rparr>) = pull_only b" "pull_only (b\<lparr>last_heartbeat := x2\<rparr>) = pull_only b"
  "pull_only (b\<lparr>ttl_seconds := x3\<rparr>) = pull_only b" "pull_only (b\<lparr>rate_buckets := x4\<rparr>) = pull_only b"
  "pull_only (b\<lparr>audit_log := x5\<rparr>) = pull_only b" "pull_only (b\<lparr>mailboxes := x7\<rparr>) = pull_only b"
  "pull_only (audit y1 y2 y3 y4 y5 b) = pull_only b" "pull_only (record_traffic a m d st b) = pull_only b"
  "pull_only (enqueue c raw b) = pull_only b"
  by (simp_all add: pull_only_def)

lemma pull_only_registry:
  "pull_only b \<Longrightarrow> ep_mailbox ep \<Longrightarrow> pull_only (b\<lparr>registry := reg_register ep (registry b)\<rparr>)"
  "pull_only b \<Longrightarrow> pull_only (b\<lparr>registry := suppress_not_found (registry b) (reg_unregister c (registry b))\<rparr>)"
  by (simp_all add: pull_only_def reg_gets)

lemma view_logs [simp]:
  "agent_view k (audit y1 y2 y3 y4 y5 b, s) = agent_view k (b, s)"
  "agent_view k (record_traffic a m d st b, s) = agent_view k (b, s)"
  by (simp_all add: agent_view_def audit_def record_traffic_def entry_def)

lemmas view_simps = agent_view_def entry_def reg_gets dict_simps dict_has_def

section \<open>The handlers are confined\<close>

lemma own_audit: "own b0 ks (\<lambda>_. True) (audit_prog ac who path status detail)"
  unfolding audit_prog_def by (rule own_update) simp_all

lemma own_reject: "own b0 ks (\<lambda>_. True) (reject_prog status detail who)"
  unfolding reject_prog_def by (intro confined_seq own_audit) simp

lemma own_answer: "own b0 ks (\<lambda>_. True) (send_answer_prog a who m disp st detail ans)"
proof -
  have "own b0 ks (\<lambda>_. True) (traffic_prog a m disp st)"
    unfolding traffic_prog_def by (rule own_update) simp_all
  then show ?thesis unfolding send_answer_prog_def by (intro confined_seq own_audit) simp_all
qed

lemma own_forget: "c \<in> ks \<Longrightarrow> own b0 ks (\<lambda>_. True) (forget_prog c)"
  unfolding forget_prog_def
  by (intro confined_seq own_update) (auto simp: view_simps intro: pull_only_registry)

lemma own_apply_register:
  assumes c: "v_agent_id v \<in> ks" and mb: "v_mailbox v"
  shows "own b0 ks (\<lambda>_. True) (apply_register_prog now v)"
proof -
  have ep: "ep_agent_id (endpoint_of v) = v_agent_id v" "ep_mailbox (endpoint_of v)"
    using mb by (simp_all add: endpoint_of_def)
  have reg: "own b0 ks (\<lambda>_. True) (update (\<lambda>b. b\<lparr>registry := reg_register (endpoint_of v) (registry b)\<rparr>))"
    by (rule own_update) (use c ep in \<open>auto simp: view_simps intro: pull_only_registry\<close>)
  have box: "own b0 ks (\<lambda>_. True) (update (\<lambda>b. b\<lparr>mailboxes := dict_setdefault (v_agent_id v) [] (mailboxes b)\<rparr>))"
    by (rule own_update) (use c in \<open>auto simp: view_simps\<close>)
  have caps: "own b0 ks (\<lambda>_. True) (update (\<lambda>b. b\<lparr>capabilities := dict_set (v_agent_id v) (v_caps v) (capabilities b)\<rparr>))"
    by (rule own_update) (use c in \<open>auto simp: view_simps\<close>)
  have beat: "own b0 ks (\<lambda>_. True) (update (\<lambda>b. let b = b\<lparr>last_heartbeat := dict_set (v_agent_id v) now (last_heartbeat b)\<rparr>
       in case v_ttl v of
            Some ttl \<Rightarrow> b\<lparr>ttl_seconds := dict_set (v_agent_id v) ttl (ttl_seconds b)\<rparr>
          | None \<Rightarrow>
              if v_is_new v
              then b\<lparr>ttl_seconds := dict_set (v_agent_id v) (default_ttl_seconds b) (ttl_seconds b)\<rparr>
              else b))"
    unfolding Let_def
    by (rule own_update; cases "v_ttl v"; cases "v_is_new v") (use c in \<open>auto simp: view_simps dest: config_fixed(1)\<close>)
  show ?thesis
    unfolding apply_register_prog_def if_P[OF mb]
    by (rule confined_seq[OF reg confined_seq[OF box confined_seq[OF caps beat]]])
qed

lemma own_read_body: "own b0 ks (\<lambda>_. True) (look (read_body rq))"
  by (rule own_look) (auto simp: read_body_def dest: config_fixed(4) split: option.split)

lemma validate_register_view:
  assumes "who \<noteq> []" "dict_get (registry b) who = dict_get (registry b') who"
  shows "validate_register_payload data who b = validate_register_payload data who b'"
proof (cases "\<exists>aid. as_str (get_default data ''agent_id'' JNull) = Some aid \<and> (aid = [] \<or> aid = who)")
  case True
  have reg: "reg_lookup who (registry b) = reg_lookup who (registry b')"
    using assms(2) by (simp add: reg_lookup_def)
  from True show ?thesis
    by (elim exE conjE disjE) (simp_all only: validate_register_payload_def Let_def option.case reg simp_thms if_True)
next
  case False
  with assms(1) show ?thesis
    by (cases "as_str (get_default data ''agent_id'' JNull)") (simp_all add: validate_register_payload_def Let_def)
qed

lemma validate_register_mailbox:
  "validate_register_payload data who b = Inr v \<Longrightarrow> v_mailbox v = py_truthy (get_default data ''mailbox'' (JBool False))"
  by (auto simp: validate_register_payload_def Let_def result_simps)

text \<open>The body of a request, if it is a registration for pull delivery.\<close>

definition pulls_mail :: "string \<Rightarrow> bool" where
  "pulls_mail raw = (case loads raw of
     None \<Rightarrow> True
   | Some v \<Rightarrow> (case as_dict v of
       None \<Rightarrow> True | Some data \<Rightarrow> py_truthy (get_default data ''mailbox'' (JBool False))))"

lemma own_checked:
  assumes "who \<noteq> []" "who \<in> ks" "py_truthy (get_default data ''mailbox'' (JBool False))"
  shows "own b0 ks (\<lambda>r. case r of Inl _ \<Rightarrow> True | Inr v \<Rightarrow> v_agent_id v = who \<and> v_mailbox v)
    (look (validate_register_payload data who))"
proof (rule own_look)
  fix b :: broker
  show "case validate_register_payload data who b of Inl _ \<Rightarrow> True | Inr v \<Rightarrow> v_agent_id v = who \<and> v_mailbox v"
    using validate_register_Inr(3)[of data who b] validate_register_mailbox[of data who b] assms(1,3)
    by (auto split: sum.split)
next
  fix b b' :: broker and s s' :: 's
  assume "\<forall>k \<in> ks. agent_view k (b, s) = agent_view k (b', s')"
  then have "dict_get (registry b) who = dict_get (registry b') who" using assms(2) by (auto simp: view_simps)
  then show "validate_register_payload data who b = validate_register_payload data who b'"
    by (rule validate_register_view[OF assms(1)])
qed

lemma own_register:
  assumes who: "who \<noteq> []" "who \<in> ks" and raw: "pulls_mail raw"
  shows "own b0 ks (\<lambda>_. True) (case loads raw of
         None \<Rightarrow> reject_prog 400 ''invalid JSON body'' ''unknown''
       | Some v \<Rightarrow> (case as_dict v of
           None \<Rightarrow> reject_prog 400 ''body must be a JSON object'' ''unknown''
         | Some data \<Rightarrow> bind_prog (look (validate_register_payload data who)) (\<lambda>checked. case checked of
             Inl (status, detail, who) \<Rightarrow> reject_prog status detail who
           | Inr v \<Rightarrow>
               let status = (if v_is_new v then 201 else 200)
               in seq_prog (apply_register_prog (mono a) v)
                 (seq_prog (audit_prog ''register'' (v_agent_id v) ''/agents'' status
                    (if v_is_new v then ''created'' else ''updated''))
                  (Ret (Answer status (BJson (JDict [(''agent_id'', JStr (v_agent_id v))]))))))))"
proof (cases "\<exists>data. loads raw = Some (JDict data)")
  case True
  then obtain data where d: "loads raw = Some (JDict data)" by blast
  then have mb: "py_truthy (get_default data ''mailbox'' (JBool False))" using raw by (simp add: pulls_mail_def as_dict_def)
  show ?thesis
    using who(2) by (auto simp: d as_dict_def Let_def intro!: confined_bind[OF own_checked[OF who mb]] own_reject confined_seq
        own_apply_register own_audit split: sum.splits)
next
  case False
  then show ?thesis by (auto simp: as_dict_def intro: own_reject split: option.split json.splits)
qed

lemma own_rate: "k \<in> ks \<Longrightarrow> own b0 ks (\<lambda>_. True) (rate_prog now k)"
proof -
  assume k: "k \<in> ks"
  have off: "own b0 ks (\<lambda>_. True) (look (\<lambda>b. rate_limit_per_second b \<le> 0))"
    by (rule own_look) (auto dest: config_fixed(5))
  have get: "own b0 ks (\<lambda>_. True) (update (get_bucket now k))"
    by (rule own_update) (use k in \<open>auto simp: get_bucket_def view_simps dest: config_fixed(5) split: option.split\<close>)
  have take: "own b0 ks (\<lambda>_. True) (access (consume_bucket now k))"
  proof (rule own_access)
    fix b b' :: broker and s s' :: 's
    assume "\<forall>c \<in> ks. agent_view c (b, s) = agent_view c (b', s')"
    then have same: "agent_view c (b, s) = agent_view c (b', s')" if "c \<in> ks" for c using that by blast
    from same[OF k] have "dict_get (rate_buckets b) k = dict_get (rate_buckets b') k" by (simp add: agent_view_def)
    with same show "snd (consume_bucket now k b) = snd (consume_bucket now k b') \<and>
        (\<forall>c \<in> ks. agent_view c (fst (consume_bucket now k b), s) = agent_view c (fst (consume_bucket now k b'), s'))"
      by (auto simp: consume_bucket_def view_simps split: option.split prod.split)
  qed (use k in \<open>auto simp: consume_bucket_def view_simps split: option.split prod.split\<close>)
  show ?thesis unfolding rate_prog_def by (auto intro!: confined_bind[OF off] confined_seq get take)
qed

lemma own_admit:
  assumes "\<And>who. authenticate q rq b0 = Inr who \<Longrightarrow> who \<noteq> [] \<and> who \<in> ks"
  shows "own b0 ks (\<lambda>r. case r of Inl _ \<Rightarrow> True | Inr who \<Rightarrow> authenticate q rq b0 = Inr who) (admit_prog q a rq)"
  unfolding admit_prog_def
proof (rule confined_bind)
  show "own b0 ks (\<lambda>r. r = authenticate q rq b0) (look (authenticate q rq))"
    by (rule own_look) (blast intro: authenticate_config)+
  fix r
  assume r: "r = authenticate q rq b0"
  show "own b0 ks (\<lambda>r. case r of Inl _ \<Rightarrow> True | Inr who \<Rightarrow> authenticate q rq b0 = Inr who) (case r of
       Inl ans \<Rightarrow> Ret (Inl ans)
     | Inr who \<Rightarrow> bind_prog (rate_prog (mono a) (if who \<noteq> [] then who else ''__anonymous__'')) (\<lambda>ok.
           Ret (if ok then Inr who else Inl rate_limited)))"
    using assms r by (auto intro!: confined_bind[OF own_rate] split: sum.split)
qed

lemma own_deregister: "who \<noteq> [] \<Longrightarrow> who \<in> ks \<Longrightarrow> own b0 ks (\<lambda>_. True) (deregister_prog who rq)"
  unfolding deregister_prog_def by (auto intro!: confined_seq own_audit own_forget simp: Let_def)

lemma own_enqueue: "c \<in> ks \<Longrightarrow> own b0 ks (\<lambda>_. True) (update (enqueue c raw))"
  by (rule own_update) (auto simp: enqueue_def view_simps config_def)

lemma own_found:
  assumes "\<And>c. v = JStr c \<Longrightarrow> c \<in> ks"
  shows "own b0 ks (\<lambda>r. \<forall>ep. r = Inr ep \<longrightarrow> ep_mailbox ep \<and> (\<exists>c. v = JStr c \<and> c \<in> ks))
    (look (\<lambda>b. reg_lookup_value v (registry b)))"
proof (rule own_look)
  fix b
  assume "pull_only b"
  then show "\<forall>ep. reg_lookup_value v (registry b) = Inr ep \<longrightarrow> ep_mailbox ep \<and> (\<exists>c. v = JStr c \<and> c \<in> ks)"
    using assms by (auto simp: reg_lookup_value_def reg_lookup_def pull_only_def split: json.splits option.splits if_splits)
next
  fix b b' :: broker and s s' :: 's
  assume same: "\<forall>k \<in> ks. agent_view k (b, s) = agent_view k (b', s')"
  show "reg_lookup_value v (registry b) = reg_lookup_value v (registry b')"
  proof (cases "\<exists>c. v = JStr c")
    case True
    then obtain c where c: "v = JStr c" by blast
    then have "agent_view c (b, s) = agent_view c (b', s')" using assms same by blast
    then show ?thesis by (simp add: c reg_lookup_value_def reg_lookup_def view_simps)
  qed (auto simp: reg_lookup_value_def split: json.split)
qed

lemma own_message:
  assumes "\<And>c. recipient (meta m) = JStr c \<Longrightarrow> c \<in> ks"
  shows "own b0 ks (\<lambda>_. True) (message_prog net sleep a who m)"
  unfolding message_prog_def Let_def
  by (auto intro!: own_answer confined_bind[OF own_found[OF assms]] confined_seq own_enqueue
      simp: py_str_def split: sum.split exn.split)

lemma own_take_mail: "c \<in> ks \<Longrightarrow> own b0 ks (\<lambda>_. True) (access (take_mail now c d))"
proof (rule own_access)
  fix b b' :: broker and s s' :: 's
  assume c: "c \<in> ks" and "\<forall>k \<in> ks. agent_view k (b, s) = agent_view k (b', s')"
  then have same: "agent_view k (b, s) = agent_view k (b', s')" if "k \<in> ks" for k using that by blast
  from same[OF c] have "dict_get (mailboxes b) c = dict_get (mailboxes b') c" by (simp add: agent_view_def)
  with same show "snd (take_mail now c d b) = snd (take_mail now c d b') \<and>
      (\<forall>k \<in> ks. agent_view k (fst (take_mail now c d b), s) = agent_view k (fst (take_mail now c d b'), s'))"
    by (auto simp: take_mail_def view_simps split: option.split)
qed (auto simp: take_mail_def view_simps split: option.split)

lemma own_poll_check: "c \<in> ks \<Longrightarrow> own b0 ks (\<lambda>_. True) (poll_check_prog now c d)"
  unfolding poll_check_prog_def
  by (rule confined_bind[OF own_take_mail]) (auto intro!: confined_seq own_audit split: option.split)

lemma own_auto_register: "c \<in> ks \<Longrightarrow> own b0 ks (\<lambda>_. True) (auto_register_prog now c)"
  unfolding auto_register_prog_def
  by (intro confined_seq own_audit own_update)
    (auto simp: view_simps intro: pull_only_registry dest: config_fixed(1) split: option.split)

lemma own_poll: "who \<noteq> [] \<Longrightarrow> who \<in> ks \<Longrightarrow> own b0 ks (\<lambda>_. True) (poll_prog a who rq)"
proof -
  assume who: "who \<noteq> []" "who \<in> ks"
  have has: "own b0 ks (\<lambda>_. True) (look (\<lambda>b. dict_has (mailboxes b) who))"
    by (rule own_look) (use who(2) in \<open>auto simp: view_simps\<close>)
  have beat: "own b0 ks (\<lambda>_. True) (update (\<lambda>b. if dict_has (ttl_seconds b) who
      then b\<lparr>last_heartbeat := dict_set who (mono a) (last_heartbeat b)\<rparr> else b))"
    by (rule own_update) (use who(2) in \<open>auto simp: view_simps\<close>)
  show ?thesis
    using who unfolding poll_prog_def Let_def
    by (auto intro!: confined_bind[OF has] confined_seq own_auto_register own_poll_check beat)
qed

section \<open>The footprint of a job\<close>

text \<open>
  The agents whose state a thread works on, when that is known beforehand: the authenticated
  agent and, of a send, the recipient. A listing, a sweep and a request without identity work on
  everybody's.
\<close>

definition post_footprint :: "string \<Rightarrow> http_request \<Rightarrow> broker \<Rightarrow> string set option" where
  "post_footprint who rq b = (case read_body rq b of
     Inl _ \<Rightarrow> Some {who}
   | Inr raw \<Rightarrow>
       if rq_path rq = ''/agents'' then (if pulls_mail raw then Some {who} else None)
       else (case deserialize raw of
         Inl _ \<Rightarrow> Some {who}
       | Inr m \<Rightarrow> (case recipient (meta m) of JStr c \<Rightarrow> Some {who, c} | _ \<Rightarrow> Some {who})))"

fun footprint :: "broker \<Rightarrow> job \<Rightarrow> string set option" where
  "footprint b (Request meth a rq) =
     (let path = url_path (rq_path rq)
      in case authenticate (meth = GET \<and> path \<in> set dashboard_reading_paths) rq b of
           Inl _ \<Rightarrow> Some {}
         | Inr who \<Rightarrow>
             if who = [] then None
             else (case meth of
               GET \<Rightarrow> if path = ''/agents'' \<or> path = ''/traffic'' then None else Some {who}
             | POST \<Rightarrow> post_footprint who rq b
             | DELETE \<Rightarrow> Some {who}))"
| "footprint b (Wake now c deadline) = Some {c}"
| "footprint b (Sweep now) = None"

lemma footprint_identity:
  "footprint b0 (Request meth a rq) = Some ks \<Longrightarrow>
    authenticate (meth = GET \<and> url_path (rq_path rq) \<in> set dashboard_reading_paths) rq b0 = Inr who \<Longrightarrow>
    who \<noteq> [] \<and> who \<in> ks"
  by (auto simp: Let_def post_footprint_def split: http_method.splits if_splits sum.splits json.splits)

lemma own_get:
  assumes "footprint b0 (Request GET a rq) = Some ks"
  shows "own b0 ks (\<lambda>_. True) (get_prog a rq)"
proof -
  have enabled: "own b0 ks (\<lambda>_. True) (look dashboard_enabled)"
    by (rule own_look) (auto dest: config_fixed(6))
  have admit: "own b0 ks (\<lambda>r. case r of Inl _ \<Rightarrow> True
      | Inr who \<Rightarrow> authenticate (url_path (rq_path rq) \<in> set dashboard_reading_paths) rq b0 = Inr who)
      (admit_prog (url_path (rq_path rq) \<in> set dashboard_reading_paths) a rq)"
    by (rule own_admit) (use footprint_identity[OF assms] in simp)
  show ?thesis
    using assms footprint_identity[OF assms] unfolding get_prog_def Let_def
    by (auto intro!: confined_bind[OF admit] confined_bind[OF enabled] own_poll split: sum.splits)
qed

lemma own_send_or_register:
  assumes fp: "post_footprint who rq b0 = Some ks" and who: "who \<noteq> []" "who \<in> ks"
  shows "rq_path rq = ''/agents'' \<Longrightarrow> own b0 ks (\<lambda>_. True) (register_prog a who rq)"
    "rq_path rq \<noteq> ''/agents'' \<Longrightarrow> own b0 ks (\<lambda>_. True) (send_prog net sleep a who rq)"
proof -
  have body: "own b0 ks (\<lambda>r. r = read_body rq b0) (look (read_body rq))"
    by (rule own_look) (blast intro: read_body_config)+
  show "own b0 ks (\<lambda>_. True) (register_prog a who rq)" if "rq_path rq = ''/agents''"
    using fp that unfolding register_prog_def
    by (intro confined_bind[OF body]) (auto simp: post_footprint_def intro!: own_register who split: sum.splits if_splits)
  show "own b0 ks (\<lambda>_. True) (send_prog net sleep a who rq)" if "rq_path rq \<noteq> ''/agents''"
    using fp that unfolding send_prog_def
    by (intro confined_bind[OF body])
      (auto simp: post_footprint_def intro!: own_message confined_seq own_audit split: sum.splits)
qed

lemma own_post:
  assumes "footprint b0 (Request POST a rq) = Some ks"
  shows "own b0 ks (\<lambda>_. True) (post_prog net sleep a rq)"
  unfolding post_prog_def
proof (rule confined_bind)
  show "own b0 ks (\<lambda>r. case r of Inl _ \<Rightarrow> True | Inr who \<Rightarrow> authenticate False rq b0 = Inr who) (admit_prog False a rq)"
    by (rule own_admit) (use footprint_identity[OF assms] in simp)
  fix r :: "answer + string"
  assume r: "case r of Inl _ \<Rightarrow> True | Inr who \<Rightarrow> authenticate False rq b0 = Inr who"
  show "own b0 ks (\<lambda>_. True) (case r of
       Inl ans \<Rightarrow> Ret ans
     | Inr who \<Rightarrow>
         if rq_path rq = ''/agents'' then register_prog a who rq
         else if rq_path rq = DEFAULT_MESSAGE_PATH then send_prog net sleep a who rq
         else Ret (write_error 404 ''not found''))"
  proof (cases r)
    case (Inr who)
    then have who: "authenticate False rq b0 = Inr who" using r by simp
    then have "who \<noteq> []" "who \<in> ks" using footprint_identity[OF assms] by simp_all
    moreover from this have "post_footprint who rq b0 = Some ks" using assms who by simp
    ultimately show ?thesis by (simp add: Inr own_send_or_register)
  qed simp
qed

lemma own_delete:
  assumes "footprint b0 (Request DELETE a rq) = Some ks"
  shows "own b0 ks (\<lambda>_. True) (delete_prog a rq)"
proof -
  have admit: "own b0 ks (\<lambda>r. case r of Inl _ \<Rightarrow> True | Inr who \<Rightarrow> authenticate False rq b0 = Inr who) (admit_prog False a rq)"
    by (rule own_admit) (use footprint_identity[OF assms] in simp)
  show ?thesis
    using footprint_identity[OF assms] unfolding delete_prog_def
    by (auto intro!: confined_bind[OF admit] own_deregister split: sum.splits)
qed

lemma own_job: "footprint b0 j = Some ks \<Longrightarrow> own b0 ks (\<lambda>_. True) (job_prog net sleep j)"
proof (cases j)
  case (Request meth a rq)
  assume "footprint b0 j = Some ks"
  then have "own b0 ks (\<lambda>_. True) (request_prog net sleep meth a rq)"
    unfolding Request by (cases meth) (simp_all only: request_prog_def http_method.case own_get own_post own_delete)
  then show ?thesis by (auto simp: Request intro!: confined_bind)
qed (auto intro!: confined_bind[OF own_poll_check])

end
