(* ===== verification/Broker_Ledger.thy ===== *)
theory Broker_Ledger
  imports Broker_Races "HOL-Library.Multiset" "HOL-Library.Sublist"
begin

text \<open>
  One mailbox under any interleaving. The accesses of all threads that concern it form one history
  of a first-in first-out queue: a message is put, the whole queue is taken, or it is lost with its
  agent. Every thread carries the events it has caused, and its answer tells which they were.
\<close>

section \<open>Histories of a queue\<close>

datatype mail_event = Put string | Took "string list" | Lost

fun mail_step :: "mail_event \<Rightarrow> string list \<Rightarrow> string list option" where
  "mail_step (Put m) q = Some (q @ [m])"
| "mail_step (Took ms) q = (if ms = q then Some [] else None)"
| "mail_step Lost q = Some []"

fun replay :: "mail_event list \<Rightarrow> string list \<Rightarrow> string list option" where
  "replay [] q = Some q"
| "replay (e # es) q = (case mail_step e q of None \<Rightarrow> None | Some q' \<Rightarrow> replay es q')"

lemma replay_append: "replay (es @ fs) q = (case replay es q of None \<Rightarrow> None | Some q' \<Rightarrow> replay fs q')"
  by (induction es arbitrary: q) (auto split: option.split)

fun puts :: "mail_event list \<Rightarrow> string list" where
  "puts [] = []"
| "puts (Put m # es) = m # puts es"
| "puts (e # es) = puts es"

fun takes :: "mail_event list \<Rightarrow> string list" where
  "takes [] = []"
| "takes (Took ms # es) = ms @ takes es"
| "takes (e # es) = takes es"

text \<open>What is taken, and then what is left, is what was there and what was put, in this order.\<close>

lemma replay_fifo: "replay es q = Some q' \<Longrightarrow> Lost \<notin> set es \<Longrightarrow> takes es @ q' = q @ puts es"
proof (induction es arbitrary: q)
  case (Cons e es)
  then show ?case by (cases e) (auto split: if_splits)
qed simp

text \<open>With losses, the messages still add up.\<close>

lemma replay_balance:
  "replay es q = Some q' \<Longrightarrow> \<exists>lost. mset q' + mset (takes es) + lost = mset q + mset (puts es) \<and> (lost \<noteq> {#} \<longrightarrow> Lost \<in> set es)"
proof (induction es arbitrary: q)
  case (Cons e es)
  then obtain q1 where q1: "mail_step e q = Some q1" "replay es q1 = Some q'" by (auto split: option.splits)
  from Cons.IH[OF q1(2)] obtain lost where
    lost: "mset q' + mset (takes es) + lost = mset q1 + mset (puts es)" "lost \<noteq> {#} \<longrightarrow> Lost \<in> set es"
    by blast
  let ?gone = "if e = Lost then mset q else {#}"
  have "mset q' + mset (takes (e # es)) + (lost + ?gone) = mset q + mset (puts (e # es))"
    using lost(1) q1(1) by (cases e) (auto simp: ac_simps split: if_splits)
  then show ?case using lost(2) by (intro exI[of _ "lost + ?gone"]) auto
qed simp

section \<open>Threads with their events\<close>

abbreviation kept :: "mail_event list \<Rightarrow> mail_event list" where
  "kept es \<equiv> filter (\<lambda>e. e \<noteq> Lost) es"

text \<open>One step causes at most one event, and only a thread that removes agents loses mail.\<close>

inductive tally :: "string \<Rightarrow> bool \<Rightarrow> broker \<Rightarrow> (mail_event list \<Rightarrow> 'a \<Rightarrow> bool) \<Rightarrow> mail_event list \<Rightarrow> ('s, 'a) handler \<Rightarrow> bool"
  for c lossy b0 post where
  tally_Ret: "post evs x \<Longrightarrow> tally c lossy b0 post evs (Ret x)"
| tally_Atom:
    "(\<And>st. config (fst st) = config b0 \<Longrightarrow> config (fst (fst (f st))) = config b0) \<Longrightarrow>
     (\<And>st. config (fst st) = config b0 \<Longrightarrow> \<exists>es. length es \<le> 1 \<and>
        replay es (box (fst st) c) = Some (box (fst (fst (f st))) c) \<and> (Lost \<in> set es \<longrightarrow> lossy) \<and>
        tally c lossy b0 post (evs @ kept es) (snd (f st))) \<Longrightarrow>
     tally c lossy b0 post evs (Atom f)"

inductive_simps tally_Ret_iff [simp]: "tally c lossy b0 post evs (Ret x)"

inductive_simps tally_Atom_iff: "tally c lossy b0 post evs (Atom f)"

lemma tally_step:
  assumes "tally c lossy b0 post evs (Atom f)" "config (fst st) = config b0"
  obtains es where "config (fst (fst (f st))) = config b0" "length es \<le> 1"
    "replay es (box (fst st) c) = Some (box (fst (fst (f st))) c)" "Lost \<in> set es \<longrightarrow> lossy"
    "tally c lossy b0 post (evs @ kept es) (snd (f st))"
proof -
  from assms have "config (fst (fst (f st))) = config b0" "\<exists>es. length es \<le> 1 \<and>
      replay es (box (fst st) c) = Some (box (fst (fst (f st))) c) \<and> (Lost \<in> set es \<longrightarrow> lossy) \<and>
      tally c lossy b0 post (evs @ kept es) (snd (f st))"
    unfolding tally_Atom_iff by (cases st; simp)+
  with that show thesis by (elim exE conjE)
qed

lemma tally_bind:
  assumes "tally c lossy b0 mid evs p"
    and "\<And>evs x. mid evs x \<Longrightarrow> tally c lossy b0 post evs (k x)"
  shows "tally c lossy b0 post evs (bind_prog p k)"
  using assms(1)
proof induction
  case (tally_Atom f evs)
  show ?case
    unfolding bind_Atom
  proof (rule tally.tally_Atom; unfold split_beta fst_conv snd_conv)
    fix st :: "broker \<times> 'b"
    assume st: "config (fst st) = config b0"
    then show "config (fst (fst (f st))) = config b0" by (rule tally_Atom.hyps(1))
    from tally_Atom.IH[OF st] show "\<exists>es. length es \<le> 1 \<and> replay es (box (fst st) c) = Some (box (fst (fst (f st))) c) \<and>
        (Lost \<in> set es \<longrightarrow> lossy) \<and> tally c lossy b0 post (evs @ kept es) (bind_prog (snd (f st)) k)" by blast
  qed
qed (simp add: assms(2))

lemma tally_if: "(q \<Longrightarrow> tally c lossy b0 post evs p1) \<Longrightarrow> (\<not> q \<Longrightarrow> tally c lossy b0 post evs p2) \<Longrightarrow>
    tally c lossy b0 post evs (if q then p1 else p2)"
  by simp

text \<open>A program that leaves the mailbox alone.\<close>

definition still :: "string \<Rightarrow> bool \<Rightarrow> broker \<Rightarrow> ('a \<Rightarrow> bool) \<Rightarrow> ('s, 'a) handler \<Rightarrow> bool" where
  "still c lossy b0 Q p \<longleftrightarrow> (\<forall>evs. tally c lossy b0 (\<lambda>h x. h = evs \<and> Q x) evs p)"

lemma tally_still_bind:
  assumes "still c lossy b0 Q p" "\<And>x. Q x \<Longrightarrow> tally c lossy b0 post evs (k x)"
  shows "tally c lossy b0 post evs (bind_prog p k)"
  by (rule tally_bind[OF assms(1)[unfolded still_def, THEN spec]]) (use assms(2) in blast)

lemma tally_still_seq: "still c lossy b0 (\<lambda>_. True) p \<Longrightarrow> tally c lossy b0 post evs q \<Longrightarrow> tally c lossy b0 post evs (seq_prog p q)"
  unfolding seq_prog_def by (rule tally_still_bind)

lemma still_Ret [simp]: "still c lossy b0 Q (Ret x) = Q x"
  by (simp add: still_def)

lemma still_bind: "still c lossy b0 M p \<Longrightarrow> (\<And>x. M x \<Longrightarrow> still c lossy b0 Q (k x)) \<Longrightarrow> still c lossy b0 Q (bind_prog p k)"
  unfolding still_def[of c lossy b0 Q] by (blast intro: tally_still_bind)

lemma still_seq: "still c lossy b0 (\<lambda>_. True) p \<Longrightarrow> still c lossy b0 Q q \<Longrightarrow> still c lossy b0 Q (seq_prog p q)"
  unfolding seq_prog_def by (rule still_bind)

lemma bind_ret [simp]: "bind_prog p Ret = p"
  by (induction p rule: prog_induct) (simp_all add: split_beta)

lemma tally_still: "still c lossy b0 Q p \<Longrightarrow> (\<And>x. Q x \<Longrightarrow> post evs x) \<Longrightarrow> tally c lossy b0 post evs p"
  using tally_still_bind[of c lossy b0 Q p post evs Ret] by simp

lemma tally_access:
  assumes "\<And>b. config (fst (f b)) = config b"
    and "\<And>b. config b = config b0 \<Longrightarrow> \<exists>es. length es \<le> 1 \<and>
      replay es (box b c) = Some (box (fst (f b)) c) \<and> (Lost \<in> set es \<longrightarrow> lossy) \<and> post (evs @ kept es) (snd (f b))"
  shows "tally c lossy b0 post evs (access f)"
  unfolding access_def split_beta
  by (rule tally_Atom) (use assms in simp_all)

lemma still_access:
  assumes "\<And>b. config (fst (f b)) = config b" "\<And>b. box (fst (f b)) c = box b c"
    and "\<And>b. config b = config b0 \<Longrightarrow> Q (snd (f b))"
  shows "still c lossy b0 Q (access f)"
  unfolding still_def
  by (intro allI tally_access assms(1)) (rule exI[of _ "[]"], use assms in simp)

lemma still_update:
  "(\<And>b. config (f b) = config b) \<Longrightarrow> (\<And>b. box (f b) c = box b c) \<Longrightarrow> Q () \<Longrightarrow> still c lossy b0 Q (update f)"
  unfolding update_def by (rule still_access) simp_all

lemma still_look: "(\<And>b. config b = config b0 \<Longrightarrow> Q (f b)) \<Longrightarrow> still c lossy b0 Q (look f)"
  unfolding look_def by (rule still_access) simp_all

section \<open>The history of a schedule\<close>

text \<open>Who caused which event, and the part of it one thread can tell.\<close>

type_synonym mail_history = "(nat \<times> mail_event) list"

definition of_thread :: "nat \<Rightarrow> mail_history \<Rightarrow> mail_event list" where
  "of_thread i H = kept (map snd (filter (\<lambda>x. fst x = i) H))"

lemma of_thread_append: "of_thread i (H @ map (Pair j) es) = of_thread i H @ (if j = i then kept es else [])"
  by (simp add: of_thread_def filter_map comp_def)

definition recorded ::
  "string \<Rightarrow> (nat \<Rightarrow> bool) \<Rightarrow> broker \<Rightarrow> (nat \<Rightarrow> mail_event list \<Rightarrow> 'a \<Rightarrow> bool) \<Rightarrow> string list \<Rightarrow> nat list \<Rightarrow>
   ('s, 'a) handler list \<times> (broker \<times> 's) \<Rightarrow> bool" where
  "recorded c lossy b0 post q0 past w \<longleftrightarrow> config (fst (snd w)) = config b0 \<and>
     (\<exists>H. (\<forall>i < length (fst w). tally c (lossy i) b0 (post i) (of_thread i H) (fst w ! i)) \<and>
        replay (map snd H) q0 = Some (box (fst (snd w)) c) \<and> subseq (map fst H) past \<and>
        (\<forall>(i, e) \<in> set H. i < length (fst w) \<and> (e = Lost \<longrightarrow> lossy i)))"

lemma step_recorded:
  assumes "recorded c lossy b0 post q0 past (ps, st)"
  shows "recorded c lossy b0 post q0 (past @ [i]) (step_thread i (ps, st))"
proof -
  from assms obtain H where cfg: "config (fst st) = config b0"
    and all: "\<forall>j < length ps. tally c (lossy j) b0 (post j) (of_thread j H) (ps ! j)"
    and queue: "replay (map snd H) q0 = Some (box (fst st) c)" and past: "subseq (map fst H) past"
    and whose: "\<forall>(j, e) \<in> set H. j < length ps \<and> (e = Lost \<longrightarrow> lossy j)"
    unfolding recorded_def by auto
  show ?thesis
  proof (cases rule: turn_cases[of ps i st])
    case idle
    moreover have "subseq (map fst H) (past @ [i])" using list_emb_append_mono[OF past, of "[]" "[i]"] by simp
    ultimately show ?thesis unfolding recorded_def using cfg all queue whose by auto
  next
    case (moves f)
    note i = moves(2,3) and step = moves(4)
    from all i have "tally c (lossy i) b0 (post i) (of_thread i H) (Atom f)" by metis
    then obtain es where cfg': "config (fst (fst (f st))) = config b0" and es: "length es \<le> 1"
      and new: "replay es (box (fst st) c) = Some (box (fst (fst (f st))) c)" and gone: "Lost \<in> set es \<longrightarrow> lossy i"
      and rest: "tally c (lossy i) b0 (post i) (of_thread i H @ kept es) (snd (f st))"
      using cfg by (rule tally_step)
    let ?H = "H @ map (Pair i) es" and ?ps = "ps[i := snd (f st)]"
    have "\<forall>j < length ?ps. tally c (lossy j) b0 (post j) (of_thread j ?H) (?ps ! j)"
      using all rest by (simp add: nth_list_update of_thread_append)
    moreover have "replay (map snd ?H) q0 = Some (box (fst (fst (f st))) c)"
      using queue new by (simp add: replay_append comp_def)
    moreover have "subseq (map fst ?H) (past @ [i])"
    proof (cases es)
      case Nil
      then show ?thesis using list_emb_append_mono[OF past, of "[]" "[i]"] by simp
    next
      case (Cons e es')
      then show ?thesis using es list_emb_append_mono[OF past, of "[i]" "[i]"] by simp
    qed
    moreover have "\<forall>(j, e) \<in> set ?H. j < length ?ps \<and> (e = Lost \<longrightarrow> lossy j)" using whose gone i(1) by auto
    ultimately show ?thesis unfolding step recorded_def fst_conv snd_conv using cfg' by (intro conjI exI[of _ ?H])
  qed
qed

lemma run_recorded:
  "recorded c lossy b0 post q0 past w \<Longrightarrow> recorded c lossy b0 post q0 (past @ is) (run_schedule is w)"
proof (induction "is" arbitrary: past w)
  case (Cons i "is")
  have "recorded c lossy b0 post q0 (past @ [i]) (step_thread i w)"
    using step_recorded[of c lossy b0 post q0 past "fst w" "snd w" i] Cons.prems by simp
  from Cons.IH[OF this] show ?case by simp
qed simp

section \<open>The handlers\<close>

text \<open>An answer that neither accepts nor hands out a message.\<close>

definition handed :: "answer \<Rightarrow> string list option" where
  "handed ans = (case ans of
     Answer st (BJson (JDict [(k, JList vs)])) \<Rightarrow> if k = ''messages'' then Some (map py_str vs) else None
   | _ \<Rightarrow> None)"

lemma handed_messages [simp]: "handed (Answer st (messages_payload ms)) = Some ms"
  by (simp add: handed_def messages_payload_def comp_def py_str_def)

lemma handed_others [simp]: "handed (Answer st BEmpty) = None" "handed (Waiting d due) = None"
  by (simp_all add: handed_def)

definition plain :: "answer \<Rightarrow> bool" where
  "plain ans \<longleftrightarrow> ans \<noteq> Answer 202 BEmpty \<and> handed ans = None"

lemma plain_answers [simp]:
  "plain (write_error st msg)" "plain (Died e)" "plain (Waiting d due)" "plain rate_limited"
  "plain (Answer st (BJson (JDict [(''agent_id'', v)])))" "plain (Answer st (BJson (JDict [(''status'', v)])))"
  "plain (Answer st BHtml)" "plain (Answer st (BAgents es))" "plain (Answer st (BTraffic rs))" "plain (Answer st (BText t))"
  "plain (Answer st BEmpty) = (st \<noteq> 202)"
  by (simp_all add: plain_def) (simp_all add: handed_def write_error_def error_payload_def rate_limited_def split: json.splits)

lemma plain_read_body: "read_body rq b = Inl ans \<Longrightarrow> plain ans"
  by (auto simp: read_body_def plain_def handed_def split: option.splits if_splits)

lemma box_updates [simp]:
  "box (b\<lparr>registry := x1\<rparr>) c = box b c" "box (b\<lparr>capabilities := x2\<rparr>) c = box b c"
  "box (b\<lparr>last_heartbeat := x3\<rparr>) c = box b c" "box (b\<lparr>ttl_seconds := x4\<rparr>) c = box b c"
  "box (b\<lparr>mailboxes := dict_setdefault k [] (mailboxes b)\<rparr>) c = box b c"
  by (simp_all add: box_def) (auto simp: dict_simps split: option.split)

lemma plain_accepted: "plain ans \<Longrightarrow> accepted rq b ans = []"
  by (simp add: plain_def accepted_not_202)

lemma still_audit: "still c lossy b0 (\<lambda>_. True) (audit_prog ac who path status detail)"
  unfolding audit_prog_def by (rule still_update) simp_all

lemma still_reject: "still c lossy b0 plain (reject_prog status detail who)"
  unfolding reject_prog_def by (intro still_seq still_audit) simp

lemma still_rate: "still c lossy b0 (\<lambda>_. True) (rate_prog now k)"
proof -
  have "still c lossy b0 (\<lambda>_. True) (access (consume_bucket now k))"
    by (rule still_access) (simp_all add: consume_bucket_def split: option.split prod.split)
  then show ?thesis
    unfolding rate_prog_def
    by (intro still_bind[where M = "\<lambda>_. True"] still_look)
      (auto intro!: still_seq still_update simp: get_bucket_def)
qed

text \<open>Which principal is admitted is settled by the configuration.\<close>

lemma still_admit:
  "still c lossy b0 (\<lambda>r. case r of Inl ans \<Rightarrow> plain ans | Inr who \<Rightarrow> authenticate q rq b0 = Inr who) (admit_prog q a rq)"
  unfolding admit_prog_def
proof (rule still_bind)
  show "still c lossy b0 (\<lambda>r. r = authenticate q rq b0) (look (authenticate q rq))"
    by (rule still_look) (rule authenticate_config)
  fix r
  assume r: "r = authenticate q rq b0"
  show "still c lossy b0 (\<lambda>r. case r of Inl ans \<Rightarrow> plain ans | Inr who \<Rightarrow> authenticate q rq b0 = Inr who) (case r of
       Inl ans \<Rightarrow> Ret (Inl ans)
     | Inr who \<Rightarrow> bind_prog (rate_prog (mono a) (if who \<noteq> [] then who else ''__anonymous__'')) (\<lambda>ok.
           Ret (if ok then Inr who else Inl rate_limited)))"
    using r by (auto intro!: still_bind[OF still_rate] dest!: authenticate_Inl[of q rq b0] split: sum.split)
qed

lemma still_apply_register: "still c lossy b0 (\<lambda>_. True) (apply_register_prog now v)"
  unfolding apply_register_prog_def
  by (intro still_seq still_update) (auto intro!: still_update simp: Let_def split: option.split)

lemma still_body: "still c lossy b0 (\<lambda>r. r = read_body rq b0) (look (read_body rq))"
  by (rule still_look) (rule read_body_config)

lemma still_register: "still c lossy b0 plain (register_prog a who rq)"
proof -
  have "still c lossy b0 (\<lambda>_. True) (look (validate_register_payload data who))" for data by (rule still_look) simp
  then show ?thesis
    unfolding register_prog_def
    by (intro still_bind[OF still_body])
      (auto intro!: still_reject still_bind still_seq still_apply_register still_audit
        dest: plain_read_body simp: Let_def split: sum.splits option.split)
qed

text \<open>Removing an agent discards its mailbox.\<close>

lemma still_drop: "still c True b0 (\<lambda>_. True) (update (\<lambda>b. b\<lparr>mailboxes := dict_pop x (mailboxes b)\<rparr>))"
  unfolding still_def update_def
proof (intro allI tally_access)
  fix evs b
  have "box (b\<lparr>mailboxes := dict_pop x (mailboxes b)\<rparr>) c = (if c = x then [] else box b c)"
    by (simp add: box_def dict_simps)
  then show "\<exists>es. length es \<le> 1 \<and> replay es (box b c) = Some (box (fst (b\<lparr>mailboxes := dict_pop x (mailboxes b)\<rparr>, ())) c) \<and>
      (Lost \<in> set es \<longrightarrow> True) \<and> evs @ kept es = evs \<and> True"
    by (intro exI[of _ "if c = x then [Lost] else []"]) simp
qed simp

lemma still_forget: "still c True b0 (\<lambda>_. True) (forget_prog x)"
  unfolding forget_prog_def by (intro still_seq still_drop still_update) simp_all

lemma still_deregister: "still c True b0 plain (deregister_prog who rq)"
  unfolding deregister_prog_def by (auto intro!: still_seq still_forget still_audit simp: Let_def)

lemma still_evict: "still c True b0 (\<lambda>_. True) (evict_prog now ep)"
  unfolding evict_prog_def
  by (rule still_bind[where M = "\<lambda>_. True"]) (auto intro!: still_look still_forget split: option.splits)

lemma still_evict_all: "still c True b0 (\<lambda>_. True) (evict_all_prog now eps)"
  by (induction eps) (auto intro: still_seq still_evict)

lemma still_sweep: "still c True b0 (\<lambda>_. True) (sweep_prog now)"
  unfolding sweep_prog_def by (rule still_bind[where M = "\<lambda>_. True"]) (auto intro: still_look still_evict_all)

lemma still_answer: "Q ans \<Longrightarrow> still c lossy b0 Q (send_answer_prog a who m disp st detail ans)"
proof -
  have "still c lossy b0 (\<lambda>_. True) (traffic_prog a m disp st)"
    unfolding traffic_prog_def by (rule still_update) simp_all
  then show "Q ans \<Longrightarrow> ?thesis" unfolding send_answer_prog_def by (intro still_seq still_audit) simp_all
qed

section \<open>Accepting and handing out\<close>

text \<open>The events of a send: its message is put when the answer is 202, and nothing otherwise.\<close>

definition sent_mail :: "string \<Rightarrow> message \<Rightarrow> answer \<Rightarrow> mail_event list" where
  "sent_mail c m ans =
     (if ans = Answer 202 BEmpty \<and> py_str (recipient (meta m)) = c then [Put (serialize m)] else [])"

abbreviation sends :: "string \<Rightarrow> message \<Rightarrow> mail_event list \<Rightarrow> mail_event list \<Rightarrow> answer \<Rightarrow> bool" where
  "sends c m evs h ans \<equiv> h = evs @ sent_mail c m ans"

lemma sent_mail_plain [simp]: "plain ans \<Longrightarrow> sent_mail c m ans = []"
  by (auto simp: sent_mail_def)

lemma tally_plain: "still c lossy b0 plain p \<Longrightarrow> tally c lossy b0 (sends c m evs) evs p"
  by (erule tally_still) simp

lemma tally_queued:
  assumes "d = py_str (recipient (meta m))"
  shows "tally c lossy b0 (sends c m evs) evs
    (seq_prog (update (enqueue d (serialize m))) (send_answer_prog a who m QUEUED 202 detail (Answer 202 BEmpty)))"
  unfolding seq_prog_def
proof (rule tally_bind)
  let ?es = "if d = c then [Put (serialize m)] else []"
  show "tally c lossy b0 (\<lambda>h _. h = evs @ ?es) evs (update (enqueue d (serialize m)))"
    unfolding update_def
  proof (rule tally_access)
    fix b
    show "\<exists>es. length es \<le> 1 \<and> replay es (box b c) = Some (box (fst (enqueue d (serialize m) b, ())) c) \<and>
        (Lost \<in> set es \<longrightarrow> lossy) \<and> evs @ kept es = evs @ ?es"
      by (intro exI[of _ ?es]) (simp add: box_enqueue)
  qed simp
  fix h and x :: unit
  assume h: "h = evs @ ?es"
  have "still c lossy b0 (\<lambda>ans. ans = Answer 202 BEmpty) (send_answer_prog a who m QUEUED 202 detail (Answer 202 BEmpty))"
    by (rule still_answer) (rule refl)
  then show "tally c lossy b0 (sends c m evs) h (send_answer_prog a who m QUEUED 202 detail (Answer 202 BEmpty))"
    by (rule tally_still) (simp add: h assms sent_mail_def)
qed

lemma still_route: "still c lossy b0 (\<lambda>r. \<forall>st bd. r = Inr (st, bd) \<longrightarrow> st \<noteq> 202) (route_prog net sleep a m)"
  unfolding route_prog_def
proof (rule still_bind)
  show "still c lossy b0 (\<lambda>_. True) (look (\<lambda>b. b))" by (rule still_look) simp
  have "st \<noteq> 202" if "fst (route_send net sleep a m b s) = Inr (st, bd)" for b s st bd
    by (rule route_send_not_202[of net sleep a m b s st bd]) (use that in \<open>simp add: prod_eq_iff\<close>)
  then show "still c lossy b0 (\<lambda>r. \<forall>st bd. r = Inr (st, bd) \<longrightarrow> st \<noteq> 202) (network (route_send net sleep a m b))" for b
    unfolding still_def network_def split_beta
    by (intro allI tally_Atom) (auto intro!: exI[of _ "[]"])
qed

lemma tally_message: "tally c lossy b0 (sends c m evs) evs (message_prog net sleep a who m)"
proof -
  have found: "still c lossy b0 (\<lambda>_. True) (look (\<lambda>b. reg_lookup_value (recipient (meta m)) (registry b)))"
    by (rule still_look) simp
  show ?thesis
    unfolding message_prog_def Let_def
    by (auto intro!: tally_plain[OF still_answer] tally_still_bind[OF found] tally_queued
        tally_plain[OF still_bind[OF still_route]] still_answer split: sum.split exn.split option.split)
qed

abbreviation posted_events :: "string \<Rightarrow> http_request \<Rightarrow> broker \<Rightarrow> answer \<Rightarrow> mail_event list" where
  "posted_events c rq b ans \<equiv> map Put (of_agent c (accepted rq b ans))"

lemma tally_send:
  "tally c lossy b0 (\<lambda>h ans. h = posted_events c rq b0 ans) [] (send_prog net sleep a who rq)"
  (is "tally c lossy b0 ?post _ _")
  unfolding send_prog_def
proof (rule tally_still_bind[OF still_body])
  fix r
  assume r: "r = read_body rq b0"
  have plain: "tally c lossy b0 ?post [] p" if "still c lossy b0 plain p" for p :: "('a, answer) handler"
    using that by (rule tally_still) (simp add: plain_accepted)
  show "tally c lossy b0 ?post [] (case r of Inl ans \<Rightarrow> Ret ans
     | Inr raw \<Rightarrow> (case deserialize raw of
         Inl e \<Rightarrow>
           if is_protocol_error e then
             seq_prog (audit_prog ''send'' who ''/messages'' 400 (''deserialization error: '' @ exn_str e))
               (Ret (write_error 400 (exn_str e)))
           else Ret (Died e)
       | Inr m \<Rightarrow> message_prog net sleep a who m))"
  proof (cases "\<exists>raw m. r = Inr raw \<and> deserialize raw = Inr m")
    case True
    then obtain raw m where m: "r = Inr raw" "deserialize raw = Inr m" by blast
    have "tally c lossy b0 ?post [] (bind_prog (message_prog net sleep a who m) Ret)"
      by (rule tally_bind[OF tally_message]) (use m r in \<open>auto simp: sent_mail_def accepted_def\<close>)
    then show ?thesis by (simp add: m)
  next
    case False
    with r show ?thesis by (auto intro!: plain still_seq still_audit simp: plain_accepted plain_read_body[of rq b0] split: sum.split)
  qed
qed

text \<open>The events of a poll: the queue is taken, if its answer hands out messages.\<close>

definition taken_events :: "string \<Rightarrow> string \<Rightarrow> answer \<Rightarrow> mail_event list" where
  "taken_events c d ans = (case handed ans of None \<Rightarrow> [] | Some ms \<Rightarrow> if d = c then [Took ms] else [])"

lemma taken_plain [simp]: "plain ans \<Longrightarrow> taken_events c d ans = []"
  by (simp add: taken_events_def plain_def)

lemma tally_poll_check: "tally c lossy b0 (\<lambda>h ans. h = taken_events c d ans) [] (poll_check_prog now d deadline)"
  unfolding poll_check_prog_def
proof (rule tally_bind)
  show "tally c lossy b0 (\<lambda>h x. h = taken_events c d (fst x)) [] (access (take_mail now d deadline))"
  proof (rule tally_access)
    fix b :: broker
    let ?t = "take_mail now d deadline b"
    have "replay (taken_events c d (fst (snd ?t))) (box b c) = Some (box (fst ?t) c)"
      by (auto simp: taken_events_def take_mail_def box_def dict_simps split: option.split)
    then show "\<exists>es. length es \<le> 1 \<and> replay es (box b c) = Some (box (fst ?t) c) \<and> (Lost \<in> set es \<longrightarrow> lossy) \<and>
        [] @ kept es = taken_events c d (fst (snd ?t))"
      by (intro exI[of _ "taken_events c d (fst (snd ?t))"]) (auto simp: taken_events_def split: option.splits if_splits)
  qed (simp add: take_mail_def split: option.split)
  fix h and x :: "answer \<times> nat option"
  assume "h = taken_events c d (fst x)"
  then show "tally c lossy b0 (\<lambda>h ans. h = taken_events c d ans) h (case x of (ans, taken) \<Rightarrow>
      (case taken of None \<Rightarrow> Ret ans
        | Some n \<Rightarrow> seq_prog (audit_prog ''poll'' d ''/messages'' 200 (''delivered='' @ nat_str n)) (Ret ans)))"
    by (auto intro!: tally_still_seq still_audit split: prod.split option.split)
qed

lemma still_auto_register: "still c lossy b0 (\<lambda>_. True) (auto_register_prog now d)"
  unfolding auto_register_prog_def by (intro still_seq still_audit still_update) simp_all

lemma tally_poll:
  "tally c lossy b0 (\<lambda>h ans. h = taken_events c (poll_id_of who rq) ans) [] (poll_prog a who rq)"
proof -
  have has: "still c lossy b0 (\<lambda>_. True) (look (\<lambda>b. dict_has (mailboxes b) d))" for d
    by (rule still_look) simp
  have beat: "still c lossy b0 (\<lambda>_. True) (update (\<lambda>b. if dict_has (ttl_seconds b) d
      then b\<lparr>last_heartbeat := dict_set d (mono a) (last_heartbeat b)\<rparr> else b))" for d
    by (rule still_update) simp_all
  show ?thesis
    unfolding poll_prog_def Let_def poll_id_of_def
    by (auto intro!: tally_still_bind[OF has] tally_still_seq still_auto_register beat tally_poll_check)
qed

section \<open>Jobs\<close>

text \<open>What a job with the given result has accepted and handed out, as in \<open>Broker_System\<close>.\<close>

fun job_accepted :: "broker \<Rightarrow> job \<Rightarrow> answer option \<Rightarrow> (string \<times> string) list" where
  "job_accepted b (Request POST a rq) (Some ans) = accepted rq b ans"
| "job_accepted b j r = []"

fun job_delivered :: "broker \<Rightarrow> job \<Rightarrow> answer option \<Rightarrow> (string \<times> string) list" where
  "job_delivered b (Request meth a rq) (Some ans) =
     (case polled_by meth rq b of Some d \<Rightarrow> delivered d ans | None \<Rightarrow> [])"
| "job_delivered b (Wake now d deadline) (Some ans) = delivered d ans"
| "job_delivered b j r = []"

fun job_removes :: "job \<Rightarrow> bool" where
  "job_removes (Request DELETE a rq) = True"
| "job_removes (Sweep now) = True"
| "job_removes j = False"

text \<open>The events of the history that the answer of a job tells of, in \<open>b\<close> with its configuration.\<close>

fun job_events :: "string \<Rightarrow> broker \<Rightarrow> job \<Rightarrow> answer option \<Rightarrow> mail_event list" where
  "job_events c b (Request POST a rq) (Some ans) = posted_events c rq b ans"
| "job_events c b (Request meth a rq) (Some ans) =
     (case polled_by meth rq b of Some d \<Rightarrow> taken_events c d ans | None \<Rightarrow> [])"
| "job_events c b (Wake now d deadline) (Some ans) = taken_events c d ans"
| "job_events c b j r = []"

abbreviation told_by :: "string \<Rightarrow> broker \<Rightarrow> job \<Rightarrow> mail_event list \<Rightarrow> answer option \<Rightarrow> bool" where
  "told_by c b j evs r \<equiv> evs = job_events c b j r"

lemma delivered_handed: "delivered d ans = (case handed ans of None \<Rightarrow> [] | Some ms \<Rightarrow> map (Pair d) ms)"
  by (auto simp: delivered_def handed_def comp_def split: answer.split body.split json.split list.split)

lemma posted_amount [simp]: "puts (map Put ms) = ms" "takes (map Put ms) = []"
  by (induction ms) simp_all

lemma taken_amount [simp]: "takes (taken_events c d ans) = of_agent c (delivered d ans)" "puts (taken_events c d ans) = []"
proof -
  have own: "of_agent c (map (Pair c) ms) = ms" for ms
    by (induction ms) simp_all
  have other: "d \<noteq> c \<Longrightarrow> of_agent c (map (Pair d) ms) = []" for ms
    by (induction ms) simp_all
  show "takes (taken_events c d ans) = of_agent c (delivered d ans)" "puts (taken_events c d ans) = []"
    by (simp_all add: taken_events_def delivered_handed own other split: option.split)
qed

lemma job_events_amount:
  "puts (job_events c b j r) = of_agent c (job_accepted b j r)" "takes (job_events c b j r) = of_agent c (job_delivered b j r)"
proof -
  have "puts (job_events c b j r) = of_agent c (job_accepted b j r) \<and> takes (job_events c b j r) = of_agent c (job_delivered b j r)"
  proof (cases j)
    case (Request meth a rq)
    then show ?thesis by (cases meth; cases r) (simp_all add: polled_by_def split: option.split)
  qed (cases r, simp_all)+
  then show "puts (job_events c b j r) = of_agent c (job_accepted b j r)"
    "takes (job_events c b j r) = of_agent c (job_delivered b j r)" by simp_all
qed

lemma tally_post:
  "tally c lossy b0 (\<lambda>h ans. h = posted_events c rq b0 ans) [] (post_prog net sleep a rq)"
  unfolding post_prog_def
proof (rule tally_still_bind[OF still_admit])
  fix r :: "answer + string"
  assume r: "case r of Inl ans \<Rightarrow> plain ans | Inr who \<Rightarrow> authenticate False rq b0 = Inr who"
  show "tally c lossy b0 (\<lambda>h ans. h = posted_events c rq b0 ans) [] (case r of
       Inl ans \<Rightarrow> Ret ans
     | Inr who \<Rightarrow>
         if rq_path rq = ''/agents'' then register_prog a who rq
         else if rq_path rq = DEFAULT_MESSAGE_PATH then send_prog net sleep a who rq
         else Ret (write_error 404 ''not found''))"
    using r by (auto simp: plain_accepted intro!: tally_send tally_still[OF still_register] split: sum.split)
qed

lemma still_agents: "still c lossy b0 plain (agents_prog a)"
proof -
  have entries: "still c lossy b0 (\<lambda>_. True) (entries_prog hb ttl now cs)" for hb ttl now cs
    by (induction cs) (auto intro!: still_bind[where M = "\<lambda>_. True"] still_look)
  show ?thesis
    unfolding agents_prog_def
    by (rule still_bind[where M = "\<lambda>_. True"], rule still_look)
      (auto intro!: still_bind[where M = "\<lambda>_. True"] still_look entries)
qed

text \<open>The events of a \<open>GET\<close>: what its answer hands out, if it is a poll.\<close>

abbreviation polls :: "string \<Rightarrow> http_request \<Rightarrow> broker \<Rightarrow> mail_event list \<Rightarrow> answer \<Rightarrow> bool" where
  "polls c rq b0 evs ans \<equiv> evs = (case polled_by GET rq b0 of Some d \<Rightarrow> taken_events c d ans | None \<Rightarrow> [])"

lemma polls_plain: "plain ans \<Longrightarrow> polls c rq b0 [] ans"
  by (simp split: option.split)

lemma tally_polls: "still c lossy b0 plain p \<Longrightarrow> tally c lossy b0 (polls c rq b0) [] p"
  by (erule tally_still) (rule polls_plain)

definition served_get :: "ambient \<Rightarrow> http_request \<Rightarrow> string \<Rightarrow> ('s, answer) handler" where
  "served_get a rq who =
     (let path = url_path (rq_path rq)
      in if path = ''/agents'' then agents_prog a
         else if path = ''/traffic'' then look (handle_traffic rq)
         else if path = DEFAULT_MESSAGE_PATH then poll_prog a who rq
         else bind_prog (look dashboard_enabled) (\<lambda>enabled.
           Ret (if enabled \<and> (path = ''/dashboard'' \<or> path = ''/'') then Answer 200 BHtml
                else write_error 404 ''not found'')))"

lemma tally_served:
  assumes "authenticate (url_path (rq_path rq) \<in> set dashboard_reading_paths) rq b0 = Inr who"
  shows "tally c lossy b0 (polls c rq b0) [] (served_get a rq who)"
proof -
  let ?path = "url_path (rq_path rq)"
  have traffic: "still c lossy b0 plain (look (handle_traffic rq))"
    by (rule still_look) (simp add: handle_traffic_def Let_def)
  have page: "still c lossy b0 plain (bind_prog (look dashboard_enabled) (\<lambda>enabled.
      Ret (if enabled \<and> (?path = ''/dashboard'' \<or> ?path = ''/'') then Answer 200 BHtml else write_error 404 ''not found'')))"
    by (rule still_bind[where M = "\<lambda>_. True"]) (simp_all add: still_look)
  have poll: "tally c lossy b0 (polls c rq b0) [] (poll_prog a who rq)" if "?path = DEFAULT_MESSAGE_PATH"
  proof -
    have "polled_by GET rq b0 = Some (poll_id_of who rq)"
      using assms that by (simp add: polled_by_def admission_def query_token_allowed_def)
    then show ?thesis using tally_poll[of c lossy b0 who rq a] by simp
  qed
  show ?thesis
    unfolding served_get_def Let_def
    by (rule tally_if, rule tally_polls[OF still_agents], rule tally_if, rule tally_polls[OF traffic], rule tally_if,
        rule poll, assumption, rule tally_polls[OF page])
qed

lemma tally_get: "tally c lossy b0 (polls c rq b0) [] (get_prog a rq)"
proof (cases "rq_path rq = HEALTH_PATH")
  case True
  then show ?thesis using polls_plain[OF plain_answers(6)] by (simp add: get_prog_def)
next
  case False
  have get: "get_prog a rq = bind_prog (admit_prog (url_path (rq_path rq) \<in> set dashboard_reading_paths) a rq) (\<lambda>r. case r of
      Inl ans \<Rightarrow> Ret ans | Inr who \<Rightarrow> served_get a rq who)"
    using False by (simp add: get_prog_def served_get_def Let_def cong: sum.case_cong)
  show ?thesis
    unfolding get
  proof (rule tally_still_bind[OF still_admit])
    fix r :: "answer + string"
    assume "case r of Inl ans \<Rightarrow> plain ans
      | Inr who \<Rightarrow> authenticate (url_path (rq_path rq) \<in> set dashboard_reading_paths) rq b0 = Inr who"
    then show "tally c lossy b0 (polls c rq b0) [] (case r of Inl ans \<Rightarrow> Ret ans | Inr who \<Rightarrow> served_get a rq who)"
      using polls_plain tally_served by (cases r) auto
  qed
qed

lemma tally_delete: "still c True b0 plain (delete_prog a rq)"
  unfolding delete_prog_def
  by (rule still_bind[OF still_admit]) (auto intro!: still_deregister split: sum.splits)

lemma tally_job: "tally c (job_removes j) b0 (told_by c b0 j) [] (job_prog net sleep j)"
proof (cases j)
  case (Request meth a rq)
  have poll: "polled_by meth rq b0 = None" if "meth \<noteq> GET" using that by (simp add: polled_by_def)
  show ?thesis
  proof (cases meth)
    case GET
    then show ?thesis
      by (auto simp: Request request_prog_def intro!: tally_bind[OF tally_get])
  next
    case POST
    then show ?thesis
      using poll by (auto simp: Request request_prog_def intro!: tally_bind[OF tally_post])
  next
    case DELETE
    then show ?thesis
      using poll by (auto simp: Request request_prog_def plain_accepted intro!: tally_still_bind[OF tally_delete])
  qed
next
  case (Wake now d deadline)
  then show ?thesis by (auto intro!: tally_bind[OF tally_poll_check])
next
  case (Sweep now)
  then show ?thesis by (auto intro!: tally_still_seq still_sweep)
qed

text \<open>When all threads have answered, the history tells of their answers.\<close>

lemma jobs_recorded:
  assumes "run_schedule sched (map (job_prog net sleep) jobs, (b, s)) = (map Ret answers, (b', s'))"
  shows "\<exists>H. replay (map snd H) (box b c) = Some (box b' c) \<and> subseq (map fst H) sched \<and>
    (\<forall>i < length jobs. of_thread i H = job_events c b (jobs ! i) (answers ! i)) \<and>
    (\<forall>(i, e) \<in> set H. i < length jobs \<and> (e = Lost \<longrightarrow> job_removes (jobs ! i)))"
proof -
  let ?w = "(map (job_prog net sleep) jobs, (b, s))"
  have len: "length answers = length jobs" using run_length[of sched ?w] assms by simp
  have "recorded c (\<lambda>i. job_removes (jobs ! i)) b (\<lambda>i. told_by c b (jobs ! i)) (box b c) [] ?w"
    unfolding recorded_def by (rule conjI, simp, rule exI[of _ "[]"]) (simp add: tally_job of_thread_def)
  from run_recorded[OF this, of sched] obtain H where
    all: "\<forall>i < length answers. tally c (job_removes (jobs ! i)) b (told_by c b (jobs ! i)) (of_thread i H)
      (map Ret answers ! i :: ('a, answer option) handler)"
    and H: "replay (map snd H) (box b c) = Some (box b' c)" "subseq (map fst H) sched"
      "\<forall>(i, e) \<in> set H. i < length answers \<and> (e = Lost \<longrightarrow> job_removes (jobs ! i))"
    unfolding recorded_def assms fst_conv snd_conv length_map append_Nil by blast
  from all have "\<forall>i < length jobs. of_thread i H = job_events c b (jobs ! i) (answers ! i)" by (simp add: len)
  with H show ?thesis unfolding len by blast
qed

text \<open>What the threads can tell adds up to the history, losses aside.\<close>

lemma threads_add_up:
  assumes "\<forall>(i, e) \<in> set H. i < n"
  shows "(\<Sum>i < n. mset (puts (of_thread i H))) = mset (puts (map snd H))" (is "?P H")
    and "(\<Sum>i < n. mset (takes (of_thread i H))) = mset (takes (map snd H))" (is "?T H")
proof -
  have "?P H \<and> ?T H"
    using assms
  proof (induction H)
    case (Cons x H)
    obtain j e where x: "x = (j, e)" by (rule prod.exhaust)
    have "mset (puts (of_thread i (x # H))) = (if i = j then mset (puts [e]) else {#}) + mset (puts (of_thread i H))"
      "mset (takes (of_thread i (x # H))) = (if i = j then mset (takes [e]) else {#}) + mset (takes (of_thread i H))" for i
      by (cases e; simp add: x of_thread_def)+
    moreover have "mset (puts (map snd (x # H))) = mset (puts [e]) + mset (puts (map snd H))"
      "mset (takes (map snd (x # H))) = mset (takes [e]) + mset (takes (map snd H))"
      by (cases e; simp add: x)+
    ultimately show ?case using Cons by (simp only: sum.distrib) (simp add: x)
  qed (simp add: of_thread_def)
  then show "?P H" "?T H" by simp_all
qed

lemma jobs_balance:
  assumes "run_schedule sched (map (job_prog net sleep) jobs, (b, s)) = (map Ret answers, (b', s'))"
  shows "\<exists>lost. mset (box b' c) + (\<Sum>i < length jobs. mset (of_agent c (job_delivered b (jobs ! i) (answers ! i)))) + lost =
      mset (box b c) + (\<Sum>i < length jobs. mset (of_agent c (job_accepted b (jobs ! i) (answers ! i)))) \<and>
    (lost \<noteq> {#} \<longrightarrow> (\<exists>j \<in> set jobs. job_removes j))"
proof -
  obtain H where H: "replay (map snd H) (box b c) = Some (box b' c)"
    "\<forall>i < length jobs. of_thread i H = job_events c b (jobs ! i) (answers ! i)"
    "\<forall>(i, e) \<in> set H. i < length jobs \<and> (e = Lost \<longrightarrow> job_removes (jobs ! i))"
    using jobs_recorded[OF assms, of c] by blast
  have whose: "\<forall>(i, e) \<in> set H. i < length jobs" using H(3) by auto
  have "mset (takes (map snd H)) = (\<Sum>i < length jobs. mset (of_agent c (job_delivered b (jobs ! i) (answers ! i))))"
    "mset (puts (map snd H)) = (\<Sum>i < length jobs. mset (of_agent c (job_accepted b (jobs ! i) (answers ! i))))"
    unfolding threads_add_up[OF whose, symmetric] by (rule sum.cong; use H(2) in \<open>simp add: job_events_amount\<close>)+
  moreover obtain lost where "mset (box b' c) + mset (takes (map snd H)) + lost = mset (box b c) + mset (puts (map snd H))"
    "lost \<noteq> {#} \<longrightarrow> Lost \<in> set (map snd H)"
    using replay_balance[OF H(1)] by blast
  moreover have "Lost \<in> set (map snd H) \<longrightarrow> (\<exists>j \<in> set jobs. job_removes j)" using H(3) by fastforce
  ultimately show ?thesis by (intro exI[of _ lost]) simp
qed

end
