(* ===== verification/Broker_Settling.thy ===== *)
theory Broker_Settling
  imports Broker_Isolation Broker_Ledger
begin

text \<open>
  Registrations, polls and sends that overlap. A registration fills five tables with one access
  each, so in between an agent can be in some of them only; but whoever begins also ends. Every
  thread carries the entries it still has to make, and an entry that is missing is on the list of
  some thread. When all threads are done nothing is missing, so without removals and sweeps every
  schedule ends in a broker whose tables agree.
\<close>

section \<open>Tables\<close>

datatype table = Registry | Caps | Beats | Ttls | Boxes

text \<open>Whether an agent's entry in a table is there; a mailbox is needed by a mailbox agent only.\<close>

fun entered :: "table \<Rightarrow> string \<Rightarrow> broker \<Rightarrow> bool" where
  "entered Registry c b = dict_has (registry b) c"
| "entered Caps c b = dict_has (capabilities b) c"
| "entered Beats c b = dict_has (last_heartbeat b) c"
| "entered Ttls c b = dict_has (ttl_seconds b) c"
| "entered Boxes c b = (\<forall>ep. dict_get (registry b) c = Some ep \<longrightarrow> ep_mailbox ep \<longrightarrow> dict_has (mailboxes b) c)"

definition known :: "broker \<Rightarrow> string set" where
  "known b = dict_keys (registry b) \<union> dict_keys (capabilities b) \<union> dict_keys (last_heartbeat b) \<union>
     dict_keys (ttl_seconds b) \<union> dict_keys (mailboxes b)"

definition tables_agree :: "broker \<Rightarrow> bool" where
  "tables_agree b \<longleftrightarrow> (\<forall>c \<in> known b. \<forall>t. entered t c b)"

lemma tables_agreeD:
  assumes "tables_agree b"
  shows "dict_keys (capabilities b) = agents b" "dict_keys (last_heartbeat b) = agents b" "dict_keys (ttl_seconds b) = agents b"
    "dict_keys (mailboxes b) \<subseteq> agents b"
    "dict_get (registry b) c = Some ep \<Longrightarrow> ep_mailbox ep \<Longrightarrow> c \<in> dict_keys (mailboxes b)"
proof -
  have all: "c \<in> known b \<Longrightarrow> c \<in> agents b \<and> c \<in> dict_keys (capabilities b) \<and> c \<in> dict_keys (last_heartbeat b) \<and>
      c \<in> dict_keys (ttl_seconds b) \<and> entered Boxes c b" for c
    using assms unfolding tables_agree_def agents_def by (metis entered.simps(1-4) has_iff_keys)
  then show "dict_keys (capabilities b) = agents b" "dict_keys (last_heartbeat b) = agents b" "dict_keys (ttl_seconds b) = agents b"
    "dict_keys (mailboxes b) \<subseteq> agents b"
    unfolding known_def agents_def by blast+
  assume "dict_get (registry b) c = Some ep" "ep_mailbox ep"
  moreover from this have "c \<in> known b" by (simp add: known_def get_Some_keys)
  ultimately show "c \<in> dict_keys (mailboxes b)" using all[of c] by (simp add: has_iff_keys)
qed

section \<open>Entries that are due\<close>

text \<open>The program makes the entry before it ends, in whatever states it runs.\<close>

inductive due :: "string \<Rightarrow> table \<Rightarrow> ('s, 'a) handler \<Rightarrow> bool" for c t where
  due_Atom: "(\<And>st. entered t c (fst (fst (f st))) \<or> due c t (snd (f st))) \<Longrightarrow> due c t (Atom f)"

inductive_simps due_simps [simp]: "due c t (Ret x)"

inductive_cases due_AtomE: "due c t (Atom f)"

lemma due_bind: "due c t p \<Longrightarrow> due c t (bind_prog p k)"
proof (induction p rule: due.induct)
  case (due_Atom f)
  show ?case unfolding bind_Atom split_beta by (rule due.due_Atom) (use due_Atom in auto)
qed

lemma due_bind_later: "(\<And>x. due c t (k x)) \<Longrightarrow> due c t (bind_prog p k)"
  by (induction p rule: prog_induct) (auto simp: split_beta intro!: due_Atom)

lemma due_update: "(\<And>b. entered t c (f b)) \<Longrightarrow> due c t (update f)"
  by (auto simp: update_def access_def intro!: due_Atom)

lemma due_now: "(\<And>b. entered t c (f b)) \<Longrightarrow> due c t (seq_prog (update f) q)"
  unfolding seq_prog_def by (rule due_bind[OF due_update])

lemma due_later: "due c t q \<Longrightarrow> due c t (seq_prog p q)"
  unfolding seq_prog_def by (rule due_bind_later)

text \<open>
  An access may make agents known when the entries that they then lack are due in the rest of its
  thread; it takes no entry away unless it is due as well. \<open>K\<close> is a set of agents that are known
  by now, \<open>post\<close> what holds of it and of the result at the end.
\<close>

inductive settles :: "(string set \<Rightarrow> 'a \<Rightarrow> bool) \<Rightarrow> string set \<Rightarrow> ('s, 'a) handler \<Rightarrow> bool" for post where
  settles_Ret: "post K x \<Longrightarrow> settles post K (Ret x)"
| settles_Atom:
    "(\<And>st. K \<subseteq> known (fst st) \<Longrightarrow> known (fst st) \<subseteq> known (fst (fst (f st)))) \<Longrightarrow>
     (\<And>st c t. K \<subseteq> known (fst st) \<Longrightarrow> c \<in> known (fst (fst (f st))) \<Longrightarrow>
        entered t c (fst (fst (f st))) \<or> due c t (snd (f st)) \<or> (c \<in> known (fst st) \<and> \<not> entered t c (fst st))) \<Longrightarrow>
     (\<And>st. K \<subseteq> known (fst st) \<Longrightarrow> \<exists>K'. K' \<subseteq> known (fst (fst (f st))) \<and> settles post K' (snd (f st))) \<Longrightarrow>
     settles post K (Atom f)"

inductive_simps settles_simps [simp]: "settles post K (Ret x)"

inductive_cases settles_AtomE: "settles post K (Atom f)"

lemma settles_bind:
  assumes "settles mid K p" "\<And>K x. mid K x \<Longrightarrow> settles post K (k x)"
  shows "settles post K (bind_prog p k)"
  using assms(1)
proof induction
  case (settles_Atom K f)
  show ?case
    unfolding bind_Atom
  proof (rule settles.settles_Atom; unfold split_beta fst_conv snd_conv)
    fix st :: "broker \<times> 'b"
    assume st: "K \<subseteq> known (fst st)"
    show "known (fst st) \<subseteq> known (fst (fst (f st)))" by (rule settles_Atom.hyps(1)[OF st])
    show "entered t c (fst (fst (f st))) \<or> due c t (bind_prog (snd (f st)) k) \<or> c \<in> known (fst st) \<and> \<not> entered t c (fst st)"
      if "c \<in> known (fst (fst (f st)))" for c t
      using settles_Atom.hyps(2)[OF st that, of t] due_bind by blast
    show "\<exists>K'. K' \<subseteq> known (fst (fst (f st))) \<and> settles post K' (bind_prog (snd (f st)) k)"
      using settles_Atom.IH[OF st] by blast
  qed
qed (simp add: assms(2))

lemma settles_seq: "settles (\<lambda>_ _. True) K p \<Longrightarrow> (\<And>K. settles post K q) \<Longrightarrow> settles post K (seq_prog p q)"
  unfolding seq_prog_def by (rule settles_bind)

section \<open>Schedules\<close>

definition settling :: "(string set \<Rightarrow> 'a \<Rightarrow> bool) \<Rightarrow> string set \<Rightarrow> ('s, 'a) handler list \<times> (broker \<times> 's) \<Rightarrow> bool" where
  "settling post C w \<longleftrightarrow> C \<subseteq> known (fst (snd w)) \<and>
     (\<forall>p \<in> set (fst w). \<exists>K \<subseteq> known (fst (snd w)). settles post K p) \<and>
     (\<forall>c \<in> known (fst (snd w)). \<forall>t. entered t c (fst (snd w)) \<or> (\<exists>p \<in> set (fst w). due c t p))"

lemma step_settling:
  assumes "settling post C (ps, st)"
  shows "settling post C (step_thread i (ps, st))"
proof (cases rule: turn_cases[of ps i st])
  case idle
  with assms show ?thesis by simp
next
  case (moves f)
  note i = moves(2,3) and step = moves(4)
  let ?st = "fst (f st)" and ?p = "snd (f st)" and ?ps = "ps[i := snd (f st)]"
  from assms have C: "C \<subseteq> known (fst st)" and progs: "\<forall>p \<in> set ps. \<exists>K \<subseteq> known (fst st). settles post K p"
    and entries: "\<forall>c \<in> known (fst st). \<forall>t. entered t c (fst st) \<or> (\<exists>p \<in> set ps. due c t p)"
    by (simp_all add: settling_def)
  have mem: "Atom f \<in> set ps" "?p \<in> set ?ps" using i nth_mem[of i ps] by (simp_all add: set_update_memI)
  from progs mem(1) obtain K where K: "K \<subseteq> known (fst st)" "settles post K (Atom f)" by blast
  from K(2) obtain K' where mono: "known (fst st) \<subseteq> known (fst ?st)" and K': "K' \<subseteq> known (fst ?st)" "settles post K' ?p"
    and new: "\<And>c t. c \<in> known (fst ?st) \<Longrightarrow> entered t c (fst ?st) \<or> due c t ?p \<or> (c \<in> known (fst st) \<and> \<not> entered t c (fst st))"
    by (rule settles_AtomE) (meson K(1))
  have others: "p = ?p \<or> p \<in> set ps" if "p \<in> set ?ps" for p
    using that set_update_subset_insert[of ps i ?p] by blast
  have "\<exists>K \<subseteq> known (fst ?st). settles post K p" if "p \<in> set ?ps" for p
    using others[OF that] progs mono K' by (metis subset_trans)
  moreover have "entered t c (fst ?st) \<or> (\<exists>p \<in> set ?ps. due c t p)" if c: "c \<in> known (fst ?st)" for c t
  proof (cases "entered t c (fst ?st) \<or> due c t ?p")
    case True
    with mem(2) show ?thesis by blast
  next
    case False
    with new[OF c, of t] have "c \<in> known (fst st)" "\<not> entered t c (fst st)" by simp_all
    with entries obtain p where p: "p \<in> set ps" "due c t p" by blast
    from p(1) obtain j where j: "j < length ps" "ps ! j = p" by (auto simp: in_set_conv_nth)
    have "j \<noteq> i"
    proof
      assume "j = i"
      then have "due c t (Atom f)" using p(2) j(2) i(2) by simp
      then show False using False by (auto elim!: due_AtomE)
    qed
    then have "p \<in> set ?ps" using j by (metis length_list_update nth_list_update_neq nth_mem)
    with p(2) show ?thesis by blast
  qed
  ultimately show ?thesis unfolding step settling_def using subset_trans[OF C mono] by simp
qed

lemma turn_settling: "settling post C w \<Longrightarrow> settling post C (step_thread i w)"
  using step_settling[of post C "fst w" "snd w" i] by simp

interpretation settling_turns: invariant_system step_thread "settling post C" for post C
  by unfold_locales (rule turn_settling)

lemma run_settling: "settling post C w \<Longrightarrow> settling post C (run_schedule is w)"
  unfolding run_schedule_def by (rule settling_turns.fold_keeps)

section \<open>The accesses of the broker\<close>

lemma settles_access:
  assumes "\<And>b. K \<subseteq> known b \<Longrightarrow> known b \<subseteq> known (fst (f b))"
    and "\<And>b c t. K \<subseteq> known b \<Longrightarrow> c \<in> known (fst (f b)) \<Longrightarrow> entered t c (fst (f b)) \<or> (c \<in> known b \<and> \<not> entered t c b)"
    and "\<And>b. K \<subseteq> known b \<Longrightarrow> \<exists>K' \<subseteq> known (fst (f b)). post K' (snd (f b))"
  shows "settles post K (access f)"
  unfolding access_def
proof (rule settles_Atom; unfold split_beta fst_conv snd_conv)
  fix st :: "broker \<times> 'b" and c t
  assume K: "K \<subseteq> known (fst st)"
  show "known (fst st) \<subseteq> known (fst (f (fst st)))" by (rule assms(1)[OF K])
  show "\<exists>K'\<subseteq>known (fst (f (fst st))). settles post K' (Ret (snd (f (fst st))))" using assms(3)[OF K] by simp
  assume "c \<in> known (fst (f (fst st)))"
  from assms(2)[OF K this, of t]
  show "entered t c (fst (f (fst st))) \<or> due c t (Ret (snd (f (fst st)))) \<or> c \<in> known (fst st) \<and> \<not> entered t c (fst st)" by blast
qed

text \<open>An access that leaves the keys of the tables alone.\<close>

definition same_tables :: "broker \<Rightarrow> broker \<Rightarrow> bool" where
  "same_tables b b' \<longleftrightarrow> registry b' = registry b \<and> capabilities b' = capabilities b \<and>
     dict_keys (last_heartbeat b') = dict_keys (last_heartbeat b) \<and> ttl_seconds b' = ttl_seconds b \<and>
     dict_keys (mailboxes b') = dict_keys (mailboxes b)"

lemma same_tables_fields [simp]:
  "same_tables b b" "same_tables b (b\<lparr>rate_buckets := x1\<rparr>)" "same_tables b (audit x2 x3 x4 x5 x6 b)"
  "same_tables b (record_traffic a m d st b)"
  by (simp_all add: same_tables_def)

lemma same_tables_view: "same_tables b b' \<Longrightarrow> known b' = known b" "same_tables b b' \<Longrightarrow> entered t c b' = entered t c b"
  by (simp add: same_tables_def known_def) (cases t; simp add: same_tables_def has_iff_keys)

text \<open>An access that only completes the tables of known agents.\<close>

lemma settles_grow:
  assumes "\<And>b. K \<subseteq> known b \<Longrightarrow> known (fst (f b)) = known b"
    and "\<And>b c t. K \<subseteq> known b \<Longrightarrow> entered t c b \<Longrightarrow> entered t c (fst (f b))"
    and "\<And>b. K \<subseteq> known b \<Longrightarrow> \<exists>K' \<subseteq> known b. post K' (snd (f b))"
  shows "settles post K (access f)"
proof (rule settles_access)
  fix b c t
  assume K: "K \<subseteq> known b" and c: "c \<in> known (fst (f b))"
  show "entered t c (fst (f b)) \<or> (c \<in> known b \<and> \<not> entered t c b)"
    using assms(2)[OF K, of t c] c unfolding assms(1)[OF K] by blast
qed (simp_all add: assms(1,3))

lemma settles_quiet:
  assumes "\<And>b. same_tables b (fst (f b))" "\<And>b. K \<subseteq> known b \<Longrightarrow> post K (snd (f b))"
  shows "settles post K (access f)"
proof (rule settles_grow)
  fix b
  assume K: "K \<subseteq> known b"
  show "known (fst (f b)) = known b" by (rule same_tables_view(1)[OF assms(1)])
  show "entered t c b \<Longrightarrow> entered t c (fst (f b))" for c t by (simp only: same_tables_view(2)[OF assms(1)])
  show "\<exists>K' \<subseteq> known b. post K' (snd (f b))" using K assms(2)[OF K] by blast
qed

lemma settles_update: "(\<And>b. same_tables b (f b)) \<Longrightarrow> post K () \<Longrightarrow> settles post K (update f)"
  unfolding update_def by (rule settles_quiet) simp_all

lemma settles_look: "(\<And>b. K \<subseteq> known b \<Longrightarrow> \<exists>K' \<subseteq> known b. post K' (f b)) \<Longrightarrow> settles post K (look f)"
  unfolding look_def by (rule settles_grow) simp_all

lemma settles_seen: "(\<And>x. post {} x) \<Longrightarrow> settles post K (look f)"
  by (rule settles_look) blast

text \<open>An access that makes entries for one agent.\<close>

lemma update_seq: "seq_prog (update f) q = Atom (\<lambda>st. ((f (fst st), snd st), q))"
  by (simp add: seq_prog_def update_def access_def)

lemma update_alone: "update f = seq_prog (update f) (Ret ())"
  by (simp add: update_seq) (simp add: update_def access_def)

lemma settles_update_seq:
  fixes q :: "('s, 'a) handler"
  assumes "\<And>b. K \<subseteq> known b \<Longrightarrow> known (f b) = insert x (known b)"
    and "\<And>b c t. c \<noteq> x \<Longrightarrow> entered t c b \<Longrightarrow> entered t c (f b)"
    and "\<And>b t. K \<subseteq> known b \<Longrightarrow> entered t x (f b) \<or> due x t q \<or> (x \<in> known b \<and> \<not> entered t x b)"
    and "settles post (insert x K) q"
  shows "settles post K (seq_prog (update f) q)"
  unfolding update_seq
proof (rule settles_Atom; unfold fst_conv snd_conv)
  fix st :: "broker \<times> 's"
  assume K: "K \<subseteq> known (fst st)"
  note step = assms(1)[OF K]
  show "known (fst st) \<subseteq> known (f (fst st))" unfolding step by (rule subset_insertI)
  have "insert x K \<subseteq> known (f (fst st))" unfolding step by (rule insert_mono[OF K])
  with assms(4) show "\<exists>K'\<subseteq>known (f (fst st)). settles post K' q" by blast
  fix c t
  assume "c \<in> known (f (fst st))"
  then have c: "c = x \<or> c \<in> known (fst st)" unfolding step by blast
  show "entered t c (f (fst st)) \<or> due c t q \<or> c \<in> known (fst st) \<and> \<not> entered t c (fst st)"
    by (cases "c = x") (use assms(3)[OF K, of t] c assms(2)[of c t "fst st"] in blast)+
qed

text \<open>Once the agent is known, what it still lacks is its first writer's debt.\<close>

lemma settles_entry:
  assumes "x \<in> K" "\<And>b. known (f b) = insert x (known b)" "\<And>b c t. entered t c b \<Longrightarrow> entered t c (f b)"
    and "settles post K q"
  shows "settles post K (seq_prog (update f) q)"
proof (rule settles_update_seq)
  fix b t
  assume K: "K \<subseteq> known b"
  show "entered t x (f b) \<or> due x t q \<or> (x \<in> known b \<and> \<not> entered t x b)"
    using assms(1) K assms(3)[of t x b] by blast
qed (use assms in \<open>simp_all add: insert_absorb\<close>)

lemma known_entries:
  "known (b\<lparr>registry := reg_register ep (registry b)\<rparr>) = insert (ep_agent_id ep) (known b)"
  "known (b\<lparr>mailboxes := dict_setdefault x ms (mailboxes b)\<rparr>) = insert x (known b)"
  "known (b\<lparr>capabilities := dict_set x caps (capabilities b)\<rparr>) = insert x (known b)"
  "known (b\<lparr>capabilities := dict_setdefault x caps (capabilities b)\<rparr>) = insert x (known b)"
  "known (b\<lparr>last_heartbeat := dict_set x now (last_heartbeat b)\<rparr>) = insert x (known b)"
  "known (b\<lparr>last_heartbeat := dict_set x now (last_heartbeat b), ttl_seconds := dict_set x n (ttl_seconds b)\<rparr>) =
    insert x (known b)"
  "known (b\<lparr>last_heartbeat := dict_set x now (last_heartbeat b), ttl_seconds := dict_setdefault x n (ttl_seconds b)\<rparr>) =
    insert x (known b)"
  by (simp_all add: known_def reg_keys dict_simps)

lemma entered_grow:
  "entered t c b \<Longrightarrow> entered t c (b\<lparr>mailboxes := dict_setdefault x ms (mailboxes b)\<rparr>)"
  "entered t c b \<Longrightarrow> entered t c (b\<lparr>capabilities := dict_set x caps (capabilities b)\<rparr>)"
  "entered t c b \<Longrightarrow> entered t c (b\<lparr>capabilities := dict_setdefault x caps (capabilities b)\<rparr>)"
  "entered t c b \<Longrightarrow> entered t c (b\<lparr>last_heartbeat := dict_set x now (last_heartbeat b)\<rparr>)"
  "entered t c b \<Longrightarrow>
    entered t c (b\<lparr>last_heartbeat := dict_set x now (last_heartbeat b), ttl_seconds := dict_set x n (ttl_seconds b)\<rparr>)"
  "entered t c b \<Longrightarrow>
    entered t c (b\<lparr>last_heartbeat := dict_set x now (last_heartbeat b), ttl_seconds := dict_setdefault x n (ttl_seconds b)\<rparr>)"
  by (cases t; simp add: has_setdefault has_set)+

lemma entered_register:
  "c \<noteq> ep_agent_id ep \<Longrightarrow> entered t c b \<Longrightarrow> entered t c (b\<lparr>registry := reg_register ep (registry b)\<rparr>)"
  "t \<noteq> Boxes \<Longrightarrow> entered t c b \<Longrightarrow> entered t c (b\<lparr>registry := reg_register ep (registry b)\<rparr>)"
  "t = Registry \<Longrightarrow> entered t (ep_agent_id ep) (b\<lparr>registry := reg_register ep (registry b)\<rparr>)"
  "t = Boxes \<Longrightarrow> \<not> ep_mailbox ep \<Longrightarrow> entered t (ep_agent_id ep) (b\<lparr>registry := reg_register ep (registry b)\<rparr>)"
  by (cases t; simp add: has_iff_keys reg_keys reg_gets)+

text \<open>A registration begins with the registry; the entries of the other tables follow.\<close>

lemma settles_register:
  assumes ep: "ep_agent_id ep = x"
    and "due x Caps q" "due x Beats q" "due x Ttls q \<or> x \<in> K" "ep_mailbox ep \<Longrightarrow> due x Boxes q"
    and "settles post (insert x K) q"
  shows "settles post K (seq_prog (update (\<lambda>b. b\<lparr>registry := reg_register ep (registry b)\<rparr>)) q)"
proof (rule settles_update_seq[where x = x])
  fix b t
  assume K: "K \<subseteq> known b"
  let ?b = "b\<lparr>registry := reg_register ep (registry b)\<rparr>"
  have "entered Registry x ?b" "\<not> ep_mailbox ep \<Longrightarrow> entered Boxes x ?b" "entered Ttls x b \<Longrightarrow> entered Ttls x ?b"
    using entered_register(3,4)[of _ ep b] entered_register(2)[of Ttls x b ep] ep by simp_all
  then show "entered t x ?b \<or> due x t q \<or> (x \<in> known b \<and> \<not> entered t x b)"
    using assms(2-5) K by (cases t) blast+
qed (use ep assms(6) in \<open>simp_all add: known_entries entered_register(1)\<close>)

section \<open>The handlers\<close>

text \<open>An answer confirms the registration of an agent when it carries its id.\<close>

definition confirms :: "answer \<Rightarrow> string \<Rightarrow> bool" where
  "confirms ans c \<longleftrightarrow> (\<exists>status. ans = Answer status (BJson (JDict [(''agent_id'', JStr c)])))"

lemma confirms_simps [simp]:
  "\<not> confirms (write_error st msg) c" "\<not> confirms (Died e) c" "\<not> confirms (Waiting d x) c" "\<not> confirms rate_limited c"
  "\<not> confirms (Answer st BEmpty) c" "\<not> confirms (Answer st (BText t)) c" "\<not> confirms (Answer st BHtml) c"
  "\<not> confirms (Answer st (BAgents es)) c" "\<not> confirms (Answer st (BTraffic rs)) c"
  "\<not> confirms (Answer st (messages_payload ms)) c" "\<not> confirms (Answer st (BJson (JDict [(''status'', v)]))) c"
  "confirms (Answer st (BJson (JDict [(''agent_id'', JStr d)]))) c \<longleftrightarrow> d = c"
  by (auto simp: confirms_def write_error_def error_payload_def rate_limited_def messages_payload_def)

abbreviation confirmed :: "string set \<Rightarrow> answer \<Rightarrow> bool" where
  "confirmed K ans \<equiv> \<forall>c. confirms ans c \<longrightarrow> c \<in> K"

abbreviation tells :: "string set \<Rightarrow> ('s, answer) handler \<Rightarrow> bool" where
  "tells K p \<equiv> settles confirmed K p"

abbreviation ends :: "string set \<Rightarrow> ('s, 'a) handler \<Rightarrow> bool" where
  "ends K p \<equiv> settles (\<lambda>_ _. True) K p"

lemma settles_audit: "P K \<Longrightarrow> settles (\<lambda>K _. P K) K (audit_prog ac who path status detail)"
  unfolding audit_prog_def by (rule settles_update) simp_all

lemma ends_audit: "ends K (audit_prog ac who path status detail)"
  unfolding audit_prog_def by (rule settles_update) simp_all

lemma tells_reject: "tells K (reject_prog status detail who)"
  unfolding reject_prog_def by (intro settles_seq ends_audit) simp

lemma tells_answer: "\<forall>c. \<not> confirms ans c \<Longrightarrow> tells K (send_answer_prog a who m disp st detail ans)"
proof -
  have "ends K (traffic_prog a m disp st)" for K unfolding traffic_prog_def by (rule settles_update) simp_all
  moreover assume "\<forall>c. \<not> confirms ans c"
  ultimately show ?thesis unfolding send_answer_prog_def by (intro settles_seq ends_audit) simp_all
qed

lemma ends_seen: "ends K (look f)"
  by (rule settles_seen) simp

lemma ends_rate: "ends K (rate_prog now c)"
proof -
  have get: "ends K (update (get_bucket now c))" for K
    by (rule settles_update) (simp_all add: get_bucket_def)
  have use: "ends K (access (consume_bucket now c))" for K
    by (rule settles_quiet) (simp_all add: consume_bucket_def split: option.split prod.split)
  show ?thesis unfolding rate_prog_def by (auto intro!: settles_bind[OF ends_seen] settles_seq get use)
qed

lemma settles_admit: "settles (\<lambda>K r. \<forall>ans. r = Inl ans \<longrightarrow> confirmed K ans) K (admit_prog q a rq)"
proof -
  have who: "settles (\<lambda>K r. \<forall>ans. r = Inl ans \<longrightarrow> confirmed K ans) K (look (authenticate q rq))" for K :: "string set"
    by (rule settles_look) (auto dest!: authenticate_Inl intro: exI[of _ "{}"])
  show ?thesis
    unfolding admit_prog_def
    by (rule settles_bind[OF who]) (auto intro!: settles_bind[OF ends_rate] split: sum.split)
qed

lemma settles_body: "settles (\<lambda>K r. \<forall>ans. r = Inl ans \<longrightarrow> confirmed K ans) K (look (read_body rq))"
  by (rule settles_look) (auto simp: read_body_def confirms_def intro!: exI[of _ "{}"] split: option.split)

lemma ends_network: "ends K (network f)"
  unfolding network_def by (rule settles_Atom) (auto simp: split_beta)

lemma ends_route: "ends K (route_prog net sleep a m)"
  unfolding route_prog_def by (rule settles_bind[OF ends_seen ends_network])

lemma settles_beats:
  assumes "x \<in> K"
  shows "settles (\<lambda>K _. x \<in> K) K (update (\<lambda>b. let b = b\<lparr>last_heartbeat := dict_set x now (last_heartbeat b)\<rparr>
       in case ttl of
            Some n \<Rightarrow> b\<lparr>ttl_seconds := dict_set x n (ttl_seconds b)\<rparr>
          | None \<Rightarrow> if new then b\<lparr>ttl_seconds := dict_set x (default_ttl_seconds b) (ttl_seconds b)\<rparr> else b))"
  by (subst update_alone, rule settles_entry[OF assms])
    (use assms in \<open>auto simp: known_entries entered_grow Let_def split: option.split\<close>)

lemma settles_apply_register:
  assumes "\<not> v_is_new v \<Longrightarrow> v_agent_id v \<in> K"
  shows "settles (\<lambda>K _. v_agent_id v \<in> K) K (apply_register_prog now v)"
proof -
  let ?x = "v_agent_id v"
  let ?beats = "update (\<lambda>b. let b = b\<lparr>last_heartbeat := dict_set ?x now (last_heartbeat b)\<rparr>
         in case v_ttl v of
              Some ttl \<Rightarrow> b\<lparr>ttl_seconds := dict_set ?x ttl (ttl_seconds b)\<rparr>
            | None \<Rightarrow>
                if v_is_new v
                then b\<lparr>ttl_seconds := dict_set ?x (default_ttl_seconds b) (ttl_seconds b)\<rparr> else b)
      :: ('s, unit) handler"
  let ?caps = "seq_prog (update (\<lambda>b. b\<lparr>capabilities := dict_set ?x (v_caps v) (capabilities b)\<rparr>)) ?beats"
  let ?box = "if v_mailbox v then update (\<lambda>b. b\<lparr>mailboxes := dict_setdefault ?x [] (mailboxes b)\<rparr>)
    else (Ret () :: ('s, unit) handler)"
  have beats: "due ?x Beats ?beats" "due ?x Ttls ?beats \<or> ?x \<in> K"
    using assms by (auto simp: Let_def has_set intro!: due_update split: option.split)
  have box: "due ?x Boxes ?box" if "v_mailbox v"
    using that by (simp add: due_update has_setdefault)
  have caps: "due ?x Caps ?caps" by (rule due_now) (simp add: has_set)
  have K: "?x \<in> insert ?x K" by simp
  have rest: "settles (\<lambda>K _. ?x \<in> K) (insert ?x K) ?caps"
    by (rule settles_entry[OF K]) (simp_all add: known_entries entered_grow settles_beats[OF K])
  have "settles (\<lambda>K _. ?x \<in> K) (insert ?x K) (seq_prog ?box ?caps)"
  proof (cases "v_mailbox v")
    case True
    then show ?thesis by (simp add: settles_entry[OF K _ _ rest] known_entries entered_grow)
  next
    case False
    with rest show ?thesis by (simp add: seq_prog_def)
  qed
  then show ?thesis
    unfolding apply_register_prog_def
    by (intro settles_register[where x = ?x])
      (use beats caps box in \<open>auto simp: endpoint_of_def seq_prog_def intro: due_later due_bind due_bind_later\<close>)
qed

lemma known_agents: "agents b \<subseteq> known b"
  by (auto simp: agents_def known_def)

lemma settles_checked:
  "settles (\<lambda>K r. \<forall>v. r = Inr v \<longrightarrow> v_is_new v \<or> v_agent_id v \<in> K) K (look (validate_register_payload data who))"
proof (rule settles_look)
  fix b
  show "\<exists>K' \<subseteq> known b. \<forall>v. validate_register_payload data who b = Inr v \<longrightarrow> v_is_new v \<or> v_agent_id v \<in> K'"
    by (intro exI[of _ "agents b"] conjI known_agents allI impI) (simp add: validate_register_Inr(4))
qed

lemma tells_register: "tells K (register_prog a who rq)"
proof -
  have accepted: "tells K (seq_prog (apply_register_prog now v)
      (seq_prog (audit_prog ''register'' (v_agent_id v) ''/agents'' st detail)
        (Ret (Answer st' (BJson (JDict [(''agent_id'', JStr (v_agent_id v))]))))))"
    if "v_is_new v \<or> v_agent_id v \<in> K" for K :: "string set" and now v st st' detail
    unfolding seq_prog_def
    by (rule settles_bind[OF settles_apply_register], use that in blast, rule settles_bind[OF settles_audit], assumption) simp
  show ?thesis
    unfolding register_prog_def Let_def
    by (rule settles_bind[OF settles_body])
      (auto intro!: tells_reject settles_bind[OF settles_checked] accepted split: sum.split option.split)
qed

lemma settles_found:
  "settles (\<lambda>K r. \<forall>ep. r = Inr ep \<longrightarrow> py_str v \<in> K) K (look (\<lambda>b. reg_lookup_value v (registry b)))"
proof (rule settles_look)
  fix b
  have "py_str v \<in> agents b" if "reg_lookup_value v (registry b) = Inr ep" for ep
    using that by (auto simp: reg_lookup_value_def reg_lookup_def agents_def py_str_def
        split: json.splits if_splits option.splits intro: get_Some_keys)
  then show "\<exists>K' \<subseteq> known b. \<forall>ep. reg_lookup_value v (registry b) = Inr ep \<longrightarrow> py_str v \<in> K'"
    using known_agents by blast
qed

lemma ends_enqueue:
  assumes "c \<in> K"
  shows "ends K (update (enqueue c raw))"
proof (subst update_alone, rule settles_entry[OF assms])
  fix b d t
  show "known (enqueue c raw b) = insert c (known b)"
    by (auto simp: enqueue_def known_def Let_def dict_simps)
  show "entered t d b \<Longrightarrow> entered t d (enqueue c raw b)"
    by (cases t) (simp_all add: enqueue_def Let_def has_set has_setdefault)
qed simp

lemma tells_message: "tells K (message_prog net sleep a who m)"
  unfolding message_prog_def Let_def
  by (auto intro!: tells_answer settles_bind[OF settles_found] settles_bind[OF ends_route] ends_enqueue settles_seq
      split: sum.split exn.split option.split)

lemma tells_send: "tells K (send_prog net sleep a who rq)"
  unfolding send_prog_def
  by (rule settles_bind[OF settles_body]) (auto intro!: tells_message settles_seq ends_audit split: sum.split)

lemma ends_auto_register: "ends K (auto_register_prog now c)"
proof -
  let ?log = "audit_prog ''auto-register'' c ''/messages'' 200 ''mailbox re-registered on poll'' :: ('s, unit) handler"
  let ?beats = "seq_prog (update (\<lambda>b. b\<lparr>last_heartbeat := dict_set c now (last_heartbeat b),
        ttl_seconds := dict_setdefault c (default_ttl_seconds b) (ttl_seconds b)\<rparr>)) ?log"
  let ?caps = "seq_prog (update (\<lambda>b. b\<lparr>capabilities := dict_setdefault c [] (capabilities b)\<rparr>)) ?beats"
  let ?box = "seq_prog (update (\<lambda>b. b\<lparr>mailboxes := dict_setdefault c [] (mailboxes b)\<rparr>)) ?caps"
  have beats_due: "due c Beats ?box" "due c Ttls ?box"
    by (rule due_later, rule due_later, rule due_now, simp add: has_set has_setdefault)+
  have caps_due: "due c Caps ?box" by (rule due_later, rule due_now) (simp add: has_setdefault)
  have box_due: "due c Boxes ?box" by (rule due_now) (simp add: has_setdefault)
  have K: "c \<in> insert c K" by simp
  have beats: "ends (insert c K) ?beats"
    by (rule settles_entry[OF K]) (simp_all add: known_entries entered_grow ends_audit)
  have caps: "ends (insert c K) ?caps"
    by (rule settles_entry[OF K]) (simp_all add: known_entries entered_grow beats)
  have box: "ends (insert c K) ?box"
    by (rule settles_entry[OF K]) (simp_all add: known_entries entered_grow caps)
  show ?thesis
    unfolding auto_register_prog_def by (rule settles_register[where x = c]) (simp_all add: beats_due caps_due box_due box)
qed

lemma settles_take_mail: "settles (\<lambda>K r. confirmed K (fst r)) K (access (take_mail now c d))"
  by (rule settles_quiet)
    (auto simp: take_mail_def same_tables_def dict_simps insert_absorb get_Some_keys split: option.split)

lemma tells_poll_check: "tells K (poll_check_prog now c d)"
  unfolding poll_check_prog_def
  by (rule settles_bind[OF settles_take_mail]) (auto simp: seq_prog_def intro!: settles_bind[OF settles_audit] split: option.split)

lemma ends_beat:
  "ends K (update (\<lambda>b. if dict_has (ttl_seconds b) c then b\<lparr>last_heartbeat := dict_set c now (last_heartbeat b)\<rparr> else b))"
  unfolding update_def
  by (rule settles_grow) (auto simp: known_entries entered_grow has_iff_keys known_def dict_simps)

lemma tells_poll: "tells K (poll_prog a who rq)"
  unfolding poll_prog_def Let_def
  by (auto intro!: settles_bind[OF ends_seen] settles_seq ends_auto_register ends_beat tells_poll_check)

lemma ends_entries: "ends K (entries_prog hb ttl now cs)"
  by (induction cs arbitrary: K) (auto intro!: settles_bind[OF ends_seen] settles_bind[where mid = "\<lambda>_ _. True"])

lemma tells_get: "tells K (get_prog a rq)"
proof -
  have listing: "tells K (agents_prog a)" for K
    unfolding agents_prog_def by (auto intro!: settles_bind[OF ends_seen] settles_bind[OF ends_entries])
  have traffic: "tells K (look (handle_traffic rq))" for K
    by (rule settles_look) (auto simp: handle_traffic_def Let_def intro: exI[of _ "{}"])
  show ?thesis
    unfolding get_prog_def Let_def
    by (auto intro!: settles_bind[OF settles_admit] settles_bind[OF ends_seen] listing traffic tells_poll split: sum.split)
qed

lemma tells_post: "tells K (post_prog net sleep a rq)"
  unfolding post_prog_def
  by (rule settles_bind[OF settles_admit]) (auto intro!: tells_register tells_send split: sum.split)

abbreviation told :: "string set \<Rightarrow> answer option \<Rightarrow> bool" where
  "told K r \<equiv> \<forall>ans. r = Some ans \<longrightarrow> confirmed K ans"

lemma settles_job: "\<not> job_removes j \<Longrightarrow> settles told K (job_prog net sleep j)"
proof (cases j)
  case (Request meth a rq)
  moreover assume "\<not> job_removes j"
  ultimately show ?thesis
    by (cases meth) (auto simp: request_prog_def intro!: settles_bind[OF tells_get] settles_bind[OF tells_post])
qed (auto intro!: settles_bind[OF tells_poll_check])

lemma jobs_settle:
  fixes s s' :: 's
  assumes "tables_agree b" "\<forall>j \<in> set jobs. \<not> job_removes j"
    and "run_schedule sched (map (job_prog net sleep) jobs, (b, s)) = (map Ret answers, (b', s'))"
  shows "tables_agree b'" "agents b \<subseteq> agents b'" "Some ans \<in> set answers \<Longrightarrow> confirms ans c \<Longrightarrow> c \<in> agents b'"
proof -
  have "settles told {} p" if "p \<in> set (map (job_prog net sleep) jobs)" for p
    using that assms(2) by (auto intro: settles_job)
  then have "settling told (known b) (map (job_prog net sleep) jobs, (b, s))"
    using assms(1) unfolding settling_def tables_agree_def fst_conv snd_conv by blast
  from run_settling[OF this, of sched]
  have "settling told (known b) (map Ret answers :: ('s, answer option) handler list, (b', s'))"
    unfolding assms(3) .
  then have kept: "known b \<subseteq> known b'" and agree: "tables_agree b'" and told: "\<forall>r \<in> set answers. \<exists>K \<subseteq> known b'. told K r"
    by (auto simp: settling_def tables_agree_def)
  show "tables_agree b'" by (rule agree)
  have all: "known b' \<subseteq> agents b'"
    using agree unfolding tables_agree_def agents_def by (metis entered.simps(1) has_iff_keys subsetI)
  with kept known_agents show "agents b \<subseteq> agents b'" by blast
  show "Some ans \<in> set answers \<Longrightarrow> confirms ans c \<Longrightarrow> c \<in> agents b'" using told all by blast
qed

lemma coherent_agree: "coherent b \<Longrightarrow> tables_agree b"
  unfolding tables_agree_def
proof (intro ballI allI)
  fix c t
  assume b: "coherent b" and "c \<in> known b"
  then have "c \<in> dict_keys (registry b)" by (auto simp: coherent_def same_agents_def known_def)
  with b show "entered t c b" by (cases t) (auto simp: coherent_def same_agents_def own_keys_def has_iff_keys)
qed

end
