(* ===== verification/Fair_Schedules.thy ===== *)
theory Fair_Schedules
  imports Broker_Races
begin

text \<open>
  Schedules that go on. Each thread of the broker is a finite program and waits for no other one
  but during a single access, so a schedule that always comes back to every thread brings all of
  them to their answers.
\<close>

section \<open>Fair schedules\<close>

definition fair_schedule :: "nat \<Rightarrow> (nat \<Rightarrow> nat) \<Rightarrow> bool" where
  "fair_schedule n sched \<longleftrightarrow> (\<forall>i < n. \<forall>t. \<exists>t' \<ge> t. sched t' = i)"

definition rest_of :: "(('st, 'a) prog \<times> ('st, 'a) prog) set" where
  "rest_of = {(snd (f st), Atom f) |f st. True}"

lemma wf_rest_of: "wf rest_of"
proof (rule wfUNIVI)
  fix P :: "('a, 'b) prog \<Rightarrow> bool" and p
  assume "\<forall>p. (\<forall>q. (q, p) \<in> rest_of \<longrightarrow> P q) \<longrightarrow> P p"
  then have step: "(\<And>q. (q, p) \<in> rest_of \<Longrightarrow> P q) \<Longrightarrow> P p" for p by blast
  show "P p"
  proof (induction p rule: prog_induct)
    case (Ret x)
    show ?case by (rule step) (simp add: rest_of_def)
  next
    case (Atom f)
    show ?case by (rule step) (use Atom in \<open>auto simp: rest_of_def\<close>)
  qed
qed

lemma none_to_move: "\<not> (\<exists>i. to_move ps i) \<Longrightarrow> \<exists>xs. ps = map Ret xs"
proof -
  assume "\<not> (\<exists>i. to_move ps i)"
  then have "\<forall>i < length ps. \<exists>x. ps ! i = Ret x" unfolding to_move_def by (metis prog.exhaust)
  then have "\<forall>p \<in> set ps. \<exists>x. p = Ret x" by (metis in_set_conv_nth)
  then show ?thesis by (metis ex_map_conv)
qed

text \<open>Until the first thread that has something to do gets its turn, nothing happens.\<close>

lemma first_turn:
  assumes "fair_schedule (length ps) sched" "to_move ps i"
  obtains t where "to_move ps (sched t)" "run_schedule (map sched [0..<t]) (ps, st) = (ps, st)"
proof -
  have "\<exists>t. to_move ps (sched t)" using assms unfolding fair_schedule_def to_move_def by blast
  then obtain t where t: "to_move ps (sched t)" and first: "\<forall>k < t. \<not> to_move ps (sched k)"
    by (auto simp: exists_least_iff[of "\<lambda>t. to_move ps (sched t)"])
  have stay: "\<not> to_move ps j \<Longrightarrow> step_thread j (ps, st) = (ps, st)" for j
    by (cases rule: turn_cases[of ps j st]) simp_all
  have "k \<le> t \<Longrightarrow> run_schedule (map sched [0..<k]) (ps, st) = (ps, st)" for k
    using first by (induction k) (simp_all add: stay del: step_thread.simps)
  from this[of t] t show thesis by (intro that) simp_all
qed

text \<open>By induction on the programs that are left: the turn of a thread makes one of them smaller.\<close>

lemma fair_end:
  assumes "fair_schedule (length ps) sched"
  shows "\<exists>n xs st'. run_schedule (map sched [0..<n]) (ps, st) = (map Ret xs, st')"
  using wf_listrel1_iff[THEN iffD2, OF wf_rest_of] assms
proof (induction ps arbitrary: sched st rule: wf_induct_rule)
  case (less ps)
  show ?case
  proof (cases "\<exists>i. to_move ps i")
    case False
    then obtain xs where "ps = map Ret xs" using none_to_move by blast
    then show ?thesis by (intro exI[of _ 0]) auto
  next
    case True
    then obtain t where t: "to_move ps (sched t)" and idle: "run_schedule (map sched [0..<t]) (ps, st) = (ps, st)"
      using first_turn[OF less.prems] by blast
    then obtain f where f: "sched t < length ps" "ps ! sched t = Atom f"
      and step: "step_thread (sched t) (ps, st) = (ps[sched t := snd (f st)], fst (f st))"
      by (cases rule: turn_cases[of ps "sched t" st]) simp_all
    let ?ps = "ps[sched t := snd (f st)]"
    have "(snd (f st), ps ! sched t) \<in> rest_of" unfolding f rest_of_def by blast
    then have smaller: "(?ps, ps) \<in> listrel1 rest_of"
      using f(1) by (metis listrel1I upd_conv_take_nth_drop id_take_nth_drop)
    have "fair_schedule (length ?ps) (\<lambda>k. sched (Suc t + k))"
      unfolding fair_schedule_def length_list_update
    proof (intro allI impI)
      fix i k
      assume "i < length ps"
      then obtain t' where t': "t' \<ge> Suc t + k" "sched t' = i" using less.prems unfolding fair_schedule_def by blast
      then show "\<exists>k' \<ge> k. sched (Suc t + k') = i" by (intro exI[of _ "t' - Suc t"]) auto
    qed
    from less.IH[OF smaller this, of "fst (f st)"] obtain n xs st' where
      rest: "run_schedule (map (\<lambda>k. sched (Suc t + k)) [0..<n]) (?ps, fst (f st)) = (map Ret xs, st')" by blast
    have "map sched [0..<Suc t + n] = map sched [0..<t] @ sched t # map (\<lambda>k. sched (Suc t + k)) [0..<n]"
      by (induction n) simp_all
    with idle step rest have "run_schedule (map sched [0..<Suc t + n]) (ps, st) = (map Ret xs, st')"
      by (simp del: step_thread.simps)
    then show ?thesis by blast
  qed
qed

text \<open>What each thread returns, by itself.\<close>

lemma keeps_any: "keeps (\<lambda>_. True) (\<lambda>_. True) p"
  by (induction p rule: prog_induct) simp_all

definition each_keeps :: "(nat \<Rightarrow> 'a \<Rightarrow> bool) \<Rightarrow> ('st, 'a) prog list \<times> 'st \<Rightarrow> bool" where
  "each_keeps post w \<longleftrightarrow> (\<forall>i < length (fst w). keeps (\<lambda>_. True) (post i) (fst w ! i))"

lemma turn_each_keeps: "each_keeps post w \<Longrightarrow> each_keeps post (step_thread i w)"
proof (cases rule: turn_cases[of "fst w" i "snd w"])
  case (moves f)
  assume w: "each_keeps post w"
  then have "keeps (\<lambda>_. True) (post i) (Atom f)" using moves(2,3) unfolding each_keeps_def by metis
  with w show ?thesis using moves(2,4) by (simp add: each_keeps_def nth_list_update)
qed simp

interpretation each_turn: invariant_system step_thread "each_keeps post" for post
  by unfold_locales (rule turn_each_keeps)

text \<open>A job answers, unless it is a sweep.\<close>

definition answers_job :: "job \<Rightarrow> answer option \<Rightarrow> bool" where
  "answers_job j r \<longleftrightarrow> (r = None \<longleftrightarrow> (\<exists>now. j = Sweep now))"

lemma job_answers: "keeps (\<lambda>_. True) (answers_job j) (job_prog net sleep j)"
  by (cases j) (auto intro!: keeps_bind[OF keeps_any] keeps_seq[OF keeps_any] simp: answers_job_def)

lemma fair_jobs:
  assumes "fair_schedule (length jobs) sched"
  shows "\<exists>n answers b' s'. run_schedule (map sched [0..<n]) (map (job_prog net sleep) jobs, (b, s)) = (map Ret answers, (b', s')) \<and>
    length answers = length jobs \<and> (\<forall>i < length jobs. answers_job (jobs ! i) (answers ! i))"
proof -
  let ?ps = "map (job_prog net sleep) jobs"
  obtain n answers st where run: "run_schedule (map sched [0..<n]) (?ps, (b, s)) = (map Ret answers, st)"
    using fair_end[of ?ps sched "(b, s)"] assms by auto
  have "each_keeps (\<lambda>i. answers_job (jobs ! i)) (?ps, (b, s))" by (simp add: each_keeps_def job_answers)
  from each_turn.fold_keeps[OF this, folded run_schedule_def, of "map sched [0..<n]"]
  have "\<forall>i < length answers. answers_job (jobs ! i) (answers ! i)" unfolding run by (simp add: each_keeps_def)
  moreover have "length answers = length jobs" using run_length[of "map sched [0..<n]" "(?ps, (b, s))"] run by simp
  moreover obtain b' s' where "st = (b', s')" by (rule prod.exhaust)
  ultimately show ?thesis using run by auto
qed

end
