(* ===== verification/Broker_Concurrency.thy ===== *)
theory Broker_Concurrency
  imports Broker_Isolation Broker_Settling Fair_Schedules Broker_Properties
begin

text \<open>
  What the broker's threads do together: the one-step handlers of \<open>Broker_System\<close> are one of
  their schedules, every schedule keeps the stored data readable and the mail balanced, requests
  of different agents commute, and two orders of accesses to the same agent's state that the
  locks of \<open>broker/server.py\<close> allow lose an agent that was just told it is served.
\<close>

section \<open>One job after the other\<close>

primrec do_jobs :: "'s exchange \<Rightarrow> (seconds \<Rightarrow> 's \<Rightarrow> 's) \<Rightarrow> job list \<Rightarrow> broker \<times> 's \<Rightarrow> (broker \<times> 's) \<times> answer option list" where
  "do_jobs net sleep [] st = (st, [])"
| "do_jobs net sleep (j # js) st =
     (case do_job net sleep j st of (st', r) \<Rightarrow> (case do_jobs net sleep js st' of (st'', rs) \<Rightarrow> (st'', r # rs)))"

lemma serial_from:
  assumes "length ended = n" "do_jobs net sleep js st = (st', rs)"
  shows "\<exists>sched. run_schedule sched (ended @ map (job_prog net sleep) js, st) = (ended @ map Ret rs, st')"
  using assms
proof (induction js arbitrary: ended n st rs)
  case Nil
  then show ?case by (intro exI[of _ "[]"]) simp
next
  case (Cons j js)
  obtain st1 r where j: "do_job net sleep j st = (st1, r)" by (rule prod.exhaust)
  obtain st2 rs1 where js: "do_jobs net sleep js st1 = (st2, rs1)" by (rule prod.exhaust)
  have rs: "rs = r # rs1" "st2 = st'" using Cons.prems(2) by (simp_all add: j js)
  note js = js[unfolded rs(2)]
  let ?ps = "ended @ map (job_prog net sleep) (j # js)"
  obtain k where "finishes k (job_prog net sleep j) st" using finishes_enough ..
  moreover have "?ps ! n = job_prog net sleep j" "n < length ?ps" using Cons.prems(1) by (auto simp: nth_append)
  moreover have "run_prog (job_prog net sleep j) st = (st1, r)" using j by (simp only: run_job)
  ultimately have "run_schedule (replicate k n) (?ps, st) = (?ps[n := Ret r], st1)"
    using turns_in_a_row[of k ?ps n st st1 r] by argo
  moreover have "?ps[n := Ret r] = (ended @ [Ret r]) @ map (job_prog net sleep) js"
    using Cons.prems(1) by (simp add: list_update_append)
  moreover obtain sched where
    "run_schedule sched ((ended @ [Ret r]) @ map (job_prog net sleep) js, st1) = ((ended @ [Ret r]) @ map Ret rs1, st')"
    using Cons.IH[OF _ js, of "ended @ [Ret r]"] by blast
  ultimately show ?case by (intro exI[of _ "replicate k n @ sched"]) (simp add: rs)
qed


section \<open>What no schedule breaks\<close>


lemma serial_schedule:
  obtains sched where "run_schedule sched (map (job_prog net sleep) jobs, st) =
    (map Ret (snd (do_jobs net sleep jobs st)), fst (do_jobs net sleep jobs st))"
  using serial_from[of "[]" 0 net sleep jobs st "fst (do_jobs net sleep jobs st)" "snd (do_jobs net sleep jobs st)"] by auto

text \<open>Alice leaves, Bob polls, and the broker sweeps.\<close>

definition alice_leaves :: job where
  "alice_leaves = Request DELETE noon (fetched ''/agents/alice'' (Some ''Bearer ta''))"

definition bob_polls :: job where
  "bob_polls = Request GET noon (fetched ''/messages'' (Some ''Bearer tb''))"


text \<open>
  Property C2. Every mailbox is one queue, whatever the interleaving of requests, wake-ups and
  sweeps. For any schedule that has come to its end there is a history of the mailbox, in the order
  in which the schedule let the threads run, in which each send that was answered 202 puts its
  message, each poll that was answered with messages, be they none, takes all that is there, and
  nothing else happens, except that a removal or a sweep may discard what is there. So without
  removals the messages are handed out in the order in which they were put, each of them once.
\<close>

theorem mailbox_linearizable:
  assumes "run_schedule sched (map (job_prog net sleep) jobs, (b, s)) = (map Ret answers, (b', s'))"
  shows "\<exists>H. replay (map snd H) (box b c) = Some (box b' c) \<and> subseq (map fst H) sched \<and>
    (\<forall>i < length jobs. of_thread i H = job_events c b (jobs ! i) (answers ! i)) \<and>
    (\<forall>(i, e) \<in> set H. i < length jobs \<and> (e = Lost \<longrightarrow> job_removes (jobs ! i))) \<and>
    ((\<forall>j \<in> set jobs. \<not> job_removes j) \<longrightarrow> takes (map snd H) @ box b' c = box b c @ puts (map snd H))"
proof -
  obtain H where H: "replay (map snd H) (box b c) = Some (box b' c)" "subseq (map fst H) sched"
    "\<forall>i < length jobs. of_thread i H = job_events c b (jobs ! i) (answers ! i)"
    "\<forall>(i, e) \<in> set H. i < length jobs \<and> (e = Lost \<longrightarrow> job_removes (jobs ! i))"
    using jobs_recorded[OF assms, of c] by blast
  have "Lost \<notin> set (map snd H)" if "\<forall>j \<in> set jobs. \<not> job_removes j" using H(4) that by fastforce
  with H replay_fifo[OF H(1)] show ?thesis by blast
qed

text \<open>Alice sends to bob, and bob polls.\<close>

definition alice_pings :: job where
  "alice_pings = Request POST noon ping_post"

abbreviation pinged_broker :: broker where
  "pinged_broker \<equiv> snd (fst (handle_message dead_net no_sleep noon ''alice'' ping bob_broker ()))"

lemma alice_pinged: "do_job dead_net no_sleep alice_pings (bob_broker, ()) = ((pinged_broker, ()), Some (Answer 202 BEmpty))"
  by (simp add: alice_pings_def ping_answer[OF bob_config ping_queues])

lemma pinged_box: "box pinged_broker ''bob'' = [serialize ping]"
  by (simp add: handle_message_queued[OF ping_queues] box_enqueue bob_box)

lemma bob_poll_admitted:
  assumes "config b = config sample_broker"
  defines "rq \<equiv> fetched ''/messages'' (Some ''Bearer tb'')"
  shows "authenticate q rq b = Inr ''bob''" "url_path (rq_path rq) = ''/messages''" "poll_id_of ''bob'' rq = ''bob''"
    "polled_by GET rq b = Some ''bob''"
proof -
  from assms(1) have fields: "agent_tokens b = Some [(''alice'', ''ta''), (''bob'', ''tb'')]"
    "token_to_agent b = [(''ta'', ''alice''), (''tb'', ''bob'')]"
    by (simp_all add: config_def sample_tokens)
  show auth: "authenticate q rq b = Inr ''bob''" for q
    unfolding authenticate_Inr[OF fields(1)] rq_def by (simp add: presented_token_def fields starts_with_def)
  have "url_path ''/messages'' = ''/messages''" by code_simp
  then show path: "url_path (rq_path rq) = ''/messages''" by (simp add: rq_def)
  show "poll_id_of ''bob'' rq = ''bob''" by (simp add: poll_id_of_def)
  then show "polled_by GET rq b = Some ''bob''"
    by (simp add: polled_by_def path admission_def auth DEFAULT_MESSAGE_PATH_def)
qed

lemma bob_polled:
  assumes "config b = config sample_broker" "box b ''bob'' \<noteq> []"
  shows "\<exists>b'. do_job dead_net no_sleep bob_polls (b, ()) = ((b', ()), Some (Answer 200 (messages_payload (box b ''bob''))))"
proof -
  let ?rq = "fetched ''/messages'' (Some ''Bearer tb'')"
  note bob = bob_poll_admitted[OF assms(1)]
  obtain ans b' where h: "handle_poll noon ''bob'' ?rq b = (ans, b')" by (rule prod.exhaust)
  with handle_poll_answer[OF bob(3) _ h] assms(2) have "handle_poll noon ''bob'' ?rq b = (Answer 200 (messages_payload (box b ''bob'')), b')"
    by simp
  moreover have "rate_limit_per_second b = 0" using assms(1) sample_unlimited by (simp add: config_def)
  ultimately show ?thesis
    using admitted_unlimited[OF bob(1)] bob(2)
    by (simp add: bob_polls_def handle_request_def do_GET_def DEFAULT_MESSAGE_PATH_def HEALTH_PATH_def Let_def)
qed

theorem mailbox_linearizable_witness:
  "\<exists>b' H. do_jobs dead_net no_sleep [alice_pings, bob_polls] (bob_broker, ()) =
      ((b', ()), [Some (Answer 202 BEmpty), Some (Answer 200 (messages_payload [serialize ping]))]) \<and>
    of_thread 0 H = [Put (serialize ping)] \<and> of_thread 1 H = [Took [serialize ping]] \<and>
    replay (map snd H) [] = Some (box b' ''bob'')"
proof -
  have cfg: "config pinged_broker = config sample_broker" using handle_message_config bob_config by metis
  obtain b' where "do_job dead_net no_sleep bob_polls (pinged_broker, ()) =
      ((b', ()), Some (Answer 200 (messages_payload [serialize ping])))"
    using bob_polled[OF cfg] pinged_box by auto
  then have ran: "do_jobs dead_net no_sleep [alice_pings, bob_polls] (bob_broker, ()) =
      ((b', ()), [Some (Answer 202 BEmpty), Some (Answer 200 (messages_payload [serialize ping]))])"
    by (simp only: do_jobs.simps alice_pinged prod.case)
  obtain sched where sched: "run_schedule sched (map (job_prog dead_net no_sleep) [alice_pings, bob_polls], (bob_broker, ())) =
      (map Ret (snd (do_jobs dead_net no_sleep [alice_pings, bob_polls] (bob_broker, ()))),
       fst (do_jobs dead_net no_sleep [alice_pings, bob_polls] (bob_broker, ())))"
    by (rule serial_schedule)
  from mailbox_linearizable[OF sched[unfolded ran fst_conv snd_conv], of "''bob''"] obtain H where
    "replay (map snd H) (box bob_broker ''bob'') = Some (box b' ''bob'')"
    "\<forall>i < 2. of_thread i H = job_events ''bob'' bob_broker ([alice_pings, bob_polls] ! i)
      ([Some (Answer 202 BEmpty), Some (Answer 200 (messages_payload [serialize ping]))] ! i)"
    by (auto simp: numeral_2_eq_2)
  with ran show ?thesis
    by (intro exI[of _ b'] exI[of _ H])
      (simp add: bob_box ping_accepted[OF bob_config] alice_pings_def bob_polls_def bob_poll_admitted(4)[OF bob_config] taken_events_def)
qed



text \<open>So the mail of an agent balances: each message once, and only a removal or a sweep discards.\<close>

theorem races_balance_mail:
  assumes "run_schedule sched (map (job_prog net sleep) jobs, (b, s)) = (map Ret answers, (b', s'))"
  shows "\<exists>lost. mset (box b' c) + (\<Sum>i < length jobs. mset (of_agent c (job_delivered b (jobs ! i) (answers ! i)))) + lost =
      mset (box b c) + (\<Sum>i < length jobs. mset (of_agent c (job_accepted b (jobs ! i) (answers ! i)))) \<and>
    (lost \<noteq> {#} \<longrightarrow> (\<exists>j \<in> set jobs. job_removes j))"
  by (rule jobs_balance[OF assms])

theorem races_balance_mail_witness:
  "mset (box (fst (fst (do_jobs dead_net no_sleep [alice_pings] (bob_broker, ())))) ''bob'') = {#serialize ping#}"
proof -
  have sent: "do_jobs dead_net no_sleep [alice_pings] (bob_broker, ()) = ((pinged_broker, ()), [Some (Answer 202 BEmpty)])"
    by (simp only: do_jobs.simps alice_pinged prod.case)
  obtain sched where sched: "run_schedule sched (map (job_prog dead_net no_sleep) [alice_pings], (bob_broker, ())) =
      (map Ret (snd (do_jobs dead_net no_sleep [alice_pings] (bob_broker, ()))),
       fst (do_jobs dead_net no_sleep [alice_pings] (bob_broker, ())))"
    by (rule serial_schedule)
  from races_balance_mail[OF sched[unfolded sent fst_conv snd_conv], of "''bob''"] show ?thesis
    unfolding sent by (simp add: bob_box ping_accepted[OF bob_config] alice_pings_def polled_by_def)
qed

text \<open>
  Property C10. Registrations, polls and sends that overlap leave the tables of the broker in
  agreement. Each of them fills the registry, the capabilities, the heartbeats, the TTLs and the
  mailboxes one after the other, so in between an agent is in some tables only; but unless an
  agent is removed meanwhile, whatever the schedule, in the end all five describe the same agents,
  a pull agent has its mailbox, no agent was lost, and each agent whose registration was confirmed
  is registered.
\<close>

theorem registrations_settle:
  assumes "coherent b" "\<forall>j \<in> set jobs. \<not> job_removes j"
    and "run_schedule sched (map (job_prog net sleep) jobs, (b, s)) = (map Ret answers, (b', s'))"
  shows "same_agents b' \<and>
    (\<forall>c ep. dict_get (registry b') c = Some ep \<longrightarrow> ep_mailbox ep \<longrightarrow> c \<in> dict_keys (mailboxes b')) \<and>
    agents b \<subseteq> agents b' \<and>
    (\<forall>status c. Some (Answer status (BJson (JDict [(''agent_id'', JStr c)]))) \<in> set answers \<longrightarrow> c \<in> agents b')"
proof -
  note settled = jobs_settle[OF coherent_agree[OF assms(1)] assms(2,3)]
  show ?thesis
    using tables_agreeD[OF settled(1)] settled(2) settled(3)[OF _ confirms_simps(12)[THEN iffD2, OF refl]]
    by (simp add: same_agents_def agents_def)
qed

definition bob_joins :: job where
  "bob_joins = Request POST noon (posted ''/agents'' bob_register_text (Some ''Bearer tb''))"

lemma bob_joined: "snd (do_job dead_net no_sleep bob_joins (sample_broker, ())) =
    Some (Answer 201 (BJson (JDict [(''agent_id'', JStr ''bob'')])))"
proof -
  let ?rq = "posted ''/agents'' bob_register_text (Some ''Bearer tb'')"
  have auth: "authenticate False ?rq sample_broker = Inr ''bob''"
    unfolding authenticate_Inr[OF sample_tokens(1)] by (simp add: presented_token_def sample_tokens starts_with_def)
  show ?thesis
    by (simp add: bob_joins_def handle_request_def do_POST_def authenticated_and_rate_limited_def auth check_rate_limit_def
        sample_unlimited handle_register_accepted[OF bob_registers] bob_args_def)
qed

theorem registrations_settle_witness:
  "let b' = fst (fst (do_jobs dead_net no_sleep [bob_joins, bob_polls] (sample_broker, ()))) in
    same_agents b' \<and> ''bob'' \<in> agents b'"
proof -
  let ?jobs = "[bob_joins, bob_polls]"
  obtain b' s' where b': "fst (do_jobs dead_net no_sleep ?jobs (sample_broker, ())) = (b', s')" by (rule prod.exhaust)
  obtain sched where sched: "run_schedule sched (map (job_prog dead_net no_sleep) ?jobs, (sample_broker, ())) =
      (map Ret (snd (do_jobs dead_net no_sleep ?jobs (sample_broker, ()))), (b', s'))"
    unfolding b'[symmetric] by (rule serial_schedule)
  have keep: "\<forall>j \<in> set ?jobs. \<not> job_removes j" by (simp add: bob_joins_def bob_polls_def)
  have "Some (Answer 201 (BJson (JDict [(''agent_id'', JStr ''bob'')]))) \<in> set (snd (do_jobs dead_net no_sleep ?jobs (sample_broker, ())))"
    by (simp add: split_beta bob_joined)
  with registrations_settle[OF sample_coherent keep sched] b' show ?thesis by (auto simp: Let_def simp del: do_jobs.simps)
qed

text \<open>
  Property C14. On a broker whose agents pull their mail, requests that work on different agents
  do not see each other: whatever the schedule, each gets the answer it would get alone, and
  leaves the registration, capabilities, heartbeat, TTL, mailbox and rate bucket of its agents
  as it would alone.
\<close>

theorem separate_agents_commute:
  assumes "pull_only b" "\<And>j. j < length jobs \<Longrightarrow> footprint b (jobs ! j) = Some (ks j)"
    and "i < length jobs" "\<And>j. j < length jobs \<Longrightarrow> j \<noteq> i \<Longrightarrow> ks i \<inter> ks j = {}"
    and "run_schedule sched (map (job_prog net sleep) jobs, (b, s)) = (ps, (b', s'))" "ps ! i = Ret r"
  shows "\<exists>b1 s1. do_job net sleep (jobs ! i) (b, s) = ((b1, s1), r) \<and>
    (\<forall>c \<in> ks i. agent_view c (b', s') = agent_view c (b1, s1))"
proof -
  have "\<forall>j < length (map (job_prog net sleep) jobs). own b (ks j) (\<lambda>_. True) (map (job_prog net sleep) jobs ! j)"
    by (auto intro!: own_job assms(2))
  then have "\<exists>t'. run_prog (map (job_prog net sleep) jobs ! i) (b, s) = (t', r) \<and> agree agent_view (ks i) (b', s') t'"
    by (rule schedule_confined) (use assms in \<open>auto simp: agree_def\<close>)
  then show ?thesis using assms(3) by (auto simp: run_job agree_def)
qed

lemma pair_footprints:
  "footprint sample_broker alice_leaves = Some {''alice''}" "footprint sample_broker bob_polls = Some {''bob''}"
  unfolding alice_leaves_def bob_polls_def by code_simp+

theorem separate_agents_commute_witness:
  "snd (do_jobs dead_net no_sleep [alice_leaves, bob_polls] (sample_broker, ())) ! 1 =
   snd (do_job dead_net no_sleep bob_polls (sample_broker, ()))"
proof -
  let ?jobs = "[alice_leaves, bob_polls]" and ?ks = "\<lambda>j. if j = (0::nat) then {''alice''} else {''bob''}"
  obtain b' s' where b': "fst (do_jobs dead_net no_sleep ?jobs (sample_broker, ())) = (b', s')" by (rule prod.exhaust)
  obtain sched where sched: "run_schedule sched (map (job_prog dead_net no_sleep) ?jobs, (sample_broker, ())) =
      (map Ret (snd (do_jobs dead_net no_sleep ?jobs (sample_broker, ()))), (b', s'))"
    unfolding b'[symmetric] by (rule serial_schedule)
  have pull: "pull_only sample_broker" by (simp add: pull_only_def sample_empty dict_simps)
  have len: "length (snd (do_jobs dead_net no_sleep ?jobs (sample_broker, ()))) = 2" by (simp add: split_beta)
  have fp: "\<And>j. j < length ?jobs \<Longrightarrow> footprint sample_broker (?jobs ! j) = Some (?ks j)"
    by (auto simp: less_Suc_eq pair_footprints)
  have ret: "map Ret (snd (do_jobs dead_net no_sleep ?jobs (sample_broker, ()))) ! 1 =
      Ret (snd (do_jobs dead_net no_sleep ?jobs (sample_broker, ())) ! 1)" using len by simp
  have "\<exists>b1 s1. do_job dead_net no_sleep (?jobs ! 1) (sample_broker, ()) =
      ((b1, s1), snd (do_jobs dead_net no_sleep ?jobs (sample_broker, ())) ! 1) \<and>
      (\<forall>c \<in> ?ks 1. agent_view c (b', s') = agent_view c (b1, s1))"
    by (rule separate_agents_commute[OF pull fp _ _ sched ret]) auto
  then show ?thesis by (auto simp del: do_jobs.simps)
qed

section \<open>Races for one agent\<close>

text \<open>A thread that has just looked is overtaken by another one, which runs to its end.\<close>

lemma overtaken:
  assumes "run_prog q st = (st2, y)" "run_prog (k (g (fst st))) st2 = (st3, x)"
  shows "\<exists>sched. run_schedule sched ([bind_prog (look g) k, q], st) = ([Ret x, Ret y], st3)"
proof -
  obtain n where n: "finishes n q st" using finishes_enough ..
  obtain m where m: "finishes m (k (g (fst st))) st2" using finishes_enough ..
  have "step_thread 0 ([bind_prog (look g) k, q], st) = ([k (g (fst st)), q], st)"
    by (simp add: look_def access_def)
  moreover have "run_schedule (replicate n 1) ([k (g (fst st)), q], st) = ([k (g (fst st)), q][1 := Ret y], st2)"
    by (rule turns_in_a_row) (use n assms(1) in simp_all)
  moreover have "run_schedule (replicate m 0) ([k (g (fst st)), Ret y], st2) = ([k (g (fst st)), Ret y][0 := Ret x], st3)"
    by (rule turns_in_a_row) (use m assms(2) in simp_all)
  ultimately have "run_schedule (0 # replicate n 1 @ replicate m 0) ([bind_prog (look g) k, q], st) = ([Ret x, Ret y], st3)"
    by (simp del: step_thread.simps)
  then show ?thesis ..
qed

text \<open>A mailbox without a registration: the broker never makes one on its own.\<close>

definition orphaned :: "string \<Rightarrow> broker \<Rightarrow> bool" where
  "orphaned c b \<longleftrightarrow> dict_get (registry b) c = None \<and> dict_has (mailboxes b) c"

lemma orphaned_fields [simp]:
  "orphaned c (audit x1 x2 x3 x4 x5 b) = orphaned c b" "orphaned c (record_traffic a m d st b) = orphaned c b"
  "orphaned c (b\<lparr>last_heartbeat := x6\<rparr>) = orphaned c b"
  by (simp_all add: orphaned_def audit_def record_traffic_def)

lemma orphaned_polls:
  assumes "orphaned c b" "poll_id_of who rq = c"
  shows "orphaned c (snd (handle_poll a who rq b))"
proof -
  have "orphaned c (snd (poll_check now c d b'))" if "orphaned c b'" for now d b'
    using that by (auto simp: poll_check_def orphaned_def dict_has_def dict_simps audit_def split: option.split)
  moreover have "dict_has (mailboxes b) c" using assms(1) by (simp add: orphaned_def)
  ultimately show ?thesis
    using assms by (auto simp: handle_poll_alt Let_def revive_def beat_def)
qed

lemma forget_orphaned: "orphaned c b \<Longrightarrow> x \<noteq> c \<Longrightarrow> orphaned c (forget_agent x b)"
  by (simp add: orphaned_def forget_agent_fields reg_gets dict_has_def dict_simps)

lemma orphaned_sweeps:
  assumes "orphaned c b" "c \<notin> ep_agent_id ` set (list_agents (registry b))"
  shows "orphaned c (sweep_once now b)"
proof -
  have "orphaned c (fold (sweep_agent now) eps b)" if "c \<notin> ep_agent_id ` set eps" for eps
    using assms(1) that
    by (induction eps arbitrary: b) (auto simp: sweep_agent_def forget_orphaned split: option.split)
  with assms(2) show ?thesis by (simp add: sweep_once_def)
qed

text \<open>
  Property C26. A send that has looked its recipient up and is overtaken by the removal of that
  agent is answered 202 and makes a mailbox without a registration. The agent can poll it, but is
  not registered again by its polls, so nobody can send to it, and no sweep removes the mailbox.
\<close>

theorem late_enqueue_orphans:
  assumes "coherent b" "queues_for who m b = Some c" "parse_agent_id_from_path (rq_path rq) = c" "auth_id \<in> {[], c}"
  shows "\<exists>sched b'. run_schedule sched ([message_prog net sleep a who m, deregister_prog auth_id rq], (b, s)) =
      ([Ret (Answer 202 BEmpty), Ret (Answer 204 BEmpty)], (b', s)) \<and>
    orphaned c b' \<and> box b' c = [serialize m] \<and>
    (\<forall>a q poller. poll_id_of poller q = c \<longrightarrow> orphaned c (snd (handle_poll a poller q b'))) \<and>
    (\<forall>now. orphaned c (sweep_once now b'))"
proof -
  from assms(2) obtain ep where ep: "recipient (meta m) = JStr c" "c \<noteq> []" "dict_get (registry b) c = Some ep" "ep_mailbox ep"
    and who: "\<not> (who \<noteq> [] \<and> sender (meta m) \<noteq> JStr who)"
    by (auto simp: queues_for_def split: if_splits json.splits option.splits)
  define b1 where "b1 = audit ''deregister'' c (''/agents/'' @ c) 204 ''deregistered'' (forget_agent c b)"
  define b' where "b' = audit ''send'' who ''/messages'' 202 (''queued for mailbox '' @ c)
    (record_traffic a m QUEUED 202 (enqueue c (serialize m) b1))"
  let ?queued = "seq_prog (update (enqueue (py_str (JStr c)) (serialize m)))
    (send_answer_prog a who m QUEUED 202 (''queued for mailbox '' @ py_str (JStr c)) (Answer 202 BEmpty))"
  have gone: "run_prog (deregister_prog auth_id rq) (b, s) = ((b1, s), Answer 204 BEmpty)"
    using assms(3,4) ep(2) by (auto simp: run_deregister handle_deregister_def Let_def b1_def)
  have found: "reg_lookup_value (JStr c) (registry b) = Inr ep" using ep by (simp add: reg_lookup_value_Inr)
  have sent: "run_prog ?queued (b1, s) = ((b', s), Answer 202 BEmpty)"
    by (simp add: run_send_answer b'_def py_str_def)
  have "\<exists>sched. run_schedule sched ([message_prog net sleep a who m, deregister_prog auth_id rq], (b, s)) =
      ([Ret (Answer 202 BEmpty), Ret (Answer 204 BEmpty)], (b', s))"
    unfolding message_prog_def Let_def ep(1) if_not_P[OF who]
    using overtaken[OF gone, where g = "\<lambda>b. reg_lookup_value (JStr c) (registry b)"] sent found ep(2,4)
    by simp
  moreover have reg: "registry b' = registry (forget_agent c b)" by (simp add: b'_def b1_def)
  moreover have "c \<notin> ep_agent_id ` set (list_agents (registry (forget_agent c b)))"
    using coherent_ids(3)[OF forget_agent_coherent[OF assms(1)], of c] by (simp add: forget_agent_agents)
  moreover have box: "box b' c = [serialize m]" by (simp add: b'_def b1_def box_enqueue box_forget)
  moreover have "orphaned c b'"
    using box by (auto simp: orphaned_def reg forget_agent_fields reg_gets dict_has_def box_def split: option.splits)
  ultimately show ?thesis using orphaned_polls orphaned_sweeps by metis
qed

theorem late_enqueue_orphans_witness:
  "\<exists>sched b'. run_schedule sched ([message_prog dead_net no_sleep noon ''alice'' ping,
      deregister_prog ''bob'' (fetched ''/agents/bob'' None)], (bob_broker, ())) =
      ([Ret (Answer 202 BEmpty), Ret (Answer 204 BEmpty)], (b', ())) \<and> orphaned ''bob'' b' \<and> box b' ''bob'' = [serialize ping]"
proof -
  have p: "parse_agent_id_from_path (rq_path (fetched ''/agents/bob'' None)) = ''bob''" by code_simp
  show ?thesis using late_enqueue_orphans[OF bob_coherent ping_queues p, of "''bob''" dead_net no_sleep noon "()"] by blast
qed

text \<open>The part of a sweep that is about one agent, and a registration, as threads.\<close>

definition evict_thread :: "seconds \<Rightarrow> endpoint \<Rightarrow> ('s, answer option) handler" where
  "evict_thread now ep = bind_prog (evict_prog now ep) (\<lambda>_. Ret None)"

definition register_thread :: "ambient \<Rightarrow> string \<Rightarrow> http_request \<Rightarrow> ('s, answer option) handler" where
  "register_thread a auth_id rq = bind_prog (register_prog a auth_id rq) (\<lambda>ans. Ret (Some ans))"

lemma bind_assoc: "bind_prog (bind_prog p k) k' = bind_prog p (\<lambda>x. bind_prog (k x) k')"
  by (induction p rule: prog_induct) (simp_all add: split_beta)

text \<open>
  A sweep that has found an agent expired and is overtaken by a registration that
  renews it evicts the agent all the same: the agent was answered 200 and is not registered.
\<close>

theorem stale_sweep_evicts:
  assumes "accepted_args auth_id rq b = Some v" "dict_get (registry b) (v_agent_id v) = Some ep"
    and "ep_agent_id ep = v_agent_id v" "expired now b (v_agent_id v)"
  shows "\<exists>sched b'. run_schedule sched ([evict_thread now ep, register_thread a auth_id rq], (b, s)) =
      ([Ret None, Ret (Some (Answer 200 (BJson (JDict [(''agent_id'', JStr (v_agent_id v))]))))], (b', s)) \<and>
    v_agent_id v \<notin> agents b'"
proof -
  let ?c = "v_agent_id v" and ?b1 = "snd (handle_register a auth_id rq b)"
  let ?ans = "Answer 200 (BJson (JDict [(''agent_id'', JStr ?c)]))"
  have known: "\<not> v_is_new v" using accepted_args_Some[OF assms(1)] assms(2) by (auto simp: agents_def dict_keys_def)
  have reg: "run_prog (register_thread a auth_id rq) (b, s) = ((?b1, s), Some ?ans)"
    using handle_register_accepted[OF assms(1), of a] known by (simp add: register_thread_def run_register)
  let ?g = "\<lambda>b. (dict_get (last_heartbeat b) (ep_agent_id ep), dict_get (ttl_seconds b) (ep_agent_id ep), mailbox_grace_seconds b)"
  let ?k = "\<lambda>r. bind_prog (case r of
       (Some last_hb, Some ttl, grace) \<Rightarrow>
         if ttl \<le> 0 then Ret ()
         else if now - last_hb \<le> of_int ttl + (if ep_mailbox ep then grace else 0) then Ret ()
         else forget_prog (ep_agent_id ep)
     | _ \<Rightarrow> Ret ()) (\<lambda>_. Ret None)"
  have thread: "evict_thread now ep = bind_prog (look ?g) ?k"
    unfolding evict_thread_def evict_prog_def bind_assoc ..
  have "run_prog (?k (?g b)) (?b1, s) = ((forget_agent ?c ?b1, s), None)"
    using assms by (auto simp: expired_def entry_def run_forget split: option.splits)
  then have "\<exists>sched. run_schedule sched ([evict_thread now ep, register_thread a auth_id rq], (b, s)) =
      ([Ret None, Ret (Some ?ans)], (forget_agent ?c ?b1, s))"
    unfolding thread by (intro overtaken[OF reg]) simp
  then show ?thesis using forget_agent_agents[of ?c ?b1] by blast
qed

lemma bob_renews: "accepted_args ''bob'' (posted ''/agents'' bob_register_text (Some ''Bearer tb'')) bob_broker
  = Some (bob_args\<lparr>v_is_new := False\<rparr>)"
proof -
  have "reg_lookup ''bob'' (registry bob_broker) = Inr (endpoint_of bob_args)"
    using bob_entry by (simp add: reg_lookup_def entry_def)
  then have "validate_register_payload [(''agent_id'', JStr ''bob''), (''mailbox'', JBool True)] ''bob'' bob_broker
      = Inr (bob_args\<lparr>v_is_new := False\<rparr>)"
    by (simp add: validate_register_payload_def get_default_def mailbox_endpoint_def check_scheme_def check_path_def
        check_capabilities_def check_ttl_def as_str_def as_int_def bob_args_def)
  then show ?thesis by (simp add: accepted_args_def bob_register_body bob_frame)
qed

theorem stale_sweep_evicts_witness:
  "\<exists>sched b'. run_schedule sched ([evict_thread 1000 (endpoint_of bob_args),
      register_thread noon ''bob'' (posted ''/agents'' bob_register_text (Some ''Bearer tb''))], (bob_broker, ())) =
      ([Ret None, Ret (Some (Answer 200 (BJson (JDict [(''agent_id'', JStr ''bob'')]))))], (b', ())) \<and> ''bob'' \<notin> agents b'"
proof -
  have "dict_get (registry bob_broker) ''bob'' = Some (endpoint_of bob_args)" using bob_entry by (simp add: entry_def)
  moreover have "expired 1000 bob_broker ''bob''"
    by (simp add: expired_def bob_entry bob_frame)
  moreover have "ep_agent_id (endpoint_of bob_args) = ''bob''" "v_agent_id (bob_args\<lparr>v_is_new := False\<rparr>) = ''bob''"
    by (simp_all add: endpoint_of_def bob_args_def)
  ultimately show ?thesis
    using stale_sweep_evicts[OF bob_renews, of "endpoint_of bob_args" 1000 noon "()"] by simp
qed

end
