(* ===== verification/Torn_Registration.thy ===== *)
theory Torn_Registration
  imports Broker_Concurrency
begin

text \<open>
  A registration writes five tables with one access each, and nothing orders two registrations of
  one agent: a retry that overlaps its first attempt, or two processes with one token. What the
  agent is left with can be of both.
\<close>

section \<open>A registration in two parts\<close>

text \<open>What is left of a registration once the registry has its endpoint.\<close>

definition fill_prog :: "seconds \<Rightarrow> register_args \<Rightarrow> ('s, unit) handler" where
  "fill_prog now v =
     seq_prog (if v_mailbox v
               then update (\<lambda>b. b\<lparr>mailboxes := dict_setdefault (v_agent_id v) [] (mailboxes b)\<rparr>) else Ret ())
    (seq_prog (update (\<lambda>b. b\<lparr>capabilities := dict_set (v_agent_id v) (v_caps v) (capabilities b)\<rparr>))
      (update (\<lambda>b. let b = b\<lparr>last_heartbeat := dict_set (v_agent_id v) now (last_heartbeat b)\<rparr>
         in case v_ttl v of
              Some ttl \<Rightarrow> b\<lparr>ttl_seconds := dict_set (v_agent_id v) ttl (ttl_seconds b)\<rparr>
            | None \<Rightarrow>
                if v_is_new v
                then b\<lparr>ttl_seconds := dict_set (v_agent_id v) (default_ttl_seconds b) (ttl_seconds b)\<rparr>
                else b)))"

lemma apply_register_fill:
  "apply_register_prog now v = seq_prog (update (\<lambda>b. b\<lparr>registry := reg_register (endpoint_of v) (registry b)\<rparr>)) (fill_prog now v)"
  by (simp add: apply_register_prog_def fill_prog_def)

definition finish_prog :: "ambient \<Rightarrow> register_args \<Rightarrow> ('s, answer) handler" where
  "finish_prog a v = (let status = (if v_is_new v then 201 else 200)
     in seq_prog (fill_prog (mono a) v)
       (seq_prog (audit_prog ''register'' (v_agent_id v) ''/agents'' status (if v_is_new v then ''created'' else ''updated''))
        (Ret (Answer status (BJson (JDict [(''agent_id'', JStr (v_agent_id v))]))))))"

lemma seq_bind: "bind_prog (seq_prog p q) k = seq_prog p (bind_prog q k)"
  by (simp add: seq_prog_def bind_assoc)

lemma seq_assoc: "seq_prog (seq_prog p q) r = seq_prog p (seq_prog q r)"
  by (simp add: seq_prog_def bind_assoc)

text \<open>Three turns bring an accepted registration past its entry into the registry.\<close>

lemma three_turns:
  assumes "accepted_args who rq b = Some v"
  shows "run_schedule [0, 0, 0] ([register_prog a who rq, q], (b, s)) =
    ([finish_prog a v, q], (b\<lparr>registry := reg_register (endpoint_of v) (registry b)\<rparr>, s))"
proof -
  from assms obtain raw data where r: "read_body rq b = Inr raw" "loads raw = Some (JDict data)"
    "validate_register_payload data who b = Inr v"
    by (auto simp: accepted_args_def split: sum.splits option.splits json.splits)
  show ?thesis
    unfolding register_prog_def finish_prog_def apply_register_fill seq_assoc
    by (simp add: look_def access_def r as_dict_def Let_def) (simp add: seq_prog_def update_def access_def)
qed

lemma finish_parts:
  "registry (fst (fst (run_prog (finish_prog a v) (b, s)))) = registry b"
  "capabilities (fst (fst (run_prog (finish_prog a v) (b, s)))) = dict_set (v_agent_id v) (v_caps v) (capabilities b)"
  "snd (fst (run_prog (finish_prog a v) (b, s))) = s"
  "snd (run_prog (finish_prog a v) (b, s)) =
    Answer (if v_is_new v then 201 else 200) (BJson (JDict [(''agent_id'', JStr (v_agent_id v))]))"
  by (simp_all add: finish_prog_def fill_prog_def Let_def audit_def split: option.split)

lemma run_finish:
  obtains b' where "run_prog (finish_prog a v) (b, s) =
      ((b', s), Answer (if v_is_new v then 201 else 200) (BJson (JDict [(''agent_id'', JStr (v_agent_id v))])))"
    "registry b' = registry b" "capabilities b' = dict_set (v_agent_id v) (v_caps v) (capabilities b)"
proof -
  obtain b' s' ans where run: "run_prog (finish_prog a v) (b, s) = ((b', s'), ans)" by (metis prod.exhaust)
  note parts = finish_parts[of a v b s, unfolded run fst_conv snd_conv]
  show thesis by (rule that[OF _ parts(1,2)]) (simp only: run parts(3,4))
qed

text \<open>Acceptance does not depend on the endpoint of an agent that is known.\<close>

lemma accepted_same_agents:
  assumes "dict_keys R = dict_keys (registry b)"
  shows "accepted_args who rq (b\<lparr>registry := R\<rparr>) = accepted_args who rq b"
proof -
  have "(case reg_lookup x R of Inr _ \<Rightarrow> False | Inl _ \<Rightarrow> True) \<longleftrightarrow> x \<notin> dict_keys R" for x and R :: registry
    by (auto simp: reg_lookup_def get_None_keys dest: get_Some_keys split: option.splits)
  moreover have "registry (b\<lparr>registry := R\<rparr>) = R" by simp
  ultimately have "validate_register_payload data who (b\<lparr>registry := R\<rparr>) = validate_register_payload data who b" for data
    unfolding validate_register_payload_def by (simp only: assms)
  moreover have "read_body rq (b\<lparr>registry := R\<rparr>) = read_body rq b" by (rule read_body_config) (simp add: config_def)
  ultimately show ?thesis by (simp only: accepted_args_def)
qed

text \<open>
  Two registrations of a known agent that overlap can tear: both are answered 200, and the agent is
  left with the endpoint of one and the capabilities of the other.
\<close>

theorem registrations_tear:
  assumes "accepted_args who rq1 b = Some v1" "accepted_args who rq2 b = Some v2"
    and "v_agent_id v1 = c" "v_agent_id v2 = c" "c \<in> agents b"
  shows "\<exists>sched b'. run_schedule sched ([register_prog a who rq1, register_prog a who rq2], (b, s)) =
      ([Ret (Answer 200 (BJson (JDict [(''agent_id'', JStr c)]))), Ret (Answer 200 (BJson (JDict [(''agent_id'', JStr c)])))], (b', s)) \<and>
    dict_get (registry b') c = Some (endpoint_of v2) \<and> dict_get (capabilities b') c = Some (v_caps v1)"
proof -
  let ?ans = "Answer 200 (BJson (JDict [(''agent_id'', JStr c)]))"
  let ?b1 = "b\<lparr>registry := reg_register (endpoint_of v1) (registry b)\<rparr>"
  have old: "\<not> v_is_new v1" "\<not> v_is_new v2" using accepted_args_Some(4) assms by auto
  have "dict_keys (reg_register (endpoint_of v1) (registry b)) = dict_keys (registry b)"
    using assms(3,5) by (auto simp: reg_keys endpoint_of_def agents_def)
  then have acc: "accepted_args who rq2 ?b1 = Some v2" by (simp only: accepted_same_agents assms(2))
  let ?b2 = "snd (handle_register a who rq2 ?b1)"
  have second: "run_prog (register_prog a who rq2) (?b1, s) = ((?b2, s), ?ans)"
    using handle_register_accepted[OF acc] old assms(4) by (simp add: run_register)
  obtain b' where first: "run_prog (finish_prog a v1) (?b2, s) = ((b', s), ?ans)"
    "registry b' = registry ?b2" "capabilities b' = dict_set c (v_caps v1) (capabilities ?b2)"
    using run_finish[of a v1 ?b2 s] old assms(3) by auto
  obtain n where n: "finishes n (register_prog a who rq2 :: ('a, answer) handler) (?b1, s)" using finishes_enough ..
  obtain m where m: "finishes m (finish_prog a v1 :: ('a, answer) handler) (?b2, s)" using finishes_enough ..
  have "run_schedule (replicate n 1) ([finish_prog a v1, register_prog a who rq2], (?b1, s)) =
      ([finish_prog a v1, register_prog a who rq2][1 := Ret ?ans], (?b2, s))"
    by (rule turns_in_a_row) (use n second in simp_all)
  moreover have "run_schedule (replicate m 0) ([finish_prog a v1, Ret ?ans], (?b2, s)) =
      ([finish_prog a v1, Ret ?ans][0 := Ret ?ans], (b', s))"
    by (rule turns_in_a_row) (use m first(1) in simp_all)
  ultimately have "run_schedule ([0, 0, 0] @ replicate n 1 @ replicate m 0) ([register_prog a who rq1, register_prog a who rq2], (b, s)) =
      ([Ret ?ans, Ret ?ans], (b', s))"
    unfolding run_schedule_simps(3) three_turns[OF assms(1)] by simp
  moreover have "dict_get (registry b') c = Some (endpoint_of v2)" "dict_get (capabilities b') c = Some (v_caps v1)"
    using first(2,3) handle_register_entry[OF acc, of a] assms(4) by (simp_all add: entry_def dict_simps)
  ultimately show ?thesis by blast
qed

definition role_text :: string where
  "role_text = dumps (JDict [(''agent_id'', JStr ''bob''), (''mailbox'', JBool True),
     (''path'', JStr ''/b''), (''capabilities'', JDict [(''role'', JStr ''b'')])])"

abbreviation role_post :: http_request where
  "role_post \<equiv> posted ''/agents'' role_text (Some ''Bearer tb'')"

lemma role_renews: "accepted_args ''bob'' role_post bob_broker =
    Some (bob_args\<lparr>v_is_new := False, v_path := ''/b'', v_caps := [(''role'', JStr ''b'')]\<rparr>)"
proof -
  have "is_ascii role_text" "length role_text < 200" by code_simp+
  then have body: "read_body role_post bob_broker = Inr role_text" by (simp add: read_body_def posted_body bob_frame)
  have parsed: "loads role_text = Some (JDict [(''agent_id'', JStr ''bob''), (''mailbox'', JBool True),
      (''path'', JStr ''/b''), (''capabilities'', JDict [(''role'', JStr ''b'')])])" by code_simp
  have "reg_lookup ''bob'' (registry bob_broker) = Inr (endpoint_of bob_args)"
    using bob_entry by (simp add: reg_lookup_def entry_def)
  then show ?thesis
    by (simp add: accepted_args_def body parsed validate_register_payload_def get_default_def mailbox_endpoint_def check_scheme_def
        check_path_def check_capabilities_def check_ttl_def as_str_def as_int_def as_dict_def bob_args_def starts_with_def)
qed

text \<open>Bob registers with a role and a path of its own, and without: the path stays, the role is gone.\<close>

theorem registrations_tear_witness:
  "\<exists>sched b'. run_schedule sched ([register_prog noon ''bob'' (posted ''/agents'' bob_register_text (Some ''Bearer tb'')),
      register_prog noon ''bob'' role_post], (bob_broker, ())) =
      ([Ret (Answer 200 (BJson (JDict [(''agent_id'', JStr ''bob'')]))), Ret (Answer 200 (BJson (JDict [(''agent_id'', JStr ''bob'')])))], (b', ())) \<and>
    map_option ep_path (dict_get (registry b') ''bob'') = Some ''/b'' \<and> dict_get (capabilities b') ''bob'' = Some []"
proof -
  have known: "''bob'' \<in> agents bob_broker" using bob_entry by (auto simp: entry_def agents_def dest: get_Some_keys)
  have id: "v_agent_id bob_args = ''bob''" "v_caps bob_args = []" by (simp_all add: bob_args_def)
  from registrations_tear[OF bob_renews role_renews _ _ known, of noon "()"]
  show ?thesis by (fastforce simp: id endpoint_of_def)
qed

end
