(* ===== verification/Json_Text.thy ===== *)
theory Json_Text
  imports Json_Roundtrip
begin

text \<open>
  The characters of a printed JSON value. What \<open>json.dumps\<close> writes with its defaults is ASCII, so
  it arrives over HTTP as it was sent; what it writes with \<open>ensure_ascii=False\<close> has no control
  character in it, so a value takes one line.
\<close>

section \<open>Number literals\<close>

definition visible :: "char \<Rightarrow> bool" where
  "visible c \<longleftrightarrow> 32 \<le> ord c \<and> ord c < 127"

lemma visible_digit: "is_digit c \<Longrightarrow> visible c"
  by (auto simp: visible_def is_digit_def)

lemma visible_digits: "list_all is_digit s \<Longrightarrow> list_all visible s"
  by (induction s) (auto simp: visible_digit)

lemma visible_takeWhile: "list_all visible (takeWhile is_digit s)"
  by (rule visible_digits) (auto simp: list_all_iff dest: set_takeWhileD)

lemma visible_nat_str: "list_all visible (nat_str n)"
  by (rule visible_digits) (rule nat_str_digits)

lemma visible_int_str: "list_all visible (int_str i)"
  by (simp add: int_str_def visible_nat_str) (simp add: visible_def)

lemma visible_signs: "visible (CHR ''-'')" "visible (CHR ''+'')" "visible (CHR ''.'')" "visible (CHR ''e'')" "visible (CHR ''E'')"
    "visible (CHR ''0'')"
  by (simp_all add: visible_def)

lemma visible_lex_int: "lex_int s = Some (l, r) \<Longrightarrow> list_all visible l"
  by (auto simp: lex_int_def visible_takeWhile visible_digit visible_signs split: list.splits if_splits)

lemma visible_lex_signed: "lex_signed s = Some (l, r) \<Longrightarrow> list_all visible l"
  by (auto simp: lex_signed_def visible_signs split: list.splits if_splits dest: visible_lex_int)

lemma visible_lex_frac: "lex_frac s = (l, r) \<Longrightarrow> list_all visible l"
  by (auto simp: lex_frac_def visible_takeWhile visible_digit visible_signs split: list.splits if_splits)

lemma visible_lex_sign: "lex_sign s = (l, r) \<Longrightarrow> list_all visible l"
  by (auto simp: lex_sign_def visible_signs split: list.splits if_splits)

lemma visible_lex_exp: "lex_exp s = (l, r) \<Longrightarrow> list_all visible l"
  by (auto simp: lex_exp_def visible_takeWhile visible_signs dest: visible_lex_sign split: list.splits prod.splits if_splits)

lemma visible_words: "list_all visible ''NaN''" "list_all visible ''Infinity''" "list_all visible ''-Infinity''"
  by (simp_all add: visible_def)

lemma visible_number: "scan_number s = Some (JFloat l, r) \<Longrightarrow> list_all visible l"
  by (auto simp: scan_number_def dest!: visible_lex_signed visible_lex_frac visible_lex_exp
      split: option.splits prod.splits if_splits)

lemma visible_float: "float_lexeme l \<Longrightarrow> list_all visible l"
  unfolding float_lexeme_def using visible_number visible_words by blast

section \<open>Printed values\<close>

text \<open>A set of characters that has the visible ones and all those of the escapes.\<close>

locale printed =
  fixes ok :: "char \<Rightarrow> bool" and esc :: "char \<Rightarrow> string"
  assumes ok_visible: "visible c \<Longrightarrow> ok c"
    and ok_esc: "list_all ok (esc c)"
begin

lemma ok_all: "list_all visible s \<Longrightarrow> list_all ok s"
  by (induction s) (auto simp: ok_visible)

lemma ok_quote: "list_all ok (quote_with esc s)"
proof -
  have "list_all ok (concat (map esc s))" by (induction s) (auto simp: ok_esc)
  then show ?thesis by (simp add: quote_with_def ok_visible visible_def)
qed

lemma ok_dumps:
  "wf_json v \<Longrightarrow> list_all ok (dumps_with esc v)"
  "wf_elems vs \<Longrightarrow> list_all ok (elems_with esc vs)"
  "wf_members kvs \<Longrightarrow> list_all ok (members_with esc kvs)"
  by (induction v and vs and kvs rule: need_need_elems_need_members.induct)
    (auto simp: ok_all visible_int_str visible_float ok_quote, simp_all add: ok_visible visible_def)

end

lemma visible_hex_char: "n < 16 \<Longrightarrow> visible (hex_char n)"
  by (auto simp: hex_char_def visible_def)

lemma ord_less: "ord c < 256"
  by (cases c) (simp add: of_char_def horner_sum_simps split: if_split)

lemma visible_esc_char: "list_all visible (esc_char c)"
proof -
  have "ord c div 16 < 16" using ord_less[of c] by (simp add: less_mult_imp_div_less)
  then have "list_all visible (hex2 (ord c))" by (simp add: hex2_def visible_hex_char)
  then show ?thesis by (auto simp: esc_char_def Let_def) (simp_all add: visible_def)
qed

interpretation ascii_text: printed "\<lambda>c. ord c < 128" esc_char
proof
  show "visible c \<Longrightarrow> ord c < 128" for c by (simp add: visible_def)
  show "list_all (\<lambda>c. ord c < 128) (esc_char c)" for c
    using visible_esc_char[of c] by (auto simp: list_all_iff visible_def)
qed

interpretation raw_text: printed "\<lambda>c. 32 \<le> ord c" raw_char
proof
  show "visible c \<Longrightarrow> 32 \<le> ord c" for c by (simp add: visible_def)
  show "list_all (\<lambda>c. 32 \<le> ord c) (raw_char c)" for c
    using visible_esc_char[of c] by (auto simp: raw_char_def list_all_iff visible_def)
qed

lemma is_ascii_simps [simp]:
  "is_ascii []" "is_ascii (c # cs) \<longleftrightarrow> ord c < 128 \<and> is_ascii cs" "is_ascii (s @ t) \<longleftrightarrow> is_ascii s \<and> is_ascii t"
  by (auto simp: is_ascii_def)

lemma dumps_ascii: "wf_json v \<Longrightarrow> is_ascii (dumps v)"
  using ascii_text.ok_dumps(1) by (simp add: is_ascii_def)

lemma one_line: "wf_json v \<Longrightarrow> CHR 0x0A \<notin> set (dumps_with raw_char v)"
  using raw_text.ok_dumps(1)[of v] by (auto simp: list_all_iff)

end
