(* ===== verification/Audit_Log.thy ===== *)
theory Audit_Log
  imports Broker_Properties Json_Text
begin

text \<open>
  The audit log on disk (\<open>broker/_audit.py\<close>): one JSON object per line, appended to a file or
  written to standard output. \<open>Broker\<close> keeps the records in a list; here is the text they make.
  The clock is a parameter, the list of the readings of \<open>time.time()\<close> as JSON prints them, and so
  is \<open>open\<close>, which gives the text a file has already or raises.
\<close>

section \<open>The logger\<close>

record text_file =
  tf_text :: string
  tf_open :: bool

record audit_logger =
  al_file :: "text_file option"
  al_stdout :: string

definition audit_logger_init :: "(string \<Rightarrow> string result) \<Rightarrow> string option \<Rightarrow> string \<Rightarrow> audit_logger result" where
  "audit_logger_init open_append path out = (case path of
     None \<Rightarrow> Inr \<lparr>al_file = None, al_stdout = out\<rparr>
   | Some p \<Rightarrow> (case open_append p of
       Inl e \<Rightarrow> Inl e
     | Inr old \<Rightarrow> Inr \<lparr>al_file = Some \<lparr>tf_text = old, tf_open = True\<rparr>, al_stdout = out\<rparr>))"

definition audit_fields :: "string \<Rightarrow> audit_record \<Rightarrow> (string, json) dict" where
  "audit_fields now r =
     [(''timestamp'', JFloat now), (''action'', JStr (au_action r)), (''agent_id'', JStr (au_agent_id r)),
      (''path'', JStr (au_path r)), (''status'', JInt (au_status r)), (''detail'', JStr (au_detail r))]"

definition audit_line :: "string \<Rightarrow> audit_record \<Rightarrow> string" where
  "audit_line now r = dumps_with raw_char (JDict (audit_fields now r)) @ [CHR 0x0A]"

definition audit_logger_log :: "string \<Rightarrow> audit_record \<Rightarrow> audit_logger \<Rightarrow> audit_logger result" where
  "audit_logger_log now r l = (case al_file l of
     Some f \<Rightarrow>
       if tf_open f then Inr (l\<lparr>al_file := Some (f\<lparr>tf_text := tf_text f @ audit_line now r\<rparr>)\<rparr>)
       else Inl (PyValueError ''I/O operation on closed file.'')
   | None \<Rightarrow> Inr (l\<lparr>al_stdout := al_stdout l @ audit_line now r\<rparr>))"

definition audit_logger_close :: "audit_logger \<Rightarrow> audit_logger" where
  "audit_logger_close l = (case al_file l of
     Some f \<Rightarrow> l\<lparr>al_file := Some (f\<lparr>tf_open := False\<rparr>)\<rparr> | None \<Rightarrow> l)"

text \<open>The records of a broker, one call of \<open>log\<close> each; the first that raises ends it.\<close>

fun log_records :: "(string \<times> audit_record) list \<Rightarrow> audit_logger \<Rightarrow> audit_logger result" where
  "log_records [] l = Inr l"
| "log_records ((now, r) # rs) l = (case audit_logger_log now r l of
     Inl e \<Rightarrow> Inl e | Inr l' \<Rightarrow> log_records rs l')"

section \<open>Reading it back\<close>

definition logged_text :: "audit_logger \<Rightarrow> string" where
  "logged_text l = (case al_file l of Some f \<Rightarrow> tf_text f | None \<Rightarrow> al_stdout l)"

definition audit_of :: "json \<Rightarrow> audit_record option" where
  "audit_of v = (case v of
     JDict kvs \<Rightarrow> (case (dict_get kvs ''action'', dict_get kvs ''agent_id'', dict_get kvs ''path'',
         dict_get kvs ''status'', dict_get kvs ''detail'') of
       (Some (JStr ac), Some (JStr who), Some (JStr p), Some (JInt st), Some (JStr d)) \<Rightarrow>
         Some \<lparr>au_action = ac, au_agent_id = who, au_path = p, au_status = st, au_detail = d\<rparr>
     | _ \<Rightarrow> None)
   | _ \<Rightarrow> None)"

text \<open>A reader that goes line by line, as \<open>for line in file\<close> does.\<close>

definition read_audit :: "string \<Rightarrow> audit_record option list" where
  "read_audit text = map (\<lambda>line. Option.bind (loads line) audit_of) (butlast (split_on (CHR 0x0A) text))"

lemma split_on_line: "c \<notin> set w \<Longrightarrow> split_on c (w @ c # s) = w # split_on c s"
  by (induction w) auto

lemma audit_fields_wf: "float_lexeme now \<Longrightarrow> wf_json (JDict (audit_fields now r))"
  by (simp add: audit_fields_def wf_dict_def)

lemma audit_of_fields: "audit_of (JDict (audit_fields now r)) = Some r"
  by (simp add: audit_of_def audit_fields_def)

lemma read_line:
  assumes "float_lexeme now"
  shows "read_audit (audit_line now r @ s) = Some r # read_audit s"
proof -
  note wf = audit_fields_wf[OF assms, of r]
  have "split_on (CHR 0x0A) (audit_line now r @ s) = dumps_with raw_char (JDict (audit_fields now r)) # split_on (CHR 0x0A) s"
    using split_on_line[OF one_line[OF wf], of s] by (simp add: audit_line_def del: dumps_with.simps)
  then show ?thesis
    using raw.loads_with[OF wf] by (simp add: read_audit_def audit_of_fields del: dumps_with.simps)
qed

lemma log_records_text:
  "log_records rs l = Inr l' \<Longrightarrow> logged_text l' = logged_text l @ concat (map (\<lambda>(now, r). audit_line now r) rs)"
proof (induction rs arbitrary: l)
  case (Cons p rs)
  obtain now r where p: "p = (now, r)" by (cases p)
  with Cons.prems obtain l1 where l1: "audit_logger_log now r l = Inr l1" "log_records rs l1 = Inr l'"
    by (auto split: sum.splits)
  from l1(1) have "logged_text l1 = logged_text l @ audit_line now r"
    by (auto simp: audit_logger_log_def logged_text_def split: option.splits if_splits)
  with Cons.IH[OF l1(2)] show ?case by (simp add: p)
qed simp

text \<open>
  Property C21. The audit log cannot be forged through its fields: whatever agent ids, paths and
  details are logged, quotes and line breaks included, reading what was appended line by line
  gives back exactly the records, in order.
\<close>

theorem audit_log_readable:
  assumes "log_records (zip clock rs) l = Inr l'" "length clock = length rs" "\<forall>now \<in> set clock. float_lexeme now"
  shows "\<exists>new. logged_text l' = logged_text l @ new \<and> read_audit new = map Some rs"
proof -
  have "read_audit (concat (map (\<lambda>(now, r). audit_line now r) (zip clock rs))) = map Some rs"
    using assms(2,3)
  proof (induction clock rs rule: list_induct2)
    case Nil
    then show ?case by (simp add: read_audit_def)
  qed (simp add: read_line)
  with log_records_text[OF assms(1)] show ?thesis by blast
qed

text \<open>A removal logged with a quote and a line break in the agent id.\<close>

definition forged :: audit_record where
  "forged = \<lparr>au_action = ''deregister'', au_agent_id = [CHR 0x22, CHR 0x0A, CHR ''{''], au_path = ''/agents'',
     au_status = 204, au_detail = ''deregistered''\<rparr>"

theorem audit_log_readable_witness:
  "\<exists>l new. logged_text l = ''old'' @ new \<and> read_audit new = [Some forged]"
proof -
  let ?l = "\<lparr>al_file = Some \<lparr>tf_text = ''old'', tf_open = True\<rparr>, al_stdout = []\<rparr>"
  let ?l' = "?l\<lparr>al_file := Some \<lparr>tf_text = ''old'' @ audit_line ''1.5'' forged, tf_open = True\<rparr>\<rparr>"
  have log: "log_records (zip [''1.5''] [forged]) ?l = Inr ?l'" by (simp add: audit_logger_log_def)
  have "float_lexeme ''1.5''" by code_simp
  then obtain new where "logged_text ?l' = logged_text ?l @ new" "read_audit new = map Some [forged]"
    using audit_log_readable[OF log] by auto
  moreover have "logged_text ?l = ''old''" by (simp add: logged_text_def)
  ultimately have "logged_text ?l' = ''old'' @ new \<and> read_audit new = [Some forged]" by simp
  then show ?thesis by blast
qed

text \<open>
  Once closed, the file takes no more records: a handler that is still running when \<open>stop\<close> has
  closed the log gets a \<open>ValueError\<close>.
\<close>

lemma log_after_close:
  assumes "al_file l = Some f"
  shows "audit_logger_log now r (audit_logger_close l) = Inl (PyValueError ''I/O operation on closed file.'')"
    "logged_text (audit_logger_close l) = logged_text l" "audit_logger_close (audit_logger_close l) = audit_logger_close l"
  using assms by (simp_all add: audit_logger_log_def audit_logger_close_def logged_text_def)

end
