(* ===== verification/Brokered.thy ===== *)
theory Brokered
  imports Broker_Properties
begin

text \<open>
  The client side of the broker, \<open>transport/brokered.py\<close> and \<open>sdk/discovery.py\<close>:
  \<open>NetworkedBrokerTransport\<close>, \<open>BrokeredRegistry\<close> and \<open>create_transport_pair\<close>.

  An exchange with the broker is a parameter: it takes the method, the target, the
  \<open>Authorization\<close> header and the body, and returns an \<open>http_outcome\<close>, threading a state.
\<close>

section \<open>Connection (_BrokerConnectionMixin)\<close>

record broker_conn =
  bc_host :: string
  bc_port :: int
  bc_scheme :: string
  bc_token :: "string option"

definition broker_url :: "broker_conn \<Rightarrow> string" where
  "broker_url c = bc_scheme c @ ''://'' @ bc_host c @ '':'' @ int_str (bc_port c)"

definition auth_header :: "broker_conn \<Rightarrow> string option" where
  "auth_header c = map_option (\<lambda>t. ''Bearer '' @ t) (bc_token c)"

type_synonym 's broker_net = "http_method \<Rightarrow> string \<Rightarrow> string option \<Rightarrow> string option \<Rightarrow> 's \<Rightarrow> http_outcome \<times> 's"

section \<open>NetworkedBrokerTransport\<close>

text \<open>The answer of the broker to a send, as the client reads it.\<close>

definition broker_error :: "message \<Rightarrow> int \<Rightarrow> string \<Rightarrow> exn" where
  "broker_error m status data =
     (let plain = TransportError (''broker returned HTTP '' @ int_str status @ '': '' @ data)
      in case deserialize data of
        Inl e \<Rightarrow> if is_protocol_error e then e else plain
      | Inr r \<Rightarrow>
          (let code = get_default (body r) ''code'' (JStr [])
           in if code = JStr UNKNOWN_RECIPIENT_CODE
              then AgentNotFoundError (''unknown recipient: '' @ py_str (recipient (meta m)))
              else if code = JStr DELIVERY_FAILED_CODE
              then DeliveryError (py_str (get_default (body r) ''message'' (JStr ''delivery failed''))) None
              else plain))"

definition read_send_answer :: "message \<Rightarrow> int \<Rightarrow> string \<Rightarrow> message option result" where
  "read_send_answer m status data =
     (if status = 200 then
        (case deserialize data of
           Inr r \<Rightarrow> Inr (Some r)
         | Inl e \<Rightarrow> if is_protocol_error e
             then Inl (TransportError (''invalid response from broker: '' @ exn_str e)) else Inl e)
      else if status = 202 \<or> status = 204 \<or> data = [] then Inr None
      else Inl (broker_error m status data))"

definition broker_send :: "'s broker_net \<Rightarrow> broker_conn \<Rightarrow> message \<Rightarrow> string \<Rightarrow> ('s, message option) io" where
  "broker_send net c m timeout s =
     (case net POST DEFAULT_MESSAGE_PATH (auth_header c) (Some (serialize m)) s of (out, s') \<Rightarrow>
        (case do_post out timeout ''broker'' of
           Inl e \<Rightarrow> (Inl e, s')
         | Inr (status, data) \<Rightarrow> (read_send_answer m status data, s')))"

definition broker_health_check :: "'s broker_net \<Rightarrow> broker_conn \<Rightarrow> ('s, bool) io" where
  "broker_health_check net c s =
     (case net GET HEALTH_PATH (auth_header c) None s of (out, s') \<Rightarrow> (check_health out, s'))"

text \<open>\<open>deserialize(raw)\<close> of a JSON value: \<open>json.loads\<close> of anything but a string is a \<open>TypeError\<close>,
  which \<open>deserialize\<close> turns into a \<open>ValidationError\<close>.\<close>

definition deserialize_value :: "json \<Rightarrow> message result" where
  "deserialize_value v = (case v of JStr s \<Rightarrow> deserialize s | _ \<Rightarrow> Inl InvalidJson)"

fun deserialize_all :: "json list \<Rightarrow> message list result" where
  "deserialize_all [] = Inr []"
| "deserialize_all (v # vs) = (case deserialize_value v of
     Inl e \<Rightarrow> if is_protocol_error e
       then Inl (TransportError (''invalid message from broker: '' @ exn_str e)) else Inl e
   | Inr m \<Rightarrow> (case deserialize_all vs of Inl e \<Rightarrow> Inl e | Inr ms \<Rightarrow> Inr (m # ms)))"

definition read_poll_answer :: "int \<Rightarrow> string \<Rightarrow> message list result" where
  "read_poll_answer status data =
     (if status \<noteq> 200
      then Inl (TransportError (''broker GET /messages returned HTTP '' @ int_str status @ '': '' @ data))
      else (case (if data = [] then Some (JDict []) else loads data) of
        None \<Rightarrow> Inl (TransportError (''invalid poll response from broker: ''))
      | Some parsed \<Rightarrow>
          (let raw_messages = (case as_dict parsed of
                 Some d \<Rightarrow> get_default d ''messages'' (JList []) | None \<Rightarrow> JList [])
           in case py_iter raw_messages of
                None \<Rightarrow> Inl PyTypeError
              | Some vs \<Rightarrow> deserialize_all vs)))"

fun read_poll_outcome :: "http_outcome \<Rightarrow> string \<Rightarrow> message list result" where
  "read_poll_outcome (HttpReply status data) timeout = (case utf8_decode data of
     Some text \<Rightarrow> read_poll_answer status text
   | None \<Rightarrow> Inl (PyValueError ''invalid utf-8''))"
| "read_poll_outcome HttpTimeout timeout =
     Inl (TransportTimeoutError (''poll to broker timed out after '' @ timeout @ ''s''))"
| "read_poll_outcome (HttpOSError msg) timeout = Inl (TransportError (''failed to reach broker: '' @ msg))"
| "read_poll_outcome (HttpExc msg) timeout = Inl (HTTPException msg)"

text \<open>\<open>urlencode({"agent_id": agent_id, "wait": wait})\<close>.\<close>

definition url_safe :: "char \<Rightarrow> bool" where
  "url_safe c = (let n = ord c in (48 \<le> n \<and> n \<le> 57) \<or> (65 \<le> n \<and> n \<le> 90) \<or> (97 \<le> n \<and> n \<le> 122) \<or>
     c = CHR ''_'' \<or> c = CHR ''.'' \<or> c = CHR ''-'' \<or> c = CHR ''~'')"

definition hex_upper :: "nat \<Rightarrow> char" where
  "hex_upper n = (if n < 10 then char_of (48 + n) else char_of (55 + n))"

definition percent :: "nat \<Rightarrow> string" where
  "percent n = [CHR ''%'', hex_upper (n div 16), hex_upper (n mod 16)]"

definition quote_char :: "char \<Rightarrow> string" where
  "quote_char c = (let n = ord c in
     if url_safe c then [c]
     else if c = CHR '' '' then ''+''
     else if n < 128 then percent n
     else percent (192 + n div 64) @ percent (128 + n mod 64))"

definition quote_plus :: "string \<Rightarrow> string" where
  "quote_plus s = concat (map quote_char s)"

definition poll_target :: "string \<Rightarrow> string \<Rightarrow> string" where
  "poll_target agent_id wait =
     DEFAULT_MESSAGE_PATH @ ''?agent_id='' @ quote_plus agent_id @ ''&wait='' @ quote_plus wait"

definition broker_receive ::
  "'s broker_net \<Rightarrow> broker_conn \<Rightarrow> string \<Rightarrow> string \<Rightarrow> string \<Rightarrow> ('s, message list) io" where
  "broker_receive net c agent_id wait timeout s =
     (case net GET (poll_target agent_id wait) (auth_header c) None s of (out, s') \<Rightarrow>
        (read_poll_outcome out timeout, s'))"

section \<open>BrokeredRegistry\<close>

text \<open>
  \<open>_request\<close>: the body parsed as JSON, as text where it is none, \<open>None\<close> where there is no
  body. Failures of the network are not wrapped here.
\<close>

fun read_registry_outcome :: "http_outcome \<Rightarrow> (int \<times> json) result" where
  "read_registry_outcome (HttpReply status data) = (case utf8_decode data of
     None \<Rightarrow> Inl (PyValueError ''invalid utf-8'')
   | Some text \<Rightarrow> Inr (status, if text = [] then JNull else (case loads text of Some v \<Rightarrow> v | None \<Rightarrow> JStr text)))"
| "read_registry_outcome HttpTimeout = Inl PyTimeoutError"
| "read_registry_outcome (HttpOSError msg) = Inl (PyOSError msg)"
| "read_registry_outcome (HttpExc msg) = Inl (HTTPException msg)"

definition registry_request ::
  "'s broker_net \<Rightarrow> broker_conn \<Rightarrow> http_method \<Rightarrow> string \<Rightarrow> json option \<Rightarrow> ('s, int \<times> json) io" where
  "registry_request net c meth path b s =
     (case net meth path (auth_header c) (map_option dumps b) s of (out, s') \<Rightarrow>
        (read_registry_outcome out, s'))"

definition register_body :: "endpoint \<Rightarrow> (string, json) dict \<Rightarrow> json" where
  "register_body ep caps = JDict
     [(''agent_id'', JStr (ep_agent_id ep)), (''host'', JStr (ep_host ep)), (''port'', JInt (ep_port ep)),
      (''scheme'', JStr (ep_scheme ep)), (''path'', JStr (ep_path ep)), (''capabilities'', JDict caps),
      (''mailbox'', JBool (ep_mailbox ep))]"

text \<open>The status of the answer is not looked at.\<close>

definition brokered_register ::
  "'s broker_net \<Rightarrow> broker_conn \<Rightarrow> endpoint \<Rightarrow> (string, json) dict option \<Rightarrow> ('s, unit) io" where
  "brokered_register net c ep caps s =
     (case registry_request net c POST ''/agents''
             (Some (register_body ep (case caps of Some d \<Rightarrow> d | None \<Rightarrow> []))) s of
        (Inl e, s') \<Rightarrow> (Inl e, s')
      | (Inr _, s') \<Rightarrow> (Inr (), s'))"

definition brokered_unregister :: "'s broker_net \<Rightarrow> broker_conn \<Rightarrow> string \<Rightarrow> ('s, unit) io" where
  "brokered_unregister net c agent_id s =
     (case registry_request net c DELETE (''/agents/'' @ agent_id) None s of
        (Inl e, s') \<Rightarrow> (Inl e, s')
      | (Inr _, s') \<Rightarrow> (Inr (), s'))"

definition placeholder :: "broker_conn \<Rightarrow> string \<Rightarrow> endpoint" where
  "placeholder c agent_id = \<lparr>ep_agent_id = agent_id, ep_host = ''broker'', ep_port = bc_port c,
     ep_scheme = ''http'', ep_path = DEFAULT_MESSAGE_PATH, ep_mailbox = False\<rparr>"

text \<open>The \<open>agents\<close> of an answer to \<open>GET /agents\<close>, as far as they are dicts.\<close>

definition agent_entries :: "int \<Rightarrow> json \<Rightarrow> (string, json) dict list result" where
  "agent_entries status parsed =
     (if status \<noteq> 200
      then Inl (TransportError (''broker GET /agents returned HTTP '' @ int_str status @ '': '' @ py_str parsed))
      else (case py_iter (case as_dict parsed of
                Some d \<Rightarrow> get_default d ''agents'' (JList []) | None \<Rightarrow> JList []) of
        None \<Rightarrow> Inl PyTypeError
      | Some vs \<Rightarrow> Inr (List.map_filter as_dict vs)))"

definition fetch_entries :: "'s broker_net \<Rightarrow> broker_conn \<Rightarrow> ('s, (string, json) dict list) io" where
  "fetch_entries net c s = (case registry_request net c GET ''/agents'' None s of
     (Inl e, s') \<Rightarrow> (Inl e, s')
   | (Inr (status, parsed), s') \<Rightarrow> (agent_entries status parsed, s'))"

definition brokered_lookup :: "'s broker_net \<Rightarrow> broker_conn \<Rightarrow> string \<Rightarrow> ('s, endpoint) io" where
  "brokered_lookup net c agent_id s = (case fetch_entries net c s of
     (Inl e, s') \<Rightarrow> (Inl e, s')
   | (Inr es, s') \<Rightarrow>
       (if list_ex (\<lambda>e. get_default e ''agent_id'' JNull = JStr agent_id) es
        then Inr (placeholder c agent_id) else Inl (unknown_agent agent_id), s'))"

definition brokered_list_agents :: "'s broker_net \<Rightarrow> broker_conn \<Rightarrow> ('s, endpoint list) io" where
  "brokered_list_agents net c s = (case fetch_entries net c s of
     (Inl e, s') \<Rightarrow> (Inl e, s')
   | (Inr es, s') \<Rightarrow>
       (Inr (map (\<lambda>e. placeholder c (py_str (get_default e ''agent_id'' (JStr [])))) es), s'))"

definition discover_agents :: "'s broker_net \<Rightarrow> broker_conn \<Rightarrow> ('s, agent_info list) io" where
  "discover_agents net c s = (case fetch_entries net c s of
     (Inl e, s') \<Rightarrow> (Inl e, s')
   | (Inr es, s') \<Rightarrow>
       (Inr (map (\<lambda>e. \<lparr>info_agent_id = py_str (get_default e ''agent_id'' (JStr [])),
          info_capabilities = (case as_dict (get_default e ''capabilities'' (JDict [])) of
             Some d \<Rightarrow> d | None \<Rightarrow> [])\<rparr>) es), s'))"

text \<open>
  \<open>sdk/discovery.py\<close>: one listing for a caller without an agent. The TLS context is made from the
  CA file, by a parameter that may raise, when it is not given; the network depends on it. The
  argument \<open>timeout\<close> is not used: the request has the timeout of every registry request.
\<close>

definition sdk_discover_agents ::
  "(string \<Rightarrow> 'c result) \<Rightarrow> ('c option \<Rightarrow> 's broker_net) \<Rightarrow> string \<Rightarrow> int \<Rightarrow> string option \<Rightarrow> string \<Rightarrow>
   string option \<Rightarrow> 'c option \<Rightarrow> seconds \<Rightarrow> ('s, agent_info list) io" where
  "sdk_discover_agents create_context net broker_host broker_port broker_token broker_scheme tls_ca ssl_context timeout s =
     (let conn = \<lparr>bc_host = broker_host, bc_port = broker_port, bc_scheme = broker_scheme, bc_token = broker_token\<rparr>
      in case (ssl_context, tls_ca) of
           (None, Some (c # ca)) \<Rightarrow> (case create_context (c # ca) of
              Inl e \<Rightarrow> (Inl e, s)
            | Inr ctx \<Rightarrow> discover_agents (net (Some ctx)) conn s)
         | _ \<Rightarrow> discover_agents (net ssl_context) conn s)"

lemma discover_ignores_timeout:
  "sdk_discover_agents create_context net host port token scheme tls_ca ssl_context t s =
   sdk_discover_agents create_context net host port token scheme tls_ca ssl_context u s"
  by (simp add: sdk_discover_agents_def)

section \<open>create_transport_pair\<close>

datatype transport_pair = InProcess registry | Brokered broker_conn

definition create_transport_pair ::
  "string \<Rightarrow> string \<Rightarrow> int \<Rightarrow> string \<Rightarrow> string option \<Rightarrow> transport_pair result" where
  "create_transport_pair mode host port scheme token =
     (if mode = ''in-process'' then Inr (InProcess [])
      else if mode = ''brokered''
      then Inr (Brokered \<lparr>bc_host = host, bc_port = port, bc_scheme = scheme, bc_token = token\<rparr>)
      else Inl (PyValueError (''unknown transport mode: '' @ repr_str mode)))"

section \<open>The broker as the other end\<close>

text \<open>
  The answers of the broker as they go over the wire. The text of a number of seconds, which
  Python prints, is a parameter. A poll that waits longer than its client is a timeout for it.
\<close>

definition status_text :: "agent_status \<Rightarrow> string" where
  "status_text st = (case st of ACTIVE \<Rightarrow> ''active'' | STALE \<Rightarrow> ''stale'' | UNKNOWN \<Rightarrow> ''unknown'')"

definition entry_json :: "(seconds \<Rightarrow> string) \<Rightarrow> agent_entry \<Rightarrow> json" where
  "entry_json float_text e = JDict
     [(''agent_id'', JStr (ae_agent_id e)), (''capabilities'', JDict (ae_capabilities e)),
      (''last_seen_seconds_ago'', (case ae_last_seen e of None \<Rightarrow> JNull | Some t \<Rightarrow> JFloat (float_text t))),
      (''ttl_seconds'', (case ae_ttl e of None \<Rightarrow> JNull | Some n \<Rightarrow> JInt n)),
      (''status'', JStr (status_text (ae_status e))), (''mailbox'', JBool (ae_mailbox e))]"

definition traffic_json :: "(seconds \<Rightarrow> string) \<Rightarrow> traffic_record \<Rightarrow> json" where
  "traffic_json float_text r = JDict
     [(''timestamp'', JFloat (float_text (tr_timestamp r))), (''source'', tr_source r),
      (''destination'', tr_destination r), (''type'', JStr (tr_type r)), (''topic'', tr_topic r),
      (''message_id'', JStr (tr_message_id r)), (''correlation_id'', opt_str (tr_correlation_id r)),
      (''body_size_bytes'', JInt (int (tr_body_size_bytes r))),
      (''disposition'', JStr (disposition_value (tr_disposition r))), (''status'', JInt (tr_status r))]"

fun body_text :: "(seconds \<Rightarrow> string) \<Rightarrow> body \<Rightarrow> string" where
  "body_text ft (BJson v) = dumps v"
| "body_text ft (BText t) = t"
| "body_text ft BHtml = ''<!DOCTYPE html>''"
| "body_text ft BEmpty = []"
| "body_text ft (BAgents es) = dumps (JDict [(''agents'', JList (map (entry_json ft) es))])"
| "body_text ft (BTraffic rs) = dumps (JDict [(''traffic'', JList (map (traffic_json ft) rs))])"

fun wire :: "(seconds \<Rightarrow> string) \<Rightarrow> answer \<Rightarrow> http_outcome" where
  "wire ft (Answer status b) = HttpReply status (body_text ft b)"
| "wire ft (Died e) = HttpOSError ''Remote end closed connection without response''"
| "wire ft (Waiting p d) = HttpTimeout"

text \<open>A network that ends at the broker: its state is the broker and that of its own network.\<close>

definition to_broker ::
  "(seconds \<Rightarrow> string) \<Rightarrow> 's exchange \<Rightarrow> (seconds \<Rightarrow> 's \<Rightarrow> 's) \<Rightarrow> ambient \<Rightarrow> (broker \<times> 's) broker_net" where
  "to_broker ft net sleep a meth path auth text st = (case st of (b, s) \<Rightarrow>
     (case handle_request net sleep meth a
             (case text of Some t \<Rightarrow> posted path t auth | None \<Rightarrow> fetched path auth) b s of
        ((ans, b'), s') \<Rightarrow> (wire ft ans, (b', s'))))"

end
