(* ===== verification/Brokered_Props.thy ===== *)
theory Brokered_Props
  imports Brokered Json_Text
begin

text \<open>
  The client and the broker together. The client's texts are ASCII, so they arrive as they were
  sent; a message sent through the broker to an agent with a mailbox is what that agent's next
  poll returns; and the brokered registry finds exactly the agents of the broker.
\<close>

section \<open>Texts on the wire\<close>

lemma serialize_ascii: "wf_message m \<Longrightarrow> is_ascii (serialize m)"
  unfolding serialize_def by (rule dumps_ascii) (rule to_dict_wf)

section \<open>Requests of a client\<close>

lemma poll_target_path [simp]: "url_path (poll_target c w) = DEFAULT_MESSAGE_PATH" "poll_target c w \<noteq> HEALTH_PATH"
  by (simp_all add: url_path_def poll_target_def DEFAULT_MESSAGE_PATH_def HEALTH_PATH_def)

text \<open>A client whose token is in the table of the broker.\<close>

definition client_of :: "broker_conn \<Rightarrow> string \<Rightarrow> broker \<Rightarrow> bool" where
  "client_of c who b \<longleftrightarrow> who \<noteq> [] \<and> agent_tokens b \<noteq> None \<and>
     (\<exists>tok. bc_token c = Some tok \<and> dict_get (token_to_agent b) tok = Some who)"

lemma client_admitted:
  assumes "client_of c who b" "rq_auth rq = auth_header c" "rate_limit_per_second b \<le> 0"
  shows "authenticated_and_rate_limited q a rq b = (Inr who, b)"
proof -
  from assms(1) obtain tok ts where t: "bc_token c = Some tok" "dict_get (token_to_agent b) tok = Some who"
    "agent_tokens b = Some ts" by (auto simp: client_of_def)
  have "presented_token q rq = Some tok"
    using assms(2) t(1) by (simp add: presented_token_def auth_header_def starts_with_def)
  then have "authenticate q rq b = Inr who" using t by (simp add: authenticate_Inr)
  then show ?thesis using assms(3) by (rule admitted_unlimited)
qed

lemma client_of_config: "config b' = config b \<Longrightarrow> client_of c who b' = client_of c who b"
  by (simp add: client_of_def config_def)

text \<open>A send through the broker, up to the handler.\<close>

lemma broker_send_post:
  assumes "client_of c who b" "rate_limit_per_second b \<le> 0" "valid_message m" "wf_message m"
    and "int (length (serialize m)) \<le> max_body_size b"
  shows "to_broker ft net sleep a POST DEFAULT_MESSAGE_PATH (auth_header c) (Some (serialize m)) (b, s) =
    (case handle_message net sleep a who m b s of ((ans, b'), s') \<Rightarrow> (wire ft ans, (b', s')))"
proof -
  have read: "read_body (posted DEFAULT_MESSAGE_PATH (serialize m) (auth_header c)) b = Inr (serialize m)"
    using assms(5) serialize_ascii[OF assms(4)] by (simp add: read_body_def posted_body)
  have "do_POST net sleep a (posted DEFAULT_MESSAGE_PATH (serialize m) (auth_header c)) b s = handle_message net sleep a who m b s"
    using client_admitted[OF assms(1) _ assms(2), of "posted DEFAULT_MESSAGE_PATH (serialize m) (auth_header c)" False a]
    by (simp add: do_POST_def handle_send_def read deserialize_serialize[OF assms(3,4)])
      (simp add: DEFAULT_MESSAGE_PATH_def)
  then show ?thesis by (simp add: to_broker_def handle_request_def)
qed

lemma broker_send_queued:
  assumes "client_of c who b" "rate_limit_per_second b \<le> 0" "valid_message m" "wf_message m"
    and "int (length (serialize m)) \<le> max_body_size b" "queues_for who m b = Some d"
  shows "\<exists>b'. broker_send (to_broker ft net sleep a) c m timeout (b, s) = (Inr None, (b', s)) \<and>
    box b' d = box b d @ [serialize m] \<and> config b' = config b \<and>
    (\<forall>x. entry b' x = entry b x \<and> (x \<noteq> d \<longrightarrow> box b' x = box b x))"
proof -
  let ?b = "audit ''send'' who ''/messages'' 202 (''queued for mailbox '' @ d) (record_traffic a m QUEUED 202 (enqueue d (serialize m) b))"
  have "to_broker ft net sleep a POST DEFAULT_MESSAGE_PATH (auth_header c) (Some (serialize m)) (b, s) = (HttpReply 202 [], (?b, s))"
    by (simp add: broker_send_post[OF assms(1-5)] handle_message_queued[OF assms(6)])
  then have "broker_send (to_broker ft net sleep a) c m timeout (b, s) = (Inr None, (?b, s))"
    by (simp add: broker_send_def read_send_answer_def)
  moreover have "box ?b d = box b d @ [serialize m]" "config ?b = config b"
    "\<forall>x. entry ?b x = entry b x \<and> (x \<noteq> d \<longrightarrow> box ?b x = box b x)" by (simp_all add: box_enqueue)
  ultimately show ?thesis by blast
qed

lemma deserialize_all_append:
  "deserialize_all vs = Inr ms \<Longrightarrow> deserialize_value v = Inr m \<Longrightarrow> deserialize_all (vs @ [v]) = Inr (ms @ [m])"
  by (induction vs arbitrary: ms) (auto split: sum.splits if_splits)

lemma messages_wf: "wf_json (JDict [(''messages'', JList (map JStr ms))])"
  by (induction ms) (auto simp: wf_dict_def)

text \<open>A poll of a non-empty mailbox through the broker.\<close>

lemma broker_receive_mail:
  assumes "client_of c who b" "rate_limit_per_second b \<le> 0" "box b who \<noteq> []"
  shows "\<exists>b'. broker_receive (to_broker ft net sleep a) c who w timeout (b, s) =
      (deserialize_all (map JStr (box b who)), (b', s)) \<and> box b' who = [] \<and>
    config b' = config b \<and> (\<forall>x. x \<noteq> who \<longrightarrow> entry b' x = entry b x \<and> box b' x = box b x)"
proof -
  let ?rq = "fetched (poll_target who w) (auth_header c)"
  have who: "who \<noteq> []" using assms(1) by (simp add: client_of_def)
  then have pid: "poll_id_of who ?rq = who" by (simp add: poll_id_of_def)
  obtain ans b' where h: "handle_poll a who ?rq b = (ans, b')" by (cases "handle_poll a who ?rq b")
  from handle_poll_answer[OF pid who h] assms(3) have ans: "ans = Answer 200 (messages_payload (box b who))" "box b' who = []"
    by simp_all
  let ?v = "JDict [(''messages'', JList (map JStr (box b who)))]"
  have "utf8_decode (dumps ?v) = Some (dumps ?v)" by (intro utf8_decode_ascii dumps_ascii messages_wf)
  moreover have "loads (dumps ?v) = Some ?v" by (intro loads_dumps messages_wf)
  moreover have "dumps ?v \<noteq> []" by simp
  moreover have "do_GET a ?rq b = (ans, b')"
    using client_admitted[OF assms(1) _ assms(2), of ?rq _ a] h
    by (simp add: do_GET_def Let_def DEFAULT_MESSAGE_PATH_def dashboard_reading_paths_def)
  ultimately have "broker_receive (to_broker ft net sleep a) c who w timeout (b, s) = (deserialize_all (map JStr (box b who)), (b', s))"
    using ans(1)
    by (simp del: dumps_with.simps add: broker_receive_def to_broker_def handle_request_def messages_payload_def
        read_poll_answer_def get_default_def py_iter_def)
  moreover have "config b' = config b" "x \<noteq> who \<Longrightarrow> entry b' x = entry b x \<and> box b' x = box b x" for x
    using handle_poll_config[of a who ?rq b] handle_poll_others[of x who ?rq a b] pid h by auto
  ultimately show ?thesis using ans(2) by blast
qed

lemma broker_receive_queued:
  assumes "client_of c who b" "rate_limit_per_second b \<le> 0" "box b who \<noteq> []"
    and "deserialize_all (map JStr (box b who)) = Inr ms"
  shows "\<exists>b'. broker_receive (to_broker ft net sleep a) c who w timeout (b, s) = (Inr ms, (b', s)) \<and> box b' who = [] \<and>
    config b' = config b \<and> (\<forall>x. x \<noteq> who \<longrightarrow> entry b' x = entry b x \<and> box b' x = box b x)"
  using broker_receive_mail[OF assms(1-3)] unfolding assms(4) .


section \<open>The registry of the broker, from the client\<close>

lemma entry_json_wf:
  assumes "\<And>t. float_lexeme (ft t)" "wf_json (JDict (ae_capabilities e))"
  shows "wf_json (entry_json ft e)"
  using assms by (simp add: entry_json_def wf_dict_def split: option.split)

lemma agents_text:
  assumes "\<And>t. float_lexeme (ft t)" "\<forall>e \<in> set es. wf_json (JDict (ae_capabilities e))"
  shows "utf8_decode (body_text ft (BAgents es)) = Some (body_text ft (BAgents es))"
    "loads (body_text ft (BAgents es)) = Some (JDict [(''agents'', JList (map (entry_json ft) es))])"
    "body_text ft (BAgents es) \<noteq> []"
proof -
  let ?v = "JDict [(''agents'', JList (map (entry_json ft) es))]"
  have wf: "wf_json ?v" using assms by (auto simp: wf_dict_def wf_elems_iff intro!: entry_json_wf)
  then show "utf8_decode (body_text ft (BAgents es)) = Some (body_text ft (BAgents es))"
    by (simp add: utf8_decode_ascii dumps_ascii del: dumps_with.simps wf_json.simps)
  show "loads (body_text ft (BAgents es)) = Some ?v"
    using loads_dumps[OF wf] by (simp del: dumps_with.simps)
  show "body_text ft (BAgents es) \<noteq> []" by simp
qed

definition listed_entries :: "ambient \<Rightarrow> broker \<Rightarrow> agent_entry list" where
  "listed_entries a b = map (\<lambda>(agent_id, caps). build_agent_entry (registry b) agent_id caps (last_heartbeat b)
     (ttl_seconds b) (mono a)) (capabilities b)"

lemma fetch_entries_broker:
  assumes "client_of c who b" "rate_limit_per_second b \<le> 0" "coherent b" "\<And>t. float_lexeme (ft t)"
  shows "fetch_entries (to_broker ft net sleep a) c (b, s) =
    (Inr (map (\<lambda>e. the (as_dict (entry_json ft e))) (listed_entries a b)), (b, s))"
proof -
  let ?rq = "fetched ''/agents'' (auth_header c)"
  have caps: "wf_json (JDict (ae_capabilities e))" if e: "e \<in> set (listed_entries a b)" for e
  proof -
    from e obtain d k where "(d, k) \<in> set (capabilities b)" "ae_capabilities e = k"
      by (auto simp: listed_entries_def build_agent_entry_def Let_def)
    moreover have "wf_dict (capabilities b)" using assms(3) by (simp add: coherent_def wf_state_def)
    ultimately show ?thesis
      using assms(3) wf_get_iff[of "capabilities b" d k] by (simp add: coherent_def wf_state_def del: wf_json.simps)
  qed
  note body_ok = agents_text[OF assms(4), of "listed_entries a b"]
  have "url_path ''/agents'' = ''/agents''" "''/agents'' \<noteq> HEALTH_PATH" by code_simp+
  then have "do_GET a ?rq b = (Answer 200 (BAgents (listed_entries a b)), b)"
    using client_admitted[OF assms(1) _ assms(2), of ?rq _ a]
    by (simp add: do_GET_def Let_def handle_agents_def listed_entries_def)
  moreover have "List.map_filter as_dict (map (entry_json ft) es) = map (\<lambda>e. the (as_dict (entry_json ft e))) es" for es
    by (induction es) (simp_all add: map_filter_simps entry_json_def)
  ultimately show ?thesis
    using body_ok caps
    by (simp add: fetch_entries_def registry_request_def to_broker_def handle_request_def agent_entries_def
        get_default_def py_iter_def del: body_text.simps)
qed

lemma listed_ids: "map ae_agent_id (listed_entries a b) = map fst (capabilities b)"
  by (auto simp: listed_entries_def build_agent_entry_def Let_def)

lemma entry_json_id: "get_default (the (as_dict (entry_json ft e))) ''agent_id'' d = JStr (ae_agent_id e)"
  by (simp add: entry_json_def get_default_def)

lemma brokered_lookup_broker:
  assumes "client_of c who b" "rate_limit_per_second b \<le> 0" "coherent b" "\<And>t. float_lexeme (ft t)"
  shows "brokered_lookup (to_broker ft net sleep a) c d (b, s) =
    (if d \<in> agents b then Inr (placeholder c d) else Inl (unknown_agent d), (b, s))"
proof -
  have "(\<exists>e \<in> set (listed_entries a b). ae_agent_id e = d) \<longleftrightarrow> d \<in> set (map ae_agent_id (listed_entries a b))"
    by auto
  also have "\<dots> \<longleftrightarrow> d \<in> agents b"
    using assms(3) unfolding listed_ids by (auto simp: coherent_def same_agents_def agents_def keys_fst)
  finally show ?thesis
    by (simp add: brokered_lookup_def fetch_entries_broker[OF assms] entry_json_id list_ex_iff)
qed

section \<open>Properties\<close>

text \<open>
  Through the broker, end to end: a valid message one client sends to an agent
  with a mailbox is what that agent's next poll returns, after the messages that were already
  queued for it, in order, equal in every field; the mailbox is empty afterwards.
\<close>

theorem send_then_receive:
  assumes "client_of ca who b" "client_of cb d b" "rate_limit_per_second b \<le> 0"
    and "valid_message m" "wf_message m" "int (length (serialize m)) \<le> max_body_size b"
    and "queues_for who m b = Some d" "deserialize_all (map JStr (box b d)) = Inr ms"
  shows "\<exists>b1 b2. broker_send (to_broker ft net sleep a) ca m timeout (b, s) = (Inr None, (b1, s)) \<and>
    broker_receive (to_broker ft net sleep a') cb d w timeout (b1, s) = (Inr (ms @ [m]), (b2, s)) \<and> box b2 d = []"
proof -
  from broker_send_queued[OF assms(1,3-7), of ft net sleep a timeout s] obtain b1 where
    b1: "broker_send (to_broker ft net sleep a) ca m timeout (b, s) = (Inr None, (b1, s))"
      "box b1 d = box b d @ [serialize m]" "config b1 = config b" by blast
  have "rate_limit_per_second b1 \<le> 0" using assms(3) b1(3) by (simp add: config_def)
  moreover have "client_of cb d b1" using assms(2) client_of_config[OF b1(3)] by simp
  moreover have "deserialize_all (map JStr (box b1 d)) = Inr (ms @ [m])"
    using deserialize_all_append[OF assms(8), of "JStr (serialize m)" m]
    by (simp add: b1(2) deserialize_value_def deserialize_serialize[OF assms(4,5)])
  ultimately show ?thesis using b1 broker_receive_queued[of cb d b1] by (metis append_is_Nil_conv list.distinct(1))
qed

definition alice_conn :: broker_conn where
  "alice_conn = \<lparr>bc_host = ''broker'', bc_port = 8443, bc_scheme = ''https'', bc_token = Some ''ta''\<rparr>"

definition bob_conn :: broker_conn where
  "bob_conn = \<lparr>bc_host = ''broker'', bc_port = 8443, bc_scheme = ''https'', bc_token = Some ''tb''\<rparr>"

definition half_text :: "seconds \<Rightarrow> string" where
  "half_text t = ''0.5''"

lemma sample_clients: "client_of alice_conn ''alice'' bob_broker" "client_of bob_conn ''bob'' bob_broker"
  "rate_limit_per_second bob_broker \<le> 0"
  using bob_config by (auto simp: client_of_def bob_frame sample_tokens alice_conn_def bob_conn_def config_def
      sample_unlimited)

theorem send_then_receive_witness:
  "\<exists>b1 b2. broker_send (to_broker half_text dead_net no_sleep noon) alice_conn ping ''5.0'' (bob_broker, ()) = (Inr None, (b1, ())) \<and>
    broker_receive (to_broker half_text dead_net no_sleep noon) bob_conn ''bob'' ''25'' ''5.0'' (b1, ()) = (Inr [ping], (b2, ()))"
proof -
  have "length (serialize ping) < 400" by code_simp
  then have "int (length (serialize ping)) \<le> max_body_size bob_broker" by (simp add: bob_frame)
  from send_then_receive[OF sample_clients ping_ok this ping_queues, where ms = "[]" and ft = half_text
      and net = dead_net and sleep = no_sleep and a = noon and a' = noon and s = "()" and w = "''25''"
      and timeout = "''5.0''"]
  show ?thesis by (auto simp: bob_box)
qed

text \<open>
  The registry a client sees through the broker holds exactly the agents of the
  broker: \<open>lookup\<close> succeeds for them and raises \<open>AgentNotFoundError\<close> for every other id,
  as the in-memory registry does, and changes nothing.
\<close>

theorem brokered_lookup_agrees:
  assumes "client_of c who b" "rate_limit_per_second b \<le> 0" "coherent b" "\<And>t. float_lexeme (ft t)"
  shows "case reg_lookup d (registry b) of
      Inr ep \<Rightarrow> brokered_lookup (to_broker ft net sleep a) c d (b, s) = (Inr (placeholder c d), (b, s))
    | Inl e \<Rightarrow> brokered_lookup (to_broker ft net sleep a) c d (b, s) = (Inl e, (b, s))"
  by (auto simp: brokered_lookup_broker[OF assms] reg_lookup_def agents_def get_None_keys dest: get_Some_keys
      split: option.split)

theorem brokered_lookup_agrees_witness:
  "brokered_lookup (to_broker half_text dead_net no_sleep noon) alice_conn ''carol'' (bob_broker, ())
    = (Inl (unknown_agent ''carol''), (bob_broker, ()))"
proof -
  have "float_lexeme (half_text t)" for t unfolding half_text_def by code_simp
  moreover have "reg_lookup ''carol'' (registry bob_broker) = Inl (unknown_agent ''carol'')"
    by (simp add: reg_lookup_def bob_broker_def apply_register_fields reg_gets sample_empty endpoint_of_def bob_args_def)
  ultimately show ?thesis
    using brokered_lookup_agrees[OF sample_clients(1,3) bob_coherent, where ft = half_text and d = "''carol''" and
        net = dead_net and sleep = no_sleep and a = noon and s = "()"]
    by simp
qed

end
