(* ===== verification/Http_Wire.thy ===== *)
theory Http_Wire
  imports Brokered_Props
begin

text \<open>
  Responses as bytes. The handlers of the program write a status line, headers and a body
  (\<open>_write_json\<close>, \<open>_write_serialized\<close>, the bare statuses); \<open>http.client\<close> reads them on the other
  side. The writing is code of the program over \<open>BaseHTTPRequestHandler\<close>; the reading is what
  the standard library does with such a text. The phrases of the status codes and the \<open>Server\<close>
  and \<open>Date\<close> headers are parameters. This justifies \<open>wire\<close>, which takes the answer of the broker
  for what the client reads.
\<close>

section \<open>Writing\<close>

abbreviation crlf :: string where
  "crlf \<equiv> [CHR 0x0D, CHR 0x0A]"

definition header_line :: "string \<times> string \<Rightarrow> string" where
  "header_line h = fst h @ '': '' @ snd h @ crlf"

definition utf8_char :: "char \<Rightarrow> string" where
  "utf8_char c = (let n = ord c in
     if n < 128 then [c] else [char_of (192 + n div 64), char_of (128 + n mod 64)])"

definition utf8_encode :: "string \<Rightarrow> string" where
  "utf8_encode s = concat (map utf8_char s)"

text \<open>\<open>send_response\<close>, \<open>send_header\<close> for each header, \<open>end_headers\<close>, and the body.\<close>

definition write_response ::
  "(int \<Rightarrow> string) \<Rightarrow> (string \<times> string) list \<Rightarrow> int \<Rightarrow> (string \<times> string) list \<Rightarrow> string \<Rightarrow> string" where
  "write_response phrase ident status headers bytes =
     ''HTTP/1.0 '' @ int_str status @ '' '' @ phrase status @ crlf @
     concat (map header_line (ident @ headers)) @ crlf @ bytes"

definition write_serialized ::
  "(int \<Rightarrow> string) \<Rightarrow> (string \<times> string) list \<Rightarrow> int \<Rightarrow> string \<Rightarrow> string \<Rightarrow> string" where
  "write_serialized phrase ident status payload content_type =
     (let bytes = utf8_encode payload
      in write_response phrase ident status
           [(''Content-Type'', content_type), (''Content-Length'', nat_str (length bytes))] bytes)"

definition write_json :: "(int \<Rightarrow> string) \<Rightarrow> (string \<times> string) list \<Rightarrow> int \<Rightarrow> json \<Rightarrow> string" where
  "write_json phrase ident status payload =
     (let bytes = utf8_encode (dumps payload)
      in write_response phrase ident status
           [(''Content-Type'', ''application/json''), (''Content-Length'', nat_str (length bytes))] bytes)"

definition write_rate_limited :: "(int \<Rightarrow> string) \<Rightarrow> (string \<times> string) list \<Rightarrow> string" where
  "write_rate_limited phrase ident =
     (let bytes = utf8_encode (dumps (JDict [(''error'', JStr ''rate limit exceeded''), (''retry_after'', JFloat ''1.0'')]))
      in write_response phrase ident 429
           [(''Content-Type'', ''application/json''), (''Content-Length'', nat_str (length bytes)), (''Retry-After'', ''1'')]
           bytes)"

text \<open>The answers of the broker; a handler that died or still waits has written nothing.\<close>

fun write_answer ::
  "(seconds \<Rightarrow> string) \<Rightarrow> string \<Rightarrow> (int \<Rightarrow> string) \<Rightarrow> (string \<times> string) list \<Rightarrow> answer \<Rightarrow> string" where
  "write_answer ft html phrase ident (Answer status (BJson v)) =
     (if Answer status (BJson v) = rate_limited then write_rate_limited phrase ident
      else write_json phrase ident status v)"
| "write_answer ft html phrase ident (Answer status (BText t)) =
     write_serialized phrase ident status t ''application/json''"
| "write_answer ft html phrase ident (Answer status BHtml) =
     write_serialized phrase ident status html ''text/html; charset=utf-8''"
| "write_answer ft html phrase ident (Answer status BEmpty) = write_response phrase ident status [] []"
| "write_answer ft html phrase ident (Answer status (BAgents es)) =
     write_json phrase ident status (JDict [(''agents'', JList (map (entry_json ft) es))])"
| "write_answer ft html phrase ident (Answer status (BTraffic rs)) =
     write_json phrase ident status (JDict [(''traffic'', JList (map (traffic_json ft) rs))])"
| "write_answer ft html phrase ident ans = []"

section \<open>Reading\<close>

text \<open>\<open>readline\<close>: the line without its line feed, and the rest.\<close>

definition read_line :: "string \<Rightarrow> string \<times> string" where
  "read_line s = (before (CHR 0x0A) s, after (CHR 0x0A) s)"

definition read_status :: "string \<Rightarrow> int option" where
  "read_status line =
     (let version = takeWhile (\<lambda>c. \<not> is_space c) (dropWhile is_space line);
          rest = dropWhile is_space (dropWhile (\<lambda>c. \<not> is_space c) (dropWhile is_space line));
          word = takeWhile (\<lambda>c. \<not> is_space c) rest
      in if word = [] \<or> \<not> starts_with ''HTTP/'' version then None
         else (case py_int word of
           Some n \<Rightarrow> if 100 \<le> n \<and> n \<le> 999 then Some n else None
         | None \<Rightarrow> None))"

text \<open>The header of a line; continuation lines do not occur in what the program writes.\<close>

definition strip_eol :: "string \<Rightarrow> string" where
  "strip_eol s = rev (dropWhile (\<lambda>c. c = CHR 0x0D \<or> c = CHR 0x0A) (rev s))"

definition parse_header :: "string \<Rightarrow> string \<times> string" where
  "parse_header line =
     (py_lower (before (CHR '':'') line),
      strip_eol (dropWhile (\<lambda>c. c = CHR '' '' \<or> c = CHR 0x09) (after (CHR '':'') line)))"

lemma after_shorter: "s \<noteq> [] \<Longrightarrow> length (after c s) < length s"
proof -
  assume "s \<noteq> []"
  have "length (dropWhile (\<lambda>x. x \<noteq> c) s) \<le> length s" by (rule length_dropWhile_le)
  moreover have "0 < length s" using \<open>s \<noteq> []\<close> by simp
  ultimately show ?thesis unfolding after_def length_drop by linarith
qed

function read_headers :: "string \<Rightarrow> (string \<times> string) list \<times> string" where
  "read_headers s = (case read_line s of (line, rest) \<Rightarrow>
     if s = [] \<or> line = [] \<or> line = [CHR 0x0D] then ([], rest)
     else (case read_headers rest of (hs, rest) \<Rightarrow> (parse_header line # hs, rest)))"
  by pat_completeness auto
termination
  by (relation "measure length") (auto simp: read_line_def after_shorter)

declare read_headers.simps [simp del]

text \<open>
  \<open>getresponse\<close> and \<open>read\<close>: with a \<open>Content-Length\<close> so many bytes, otherwise all until the end of
  the connection; a status without a body has none.
\<close>

definition no_body :: "int \<Rightarrow> bool" where
  "no_body status \<longleftrightarrow> status = 204 \<or> status = 304 \<or> (100 \<le> status \<and> status < 200)"

definition read_response :: "string \<Rightarrow> http_outcome" where
  "read_response s = (case read_line s of (line, rest) \<Rightarrow>
     (case read_status line of
        None \<Rightarrow> HttpExc ''BadStatusLine''
      | Some status \<Rightarrow> (case read_headers rest of (hs, bytes) \<Rightarrow>
          if no_body status then HttpReply status []
          else (case Option.bind (map_of hs ''content-length'') py_int of
            None \<Rightarrow> HttpReply status bytes
          | Some n \<Rightarrow>
              if n < 0 then HttpReply status bytes
              else if length bytes < nat n then HttpExc ''IncompleteRead''
              else HttpReply status (take (nat n) bytes)))))"

section \<open>What is written is what is read\<close>

definition plain_text :: "string \<Rightarrow> bool" where
  "plain_text s \<longleftrightarrow> CHR 0x0A \<notin> set s \<and> CHR 0x0D \<notin> set s"

definition plain_header :: "string \<times> string \<Rightarrow> bool" where
  "plain_header h \<longleftrightarrow> fst h \<noteq> [] \<and> CHR '':'' \<notin> set (fst h) \<and> plain_text (fst h) \<and> plain_text (snd h) \<and>
     snd h \<noteq> [] \<and> hd (snd h) \<noteq> CHR '' '' \<and> hd (snd h) \<noteq> CHR 0x09"

lemma read_line_crlf: "CHR 0x0A \<notin> set w \<Longrightarrow> read_line (w @ CHR 0x0D # CHR 0x0A # s) = (w @ [CHR 0x0D], s)"
  by (induction w) (auto simp: read_line_def before_def after_def)

lemma plain_header_name: "fst h \<noteq> [] \<Longrightarrow> plain_text (fst h) \<Longrightarrow> fst h @ x \<noteq> [CHR 0x0D]"
  by (cases "fst h") (auto simp: plain_text_def)

lemma parse_header_line:
  assumes "plain_header h"
  shows "parse_header (fst h @ CHR '':'' # CHR '' '' # snd h @ [CHR 0x0D]) = (py_lower (fst h), snd h)"
proof -
  have name: "before (CHR '':'') (fst h @ CHR '':'' # t) = fst h" "after (CHR '':'') (fst h @ CHR '':'' # t) = t" for t
    using assms by (auto simp: plain_header_def before_def after_def takeWhile_append dropWhile_append)
  obtain c cs where v: "snd h = c # cs" "c \<noteq> CHR '' ''" "c \<noteq> CHR 0x09"
    using assms by (cases "snd h") (auto simp: plain_header_def)
  from v(1) have "snd h \<noteq> []" by simp
  then obtain ys y where y: "snd h = ys @ [y]" using rev_exhaust[of "snd h"] by blast
  then have "y \<noteq> CHR 0x0D \<and> y \<noteq> CHR 0x0A" using assms by (auto simp: plain_header_def plain_text_def)
  then have "strip_eol (snd h @ [CHR 0x0D]) = snd h" by (simp add: strip_eol_def y)
  then show ?thesis using v by (simp add: parse_header_def name)
qed

lemma read_written_headers:
  assumes "\<forall>h \<in> set hs. plain_header h"
  shows "read_headers (concat (map header_line hs) @ crlf @ bytes) = (map (\<lambda>h. (py_lower (fst h), snd h)) hs, bytes)"
  using assms
proof (induction hs)
  case Nil
  then show ?case using read_line_crlf[of "[]" bytes] by (simp add: read_headers.simps)
next
  case (Cons h hs)
  let ?line = "fst h @ CHR '':'' # CHR '' '' # snd h @ [CHR 0x0D]" and ?rest = "concat (map header_line hs) @ crlf @ bytes"
  have h: "plain_header h" using Cons.prems by simp
  then have "CHR 0x0A \<notin> set (fst h @ CHR '':'' # CHR '' '' # snd h)" by (auto simp: plain_header_def plain_text_def)
  from read_line_crlf[OF this, of ?rest]
  have line: "read_line (concat (map header_line (h # hs)) @ crlf @ bytes) = (?line, ?rest)" by (simp add: header_line_def)
  have ne: "?line \<noteq> []" "?line \<noteq> [CHR 0x0D]" "concat (map header_line (h # hs)) @ crlf @ bytes \<noteq> []"
    using h plain_header_name[of h] by (auto simp: plain_header_def)
  show ?case
    unfolding read_headers.simps[of "concat (map header_line (h # hs)) @ crlf @ bytes"] line
    using Cons ne by (simp add: parse_header_line[OF h])
qed

lemma digit_plain: "list_all is_digit s \<Longrightarrow> plain_text s"
  by (auto simp: plain_text_def list_all_iff is_digit_def)

lemma nat_str_header: "plain_header (n, nat_str k) = plain_header (n, ''1'')"
proof -
  obtain c cs where s: "nat_str k = c # cs" using nat_str_nonempty by (cases "nat_str k") auto
  then have "is_digit c" using nat_str_digits[of k] by simp
  then have "c \<noteq> CHR '' ''" "c \<noteq> CHR 0x09" by (auto simp: is_digit_def)
  with s digit_plain[OF nat_str_digits, of k] show ?thesis by (simp add: plain_header_def) (simp add: plain_text_def)
qed

lemma read_status_line:
  assumes "100 \<le> status" "status \<le> 999"
  shows "read_status (''HTTP/1.0 '' @ int_str status @ '' '' @ x) = Some status"
proof -
  have "list_all is_digit (int_str status)" using assms nat_str_digits by (simp add: int_str_def)
  then have d: "\<And>c. c \<in> set (int_str status) \<Longrightarrow> \<not> is_space c" by (auto simp: list_all_iff digit_not_space)
  obtain c cs where s: "int_str status = c # cs" using int_str_start[of status] by (cases "int_str status") auto
  have "takeWhile (\<lambda>c. \<not> is_space c) (dropWhile is_space (int_str status @ CHR '' '' # x)) = int_str status"
    using d s by (auto simp: takeWhile_append is_space_def)
  moreover have "\<not> is_space (CHR ''H'')" "\<not> is_space (CHR ''T'')" "\<not> is_space (CHR ''P'')" "\<not> is_space (CHR ''/'')"
    "\<not> is_space (CHR ''1'')" "\<not> is_space (CHR ''.'')" "\<not> is_space (CHR ''0'')" "is_space (CHR '' '')"
    by (simp_all add: is_space_def)
  ultimately show ?thesis
    using assms s py_int_int_str[of status] by (simp add: read_status_def starts_with_def)
qed

text \<open>A response with a \<open>Content-Length\<close> that tells the length of its body.\<close>

lemma read_written:
  assumes status: "200 \<le> status" "status \<le> 999" "\<not> no_body status" and phrase: "plain_text (phrase status)"
    and ident: "\<forall>h \<in> set ident. plain_header h \<and> py_lower (fst h) \<noteq> ''content-length''"
    and hs: "\<forall>h \<in> set pre. plain_header h \<and> py_lower (fst h) \<noteq> ''content-length''"
    and post: "\<forall>h \<in> set post. plain_header h"
  shows "read_response (write_response phrase ident status
      (pre @ (''Content-Length'', nat_str (length bytes)) # post) bytes) = HttpReply status bytes"
proof -
  let ?hs = "ident @ pre @ (''Content-Length'', nat_str (length bytes)) # post"
  let ?line = "''HTTP/1.0 '' @ int_str status @ '' '' @ phrase status"
  have "list_all visible (int_str status)" by (rule visible_int_str)
  then have lf: "CHR 0x0A \<notin> set ?line"
    using phrase by (auto simp: plain_text_def list_all_iff visible_def)
  have line: "read_line (write_response phrase ident status (pre @ (''Content-Length'', nat_str (length bytes)) # post) bytes)
      = (?line @ [CHR 0x0D], concat (map header_line ?hs) @ crlf @ bytes)"
    using read_line_crlf[OF lf] by (simp add: write_response_def)
  have "plain_header (''Content-Length'', nat_str (length bytes))"
    unfolding nat_str_header by (simp add: plain_header_def plain_text_def)
  then have "\<forall>h \<in> set ?hs. plain_header h" using ident hs post by auto
  note read = read_written_headers[OF this, of bytes]
  have no: "map_of (map (\<lambda>h. (py_lower (fst h), snd h)) ks) ''content-length'' = None"
    if "\<forall>h \<in> set ks. py_lower (fst h) \<noteq> ''content-length''" for ks :: "(string \<times> string) list"
    using that by (induction ks) auto
  have "py_lower ''Content-Length'' = ''content-length''" by code_simp
  then have len: "map_of (map (\<lambda>h. (py_lower (fst h), snd h)) ?hs) ''content-length'' = Some (nat_str (length bytes))"
    using no[of ident] no[of pre] ident hs by (simp add: map_add_def)
  have st: "read_status (?line @ [CHR 0x0D]) = Some status"
    using read_status_line[of status "phrase status @ [CHR 0x0D]"] status(1,2) by simp
  have n: "py_int (nat_str (length bytes)) = Some (int (length bytes))"
    using py_int_int_str[of "int (length bytes)"] by (simp add: int_str_def)
  show ?thesis
    unfolding read_response_def line prod.case st option.case read if_not_P[OF status(3)] len
    by (simp add: n)
qed

text \<open>A response without body headers: the client reads to the end, and there is nothing.\<close>

lemma read_written_empty:
  assumes status: "200 \<le> status" "status \<le> 999" and phrase: "plain_text (phrase status)"
    and ident: "\<forall>h \<in> set ident. plain_header h \<and> py_lower (fst h) \<noteq> ''content-length''"
  shows "read_response (write_response phrase ident status [] []) = HttpReply status []"
proof -
  let ?line = "''HTTP/1.0 '' @ int_str status @ '' '' @ phrase status"
  have "list_all visible (int_str status)" by (rule visible_int_str)
  then have lf: "CHR 0x0A \<notin> set ?line"
    using phrase by (auto simp: plain_text_def list_all_iff visible_def)
  have line: "read_line (write_response phrase ident status [] []) = (?line @ [CHR 0x0D], concat (map header_line ident) @ crlf @ [])"
    using read_line_crlf[OF lf] by (simp add: write_response_def)
  have read: "read_headers (concat (map header_line ident) @ crlf @ []) = (map (\<lambda>h. (py_lower (fst h), snd h)) ident, [])"
    by (rule read_written_headers) (use ident in blast)
  have "map_of (map (\<lambda>h. (py_lower (fst h), snd h)) ident) ''content-length'' = None"
    using ident by (induction ident) auto
  moreover have "read_status (?line @ [CHR 0x0D]) = Some status"
    using read_status_line[of status "phrase status @ [CHR 0x0D]"] status by simp
  ultimately show ?thesis unfolding read_response_def line prod.case read by simp
qed

lemma utf8_roundtrip: "utf8_decode (utf8_encode s) = Some s"
proof (induction s)
  case (Cons c s)
  show ?case
  proof (cases "ord c < 128")
    case True
    then have c: "utf8_encode (c # s) = c # utf8_encode s" by (simp add: utf8_encode_def utf8_char_def)
    show ?thesis unfolding c using Cons True by (cases "utf8_encode s") auto
  next
    case False
    have n: "ord c < 256" by (rule ord_less)
    let ?a = "char_of (192 + ord c div 64) :: char" and ?b = "char_of (128 + ord c mod 64) :: char"
    have "ord c div 64 < 4" using n by (simp add: less_mult_imp_div_less)
    moreover have "2 \<le> ord c div 64" using False by (simp add: le_div_geq)
    ultimately have d: "ord c div 64 = 2 \<or> ord c div 64 = 3" by linarith
    have a: "ord ?a = 192 + ord c div 64" using d by auto
    have b: "ord ?b = 128 + ord c mod 64" by simp
    have "ord c div 64 * 64 + ord c mod 64 = ord c" by simp
    then have "char_of (ord c div 64 * 64 + ord c mod 64) = c" by simp
    moreover have "utf8_encode (c # s) = ?a # ?b # utf8_encode s" using False by (simp add: utf8_encode_def utf8_char_def Let_def)
    ultimately show ?thesis using Cons d by (simp del: of_char_of add: a b)
  qed
qed (simp add: utf8_encode_def)

text \<open>The text of an answer, with the page of the dashboard.\<close>

definition answer_text :: "(seconds \<Rightarrow> string) \<Rightarrow> string \<Rightarrow> body \<Rightarrow> string" where
  "answer_text ft html b = (if b = BHtml then html else body_text ft b)"

lemma read_answer:
  assumes "200 \<le> status" "status \<le> 999" "\<not> no_body status \<or> b = BEmpty"
    and "plain_text (phrase status)"
    and "\<forall>h \<in> set ident. plain_header h \<and> py_lower (fst h) \<noteq> ''content-length''"
  shows "read_response (write_answer ft html phrase ident (Answer status b)) = HttpReply status (utf8_encode (answer_text ft html b))"
proof (cases "b = BEmpty")
  case True
  with read_written_empty[where phrase = phrase, OF assms(1,2,4,5)] show ?thesis by (simp add: answer_text_def utf8_encode_def)
next
  case False
  have type: "\<forall>h \<in> set [(''Content-Type'', t)]. plain_header h \<and> py_lower (fst h) \<noteq> ''content-length''"
    if "t = ''application/json'' \<or> t = ''text/html; charset=utf-8''" for t
    using that by (auto simp: plain_header_def plain_text_def py_lower_def lower_char_def)
  have retry: "\<forall>h \<in> set [(''Retry-After'', ''1'')]. plain_header h" by (simp add: plain_header_def plain_text_def)
  have nb: "\<not> no_body status" using assms(3) False by simp
  note read = read_written[where phrase = phrase, OF assms(1,2) nb assms(4,5) type]
  have json: "read_response (write_json phrase ident status v) = HttpReply status (utf8_encode (dumps v))" for v
    using read[of "''application/json''" "[]"] by (simp add: write_json_def Let_def)
  have serialized: "read_response (write_serialized phrase ident status x t) = HttpReply status (utf8_encode x)"
    if "t = ''application/json'' \<or> t = ''text/html; charset=utf-8''" for x t
    using read[OF that, of "[]"] by (simp add: write_serialized_def Let_def)
  have limited: "read_response (write_rate_limited phrase ident) = HttpReply status (utf8_encode (dumps v))"
    if "Answer status (BJson v) = rate_limited" for v
    using read[OF _ retry, of "''application/json''"] that
    by (simp add: write_rate_limited_def rate_limited_def Let_def del: dumps_with.simps)
  show ?thesis using False by (cases b) (auto simp: json serialized limited answer_text_def simp del: dumps_with.simps)
qed

lemma utf8_encode_ascii: "is_ascii s \<Longrightarrow> utf8_encode s = s"
  by (induction s) (auto simp: utf8_encode_def utf8_char_def)

text \<open>So \<open>wire\<close> is what the client reads, as long as the body is ASCII.\<close>

lemma wire_is_read:
  assumes "200 \<le> status" "status \<le> 999" "\<not> no_body status \<or> b = BEmpty" "plain_text (phrase status)"
    and "\<forall>h \<in> set ident. plain_header h \<and> py_lower (fst h) \<noteq> ''content-length''" "b \<noteq> BHtml" "is_ascii (body_text ft b)"
  shows "read_response (write_answer ft html phrase ident (Answer status b)) = wire ft (Answer status b)"
  using read_answer[where phrase = phrase, OF assms(1-5)] assms(6,7) by (simp add: answer_text_def utf8_encode_ascii)

text \<open>
  Property C25. What the broker writes is what its clients read: from the bytes of an answer the
  client gets the status, and a body that decodes to the text of the answer, whatever it holds.
\<close>

theorem responses_arrive:
  assumes "200 \<le> status" "status \<le> 999" "\<not> no_body status \<or> b = BEmpty"
    and "plain_text (phrase status)"
    and "\<forall>h \<in> set ident. plain_header h \<and> py_lower (fst h) \<noteq> ''content-length''"
  shows "\<exists>data. read_response (write_answer ft html phrase ident (Answer status b)) = HttpReply status data \<and>
    utf8_decode data = Some (answer_text ft html b)"
  using read_answer[where phrase = phrase, OF assms] utf8_roundtrip by blast

definition sample_ident :: "(string \<times> string) list" where
  "sample_ident = [(''Server'', ''BaseHTTP/0.6 Python/3.14''), (''Date'', ''Thu, 01 Jan 2026 12:00:00 GMT'')]"

theorem responses_arrive_witness:
  "\<exists>data. read_response (write_answer (\<lambda>_. ''0.0'') [] (\<lambda>_. ''Unauthorized'') sample_ident (write_error 401 ''invalid token''))
      = HttpReply 401 data \<and> utf8_decode data = Some (dumps (error_payload ''invalid token''))"
proof -
  have "plain_text ''Unauthorized''" by (simp add: plain_text_def)
  moreover have "\<forall>h \<in> set sample_ident. plain_header h \<and> py_lower (fst h) \<noteq> ''content-length''" by code_simp
  ultimately show ?thesis
    using responses_arrive[of 401 "BJson (error_payload ''invalid token'')" "\<lambda>_. ''Unauthorized''" sample_ident "\<lambda>_. ''0.0''" "[]"]
    by (simp add: write_error_def answer_text_def no_body_def del: dumps_with.simps)
qed

end
