(* ===== verification/Dashboard.thy ===== *)
theory Dashboard
  imports Http_Wire
begin

text \<open>
  The monitoring page, \<open>src/robotsix_agent_comm/broker/_dashboard.py\<close>. The module is one string:
  style, markup, and a script that fetches \<open>GET /agents\<close> and \<open>GET /traffic\<close> every four seconds
  and writes tables of what it got into the page. Here is the script, function by function. Page
  text is a list of code points, since the page uses a dash outside the alphabet of \<open>string\<close>.
  What the browser prints for numbers and times is a parameter; the rows that the script gets are
  those of the broker's answers.
\<close>

section \<open>JavaScript\<close>

type_synonym units = "nat list"

definition lit :: "string \<Rightarrow> units" where
  "lit s = map of_char s"

definition dash :: units where
  "dash = [0x2014]"

text \<open>
  The texts of the browser: of a JSON number, of the time of day and the ISO date of a time stamp,
  of the time stamp itself, and the message of a \<open>SyntaxError\<close> of \<open>JSON.parse\<close>.
\<close>

record browser =
  number_text :: "string \<Rightarrow> units"
  clock_text :: "seconds \<Rightarrow> units"
  iso_text :: "seconds \<Rightarrow> units"
  stamp_text :: "seconds \<Rightarrow> units"
  syntax_error :: units

fun js_truthy :: "json \<Rightarrow> bool" where
  "js_truthy (JList vs) = True"
| "js_truthy (JDict kvs) = True"
| "js_truthy v = py_truthy v"

fun join_comma :: "units list \<Rightarrow> units" where
  "join_comma [] = []"
| "join_comma [w] = w"
| "join_comma (w # ws) = w @ lit '','' @ join_comma ws"

text \<open>\<open>String(v)\<close>; in an array \<open>null\<close> is empty.\<close>

fun js_string :: "browser \<Rightarrow> json \<Rightarrow> units" where
  "js_string bw JNull = lit ''null''"
| "js_string bw (JBool b) = lit (if b then ''true'' else ''false'')"
| "js_string bw (JInt n) = number_text bw (int_str n)"
| "js_string bw (JFloat l) = number_text bw l"
| "js_string bw (JStr s) = lit s"
| "js_string bw (JList vs) = join_comma (map (\<lambda>v. if v = JNull then [] else js_string bw v) vs)"
| "js_string bw (JDict kvs) = lit ''[object Object]''"

text \<open>\<open>v || "-"\<close> with the dash, and a value that may be \<open>null\<close>.\<close>

definition or_dash :: "browser \<Rightarrow> json \<Rightarrow> units" where
  "or_dash bw v = (if js_truthy v then js_string bw v else dash)"

definition nullable :: "browser \<Rightarrow> json \<Rightarrow> units option" where
  "nullable bw v = (if v = JNull then None else Some (js_string bw v))"

text \<open>\<open>Object.keys\<close>: the array indices first and in order, then the other keys as inserted.\<close>

definition array_index :: "string \<Rightarrow> bool" where
  "array_index k \<longleftrightarrow> k = nat_str (digits_val k) \<and> digits_val k < 4294967295"

definition object_keys :: "(string \<times> json) list \<Rightarrow> string list" where
  "object_keys kvs = (let ks = map fst kvs
     in sort_key digits_val (filter array_index ks) @ filter (\<lambda>k. \<not> array_index k) ks)"

text \<open>\<open>JSON.parse\<close> refuses the words that Python prints for the special floats.\<close>

fun js_readable :: "json \<Rightarrow> bool" where
  "js_readable (JFloat l) = (l \<notin> {''NaN'', ''Infinity'', ''-Infinity''})"
| "js_readable (JList vs) = list_all js_readable vs"
| "js_readable (JDict kvs) = list_all (\<lambda>kv. js_readable (snd kv)) kvs"
| "js_readable v = True"

section \<open>Escaping\<close>

definition replace_unit :: "char \<Rightarrow> string \<Rightarrow> units \<Rightarrow> units" where
  "replace_unit c t s = concat (map (\<lambda>x. if x = of_char c then lit t else [x]) s)"

definition esc_units :: "units \<Rightarrow> units" where
  "esc_units s = replace_unit (CHR 0x22) ''&quot;'' (replace_unit (CHR ''>'') ''&gt;''
     (replace_unit (CHR ''<'') ''&lt;'' (replace_unit (CHR ''&'') ''&amp;'' s)))"

definition esc :: "units option \<Rightarrow> units" where
  "esc s = (case s of None \<Rightarrow> dash | Some s \<Rightarrow> esc_units s)"

section \<open>The agents table\<close>

definition format_age :: "seconds \<Rightarrow> units" where
  "format_age t =
     (if t < 2 then lit ''just now''
      else if t < 60 then lit (int_str \<lfloor>t\<rfloor> @ ''s ago'')
      else let mins = \<lfloor>t / 60\<rfloor> in
        if mins < 60 then lit (int_str mins @ ''m ago'')
        else lit (int_str (mins div 60) @ ''h ago''))"

definition status_class :: "string \<Rightarrow> string" where
  "status_class st = (if st = ''active'' then ''badge-active'' else if st = ''stale'' then ''badge-stale'' else ''badge-unknown'')"

definition agent_row :: "agent_entry \<Rightarrow> units" where
  "agent_row e =
     (let status = status_text (ae_status e);
          last_seen = (case ae_last_seen e of Some t \<Rightarrow> format_age t | None \<Rightarrow> dash);
          caps = lit (join_with '', '' (object_keys (ae_capabilities e)));
          mailbox = (if ae_mailbox e then lit ''&#x2709; yes'' else lit ''no'')
      in lit ''<tr>'' @
         lit ''<td><strong>'' @ esc (Some (lit (ae_agent_id e))) @ lit ''</strong></td>'' @
         lit ''<td>'' @ mailbox @ lit ''</td>'' @
         lit ''<td><span class=\"badge '' @ lit (status_class status) @ lit ''\">'' @ esc (Some (lit status)) @ lit ''</span></td>'' @
         lit ''<td>'' @ last_seen @ lit ''</td>'' @
         lit ''<td>'' @ esc (Some caps) @ lit ''</td>'' @
         lit ''</tr>'')"

definition render_agents :: "agent_entry list \<Rightarrow> units" where
  "render_agents es =
     (if es = [] then lit ''<tr><td colspan=\"5\" style=\"color:var(--muted)\">No agents registered.</td></tr>''
      else concat (map agent_row es))"

section \<open>The traffic table\<close>

definition traffic_key :: "browser \<Rightarrow> nat \<Rightarrow> traffic_record \<Rightarrow> units" where
  "traffic_key bw i r =
     (if tr_message_id r \<noteq> [] then lit (tr_message_id r)
      else lit ''idx:'' @ lit (nat_str i) @ lit '':'' @ (if tr_timestamp r \<noteq> 0 then stamp_text bw (tr_timestamp r) else []))"

definition kv_cell :: "string \<Rightarrow> units option \<Rightarrow> units" where
  "kv_cell k v =
     (let v = (case v of None \<Rightarrow> dash | Some s \<Rightarrow> if s = [] then dash else s)
      in lit ''<span class=\"kv-k\">'' @ esc (Some (lit k)) @ lit ''</span>'' @
         lit ''<span class=\"kv-v\">'' @ esc (Some v) @ lit ''</span>'')"

definition detail_cells :: "browser \<Rightarrow> traffic_record \<Rightarrow> (string \<times> units option) list" where
  "detail_cells bw r =
     (let known = tr_timestamp r \<noteq> 0;
          iso = (if known then iso_text bw (tr_timestamp r) else dash);
          tstamp = iso @ (if known then lit ''  ('' @ stamp_text bw (tr_timestamp r) @ lit '')'' else [])
      in [(''Message ID'', Some (lit (tr_message_id r))),
          (''Correlation ID'', map_option lit (tr_correlation_id r)),
          (''Source'', nullable bw (tr_source r)),
          (''Destination'', nullable bw (tr_destination r)),
          (''Topic'', nullable bw (tr_topic r)),
          (''Type'', Some (lit (tr_type r))),
          (''Disposition'', Some (lit (disposition_value (tr_disposition r)))),
          (''Status'', Some (number_text bw (int_str (tr_status r)))),
          (''Body size'', Some (number_text bw (nat_str (tr_body_size_bytes r)) @ lit '' bytes'')),
          (''Timestamp'', Some tstamp)])"

definition detail_row :: "browser \<Rightarrow> traffic_record \<Rightarrow> units" where
  "detail_row bw r =
     lit ''<tr class=\"traffic-detail\"><td colspan=\"7\">'' @
     lit ''<div class=\"kv-grid\">'' @ concat (map (\<lambda>(k, v). kv_cell k v) (detail_cells bw r)) @ lit ''</div></td></tr>''"

text \<open>\<open>s.indexOf(p) !== -1\<close>.\<close>

fun occurs :: "string \<Rightarrow> string \<Rightarrow> bool" where
  "occurs p [] \<longleftrightarrow> p = []"
| "occurs p (c # cs) \<longleftrightarrow> starts_with p (c # cs) \<or> occurs p cs"

definition disposition_class :: "traffic_disposition \<Rightarrow> string" where
  "disposition_class d = (let t = disposition_value d in
     if t = ''queued'' then ''badge-queued''
     else if t = ''rejected'' then ''badge-rejected''
     else if t = ''routed'' then ''badge-routed''
     else if t = ''unknown_recipient'' then ''badge-unknown-recipient''
     else if occurs ''error'' t then ''badge-error''
     else ''badge-unknown'')"

definition traffic_row :: "browser \<Rightarrow> (units \<Rightarrow> bool) \<Rightarrow> nat \<Rightarrow> traffic_record \<Rightarrow> units" where
  "traffic_row bw is_open i r =
     (let ts = (if tr_timestamp r \<noteq> 0 then clock_text bw (tr_timestamp r) else dash);
          size = number_text bw (nat_str (tr_body_size_bytes r)) @ lit '' B'';
          key = traffic_key bw i r;
          opn = is_open key
      in lit ''<tr class=\"traffic-row'' @ lit (if opn then '' expanded'' else []) @
         lit ''\" data-key=\"'' @ esc (Some key) @ lit ''\" title=\"Click for details\">'' @
         lit ''<td>'' @ esc (Some ts) @ lit ''</td>'' @
         lit ''<td>'' @ esc (Some (or_dash bw (tr_source r))) @ lit ''</td>'' @
         lit ''<td>'' @ esc (Some (or_dash bw (tr_destination r))) @ lit ''</td>'' @
         lit ''<td>'' @ esc (Some (or_dash bw (tr_topic r))) @ lit ''</td>'' @
         lit ''<td>'' @ esc (Some (or_dash bw (JStr (tr_type r)))) @ lit ''</td>'' @
         lit ''<td>'' @ esc (Some size) @ lit ''</td>'' @
         lit ''<td><span class=\"badge '' @ lit (disposition_class (tr_disposition r)) @ lit ''\">'' @
           esc (Some (lit (disposition_value (tr_disposition r)))) @ lit ''</span></td>'' @
         lit ''</tr>'' @
         (if opn then detail_row bw r else []))"

definition traffic_rows :: "browser \<Rightarrow> (units \<Rightarrow> bool) \<Rightarrow> traffic_record list \<Rightarrow> units" where
  "traffic_rows bw is_open rs =
     (if rs = [] then lit ''<tr><td colspan=\"7\" style=\"color:var(--muted)\">No traffic recorded yet.</td></tr>''
      else concat (map (\<lambda>(i, r). traffic_row bw is_open i r) (enumerate 0 rs)))"

section \<open>The page\<close>

text \<open>
  The rows that are open are the keys of a plain object, which also answers to the names of the
  properties that every object inherits; these can neither be set nor deleted on it.
\<close>

definition object_prototype :: "string list" where
  "object_prototype =
     [''constructor'', ''__proto__'', ''hasOwnProperty'', ''isPrototypeOf'', ''propertyIsEnumerable'', ''toLocaleString'',
      ''toString'', ''valueOf'', ''__defineGetter__'', ''__defineSetter__'', ''__lookupGetter__'', ''__lookupSetter__'']"

record page =
  expanded_traffic :: "units list"
  last_traffic :: "traffic_record list option"
  agents_tbody :: units
  traffic_tbody :: units
  error_banner :: "units option"

definition blank_page :: page where
  "blank_page = \<lparr>expanded_traffic = [], last_traffic = None, agents_tbody = [], traffic_tbody = [], error_banner = None\<rparr>"

definition expanded :: "page \<Rightarrow> units \<Rightarrow> bool" where
  "expanded pg key \<longleftrightarrow> key \<in> set (expanded_traffic pg) \<or> key \<in> lit ` set object_prototype"

definition show_error :: "units \<Rightarrow> page \<Rightarrow> page" where
  "show_error msg pg = pg\<lparr>error_banner := Some msg\<rparr>"

definition render_traffic :: "browser \<Rightarrow> traffic_record list \<Rightarrow> page \<Rightarrow> page" where
  "render_traffic bw rs pg = pg\<lparr>last_traffic := Some rs, traffic_tbody := traffic_rows bw (expanded pg) rs\<rparr>"

text \<open>A click on a row, whose key is read from its \<open>data-key\<close> attribute.\<close>

definition click_row :: "browser \<Rightarrow> units \<Rightarrow> page \<Rightarrow> page" where
  "click_row bw key pg =
     (let pg = (if expanded pg key then pg\<lparr>expanded_traffic := removeAll key (expanded_traffic pg)\<rparr>
                else pg\<lparr>expanded_traffic := key # expanded_traffic pg\<rparr>)
      in case last_traffic pg of Some rs \<Rightarrow> render_traffic bw rs pg | None \<Rightarrow> pg)"

section \<open>Requests\<close>

text \<open>\<open>URLSearchParams\<close> writes a form: the safe characters, a plus for a space, else UTF-8 escapes.\<close>

definition form_safe :: "char \<Rightarrow> bool" where
  "form_safe c = (let n = ord c in (48 \<le> n \<and> n \<le> 57) \<or> (65 \<le> n \<and> n \<le> 90) \<or> (97 \<le> n \<and> n \<le> 122) \<or>
     c = CHR ''*'' \<or> c = CHR ''-'' \<or> c = CHR ''.'' \<or> c = CHR ''_'')"

definition form_char :: "char \<Rightarrow> string" where
  "form_char c = (let n = ord c in
     if form_safe c then [c]
     else if c = CHR '' '' then ''+''
     else if n < 128 then percent n
     else percent (192 + n div 64) @ percent (128 + n mod 64))"

definition form_field :: "string \<times> string \<Rightarrow> string" where
  "form_field kv = concat (map form_char (fst kv)) @ ''='' @ concat (map form_char (snd kv))"

definition auth_url :: "string \<Rightarrow> string \<Rightarrow> (string \<times> string) list \<Rightarrow> string" where
  "auth_url token path params =
     (let fields = (if token \<noteq> [] then [(''token'', token)] else []) @ filter (\<lambda>kv. snd kv \<noteq> []) params
      in if fields = [] then path else path @ ''?'' @ join_with ''&'' (map form_field fields))"

text \<open>\<open>x.toFixed(3)\<close> of a moderate number; the digits round to the nearest, ties upwards.\<close>

definition to_fixed3 :: "rat \<Rightarrow> string" where
  "to_fixed3 x =
     (let n = nat \<lfloor>\<bar>x\<bar> * 1000 + 1 / 2\<rfloor>; frac = nat_str (n mod 1000)
      in (if x < 0 then ''-'' else []) @ nat_str (n div 1000) @ ''.'' @ replicate (3 - length frac) (CHR ''0'') @ frac)"

definition js_space :: "char \<Rightarrow> bool" where
  "js_space c \<longleftrightarrow> ord c \<in> {9, 10, 11, 12, 13, 32, 160}"

definition js_trim :: "string \<Rightarrow> string" where
  "js_trim s = rev (dropWhile js_space (rev (dropWhile js_space s)))"

text \<open>
  The request for the traffic: the two filter fields, and the minutes of the selected time window
  (\<open>None\<close> for all), with \<open>now = Date.now() / 1000\<close>.
\<close>

definition traffic_target :: "string \<Rightarrow> string \<Rightarrow> string \<Rightarrow> nat option \<Rightarrow> seconds \<Rightarrow> string" where
  "traffic_target token agent topic window now =
     auth_url token ''/traffic''
       [(''agent'', js_trim agent), (''topic'', js_trim topic),
        (''since'', (case window of None \<Rightarrow> [] | Some m \<Rightarrow> to_fixed3 (now - of_nat m * 60)))]"

definition agents_target :: "string \<Rightarrow> string" where
  "agents_target token = auth_url token ''/agents'' []"

section \<open>Answers\<close>

text \<open>
  What a fetch ends with: an exception, a status that is not OK with the text, or the data. The two
  routes answer 200 with no other body than theirs; of another object the script takes no rows.
\<close>

datatype 'r fetch_result = Failed units | Refused int units | Data "'r list"

fun agents_of :: "browser \<Rightarrow> (seconds \<Rightarrow> string) \<Rightarrow> answer \<Rightarrow> agent_entry fetch_result" where
  "agents_of bw ft (Answer status b) =
     (if \<not> (200 \<le> status \<and> status < 300) then Refused status (lit (body_text ft b))
      else (case b of
        BAgents es \<Rightarrow> if list_all (\<lambda>e. js_readable (entry_json ft e)) es then Data es else Failed (syntax_error bw)
      | _ \<Rightarrow> Data []))"
| "agents_of bw ft ans = Failed (lit ''Failed to fetch'')"

fun traffic_of :: "browser \<Rightarrow> (seconds \<Rightarrow> string) \<Rightarrow> answer \<Rightarrow> traffic_record fetch_result" where
  "traffic_of bw ft (Answer status b) =
     (if \<not> (200 \<le> status \<and> status < 300) then Refused status (lit (body_text ft b))
      else (case b of
        BTraffic rs \<Rightarrow> if list_all (\<lambda>r. js_readable (traffic_json ft r)) rs then Data rs else Failed (syntax_error bw)
      | _ \<Rightarrow> Data []))"
| "traffic_of bw ft ans = Failed (lit ''Failed to fetch'')"

definition load_agents :: "browser \<Rightarrow> agent_entry fetch_result \<Rightarrow> page \<Rightarrow> page" where
  "load_agents bw r pg = (case r of
     Failed msg \<Rightarrow> show_error (lit ''Failed to fetch /agents: '' @ msg) pg
   | Refused status msg \<Rightarrow> show_error (lit ''GET /agents returned '' @ number_text bw (int_str status) @ lit '': '' @ msg) pg
   | Data es \<Rightarrow> pg\<lparr>agents_tbody := render_agents es\<rparr>)"

definition load_traffic :: "browser \<Rightarrow> traffic_record fetch_result \<Rightarrow> page \<Rightarrow> page" where
  "load_traffic bw r pg = (case r of
     Failed msg \<Rightarrow> show_error (lit ''Failed to fetch /traffic: '' @ msg) pg
   | Refused status msg \<Rightarrow> show_error (lit ''GET /traffic returned '' @ number_text bw (int_str status) @ lit '': '' @ msg) pg
   | Data rs \<Rightarrow> render_traffic bw rs pg)"

end
