(* ===== verification/Dashboard_Markup.thy ===== *)
theory Dashboard_Markup
  imports Dashboard
begin

text \<open>
  What the browser makes of the tables. \<open>innerHTML\<close> is read back as a sequence of tags and texts:
  the reader covers the markup that the page writes, tags with quoted attributes and the
  character references of \<open>esc\<close>. Whatever the agents are called and the messages say, the
  tables read as the tags of the script with the data as text in between.
\<close>

section \<open>Reading\<close>

datatype markup = Tag units | Text units

text \<open>A tag ends at the first \<open>>\<close> outside double quotes.\<close>

fun take_tag :: "bool \<Rightarrow> units \<Rightarrow> units \<times> units" where
  "take_tag q [] = ([], [])"
| "take_tag q (c # cs) =
     (if c = 62 \<and> \<not> q then ([], cs)
      else (case take_tag (if c = 34 then \<not> q else q) cs of (t, rest) \<Rightarrow> (c # t, rest)))"

definition references :: "(units \<times> nat) list" where
  "references = [(lit ''amp;'', 38), (lit ''lt;'', 60), (lit ''gt;'', 62), (lit ''quot;'', 34), (lit ''#x2709;'', 0x2709)]"

function decode :: "units \<Rightarrow> units" where
  "decode [] = []"
| "decode (c # cs) =
     (case (if c = 38 then List.find (\<lambda>r. take (length (fst r)) cs = fst r) references else None) of
        None \<Rightarrow> c # decode cs
      | Some (w, n) \<Rightarrow> n # decode (drop (length w) cs))"
  by pat_completeness auto
termination by (relation "measure length") (auto simp: le_imp_less_Suc)

lemma take_tag_length: "length (snd (take_tag q s)) \<le> length s"
  by (induction q s rule: take_tag.induct) (auto split: prod.splits)

function read_html :: "units \<Rightarrow> markup list" where
  "read_html [] = []"
| "read_html (c # cs) =
     (if c = 60 then Tag (fst (take_tag False cs)) # read_html (snd (take_tag False cs))
      else Text (decode (c # takeWhile (\<lambda>x. x \<noteq> 60) cs)) # read_html (dropWhile (\<lambda>x. x \<noteq> 60) cs))"
  by pat_completeness auto
termination
  by (relation "measure length") (auto simp: le_imp_less_Suc take_tag_length length_dropWhile_le)

section \<open>Escaped text\<close>

definition esc_unit :: "nat \<Rightarrow> units" where
  "esc_unit x = (if x = 38 then lit ''&amp;'' else if x = 60 then lit ''&lt;'' else if x = 62 then lit ''&gt;''
     else if x = 34 then lit ''&quot;'' else [x])"

lemma replace_append: "replace_unit c t (s1 @ s2) = replace_unit c t s1 @ replace_unit c t s2"
  by (simp add: replace_unit_def)

text \<open>The four replacements, one after the other, do one pass over the text.\<close>

lemma esc_units_pass: "esc_units s = concat (map esc_unit s)"
proof (induction s)
  case (Cons x s)
  have "esc_units (x # s) = esc_units [x] @ esc_units s"
    unfolding esc_units_def append_Cons[symmetric, of x "[]" s, simplified append_Nil]
    by (simp only: replace_append append_Cons[of x "[]" s, simplified append_Nil, symmetric])
  moreover have "esc_units [x] = esc_unit x"
    by (auto simp: esc_units_def replace_unit_def esc_unit_def lit_def)
  ultimately show ?case using Cons by simp
qed (simp add: esc_units_def replace_unit_def)

lemma esc_units_safe: "60 \<notin> set (esc_units s)" "62 \<notin> set (esc_units s)" "34 \<notin> set (esc_units s)"
  by (auto simp: esc_units_pass esc_unit_def lit_def)

lemma esc_units_empty [simp]: "esc_units s = [] \<longleftrightarrow> s = []"
  by (cases s) (auto simp: esc_units_pass esc_unit_def lit_def)

lemma decode_esc: "decode (esc_units s @ t) = s @ decode t"
proof (induction s)
  case (Cons x s)
  have "decode (esc_unit x @ r) = x # decode r" for r
    by (auto simp: esc_unit_def lit_def references_def)
  with Cons show ?case by (simp add: esc_units_pass)
qed (simp add: esc_units_pass)

lemma decode_plain: "38 \<notin> set s \<Longrightarrow> decode s = s"
  by (induction s) auto

section \<open>Pieces\<close>

text \<open>The tables are written piece by piece: tags, and texts between them.\<close>

datatype piece = T units | X units

fun emit :: "piece \<Rightarrow> units" where
  "emit (T t) = 60 # t @ [62]"
| "emit (X x) = x"

fun reading :: "piece \<Rightarrow> markup list" where
  "reading (T t) = [Tag t]"
| "reading (X x) = (if x = [] then [] else [Text (decode x)])"

definition emit_all :: "piece list \<Rightarrow> units" where
  "emit_all ps = concat (map emit ps)"

definition plain_tag :: "units \<Rightarrow> bool" where
  "plain_tag t \<longleftrightarrow> 62 \<notin> set t \<and> even (count_list t 34)"

fun proper :: "piece list \<Rightarrow> bool" where
  "proper [] = True"
| "proper (T t # ps) = (plain_tag t \<and> proper ps)"
| "proper [X x] = False"
| "proper (X x # X y # ps) = False"
| "proper (X x # T t # ps) = (60 \<notin> set x \<and> plain_tag t \<and> proper ps)"

lemma take_tag_plain: "62 \<notin> set t \<Longrightarrow> q \<longleftrightarrow> odd (count_list t 34) \<Longrightarrow> take_tag q (t @ 62 # rest) = (t, rest)"
  by (induction t arbitrary: q) auto

lemma read_tag: "plain_tag t \<Longrightarrow> read_html (60 # t @ 62 # rest) = Tag t # read_html rest"
  using take_tag_plain[of t False rest] by (simp add: plain_tag_def)

lemma read_text:
  assumes "60 \<notin> set x"
  shows "read_html (x @ 60 # rest) = reading (X x) @ read_html (60 # rest)"
proof (cases x)
  case (Cons c cs)
  then have "takeWhile (\<lambda>x. x \<noteq> 60) (cs @ 60 # rest) = cs" "dropWhile (\<lambda>x. x \<noteq> 60) (cs @ 60 # rest) = 60 # rest"
    using assms by (auto simp: takeWhile_append dropWhile_append)
  then show ?thesis using assms Cons by (simp del: decode.simps)
qed simp

lemma read_pieces: "proper ps \<Longrightarrow> read_html (emit_all ps @ rest) = concat (map reading ps) @ read_html rest"
proof (induction ps rule: proper.induct)
  case (2 t ps)
  then show ?case using read_tag[of t "emit_all ps @ rest"] by (simp add: emit_all_def)
next
  case (5 x t ps)
  then show ?case
    using read_text[of x "t @ 62 # emit_all ps @ rest"] read_tag[of t "emit_all ps @ rest"]
    by (simp add: emit_all_def del: read_html.simps reading.simps(2))
qed (simp_all add: emit_all_def)

lemma proper_append: "proper ps \<Longrightarrow> proper qs \<Longrightarrow> proper (ps @ qs)"
  by (induction ps rule: proper.induct) simp_all

lemma emit_simps: "emit_all [] = []" "emit_all (p # ps) = emit p @ emit_all ps"
  by (simp_all add: emit_all_def)

section \<open>The tables\<close>

definition shown :: "units \<Rightarrow> markup list" where
  "shown s = (if s = [] then [] else [Text s])"

abbreviation tag :: "string \<Rightarrow> markup" where
  "tag s \<equiv> Tag (lit s)"

definition cell :: "units \<Rightarrow> markup list" where
  "cell s = tag ''td'' # shown s @ [tag ''/td'']"

definition badge :: "string \<Rightarrow> string \<Rightarrow> markup list" where
  "badge cls s = [tag ''td'', tag (''span class=\"badge '' @ cls @ ''\"'')] @ shown (lit s) @ [tag ''/span'', tag ''/td'']"

text \<open>What a row of the agents table should read as.\<close>

definition agent_markup :: "agent_entry \<Rightarrow> markup list" where
  "agent_markup e =
     [tag ''tr'', tag ''td'', tag ''strong''] @ shown (lit (ae_agent_id e)) @ [tag ''/strong'', tag ''/td''] @
     cell (if ae_mailbox e then 0x2709 # lit '' yes'' else lit ''no'') @
     badge (status_class (status_text (ae_status e))) (status_text (ae_status e)) @
     cell (case ae_last_seen e of Some t \<Rightarrow> format_age t | None \<Rightarrow> dash) @
     cell (lit (join_with '', '' (object_keys (ae_capabilities e)))) @
     [tag ''/tr'']"

text \<open>And a row of the traffic table, with the details below it when it is open.\<close>

definition detail_markup :: "browser \<Rightarrow> traffic_record \<Rightarrow> markup list" where
  "detail_markup bw r =
     [tag ''tr class=\"traffic-detail\"'', tag ''td colspan=\"7\"'', tag ''div class=\"kv-grid\"''] @
     concat (map (\<lambda>(k, v).
       [tag ''span class=\"kv-k\"''] @ shown (lit k) @ [tag ''/span'', tag ''span class=\"kv-v\"''] @
       [Text (case v of None \<Rightarrow> dash | Some s \<Rightarrow> if s = [] then dash else s)] @ [tag ''/span'']) (detail_cells bw r)) @
     [tag ''/div'', tag ''/td'', tag ''/tr'']"

definition traffic_markup :: "browser \<Rightarrow> (units \<Rightarrow> bool) \<Rightarrow> nat \<Rightarrow> traffic_record \<Rightarrow> markup list" where
  "traffic_markup bw is_open i r =
     (let key = traffic_key bw i r; opn = is_open key
      in [Tag (lit ''tr class=\"traffic-row'' @ lit (if opn then '' expanded'' else []) @ lit ''\" data-key=\"'' @ esc_units key @
            lit ''\" title=\"Click for details\"'')] @
         cell (if tr_timestamp r \<noteq> 0 then clock_text bw (tr_timestamp r) else dash) @
         cell (or_dash bw (tr_source r)) @ cell (or_dash bw (tr_destination r)) @ cell (or_dash bw (tr_topic r)) @
         cell (or_dash bw (JStr (tr_type r))) @ cell (number_text bw (nat_str (tr_body_size_bytes r)) @ lit '' B'') @
         badge (disposition_class (tr_disposition r)) (disposition_value (tr_disposition r)) @ [tag ''/tr''] @
         (if opn then detail_markup bw r else []))"

text \<open>The same rows as pieces.\<close>

definition cell_pieces :: "units \<Rightarrow> piece list" where
  "cell_pieces x = [T (lit ''td''), X x, T (lit ''/td'')]"

definition badge_pieces :: "string \<Rightarrow> units \<Rightarrow> piece list" where
  "badge_pieces cls x = [T (lit ''td''), T (lit (''span class=\"badge '' @ cls @ ''\"'')), X x, T (lit ''/span''), T (lit ''/td'')]"

lemma lit_simps: "lit [] = []" "lit (c # cs) = of_char c # lit cs" "lit (s @ t) = lit s @ lit t"
  by (simp_all add: lit_def)

lemma emit_cell: "lit ''<td>'' @ x @ lit ''</td>'' = emit_all (cell_pieces x)"
  by (simp add: emit_simps cell_pieces_def lit_simps)

lemma emit_badge: "lit ''<td><span class=\"badge '' @ lit cls @ lit ''\">'' @ x @ lit ''</span></td>'' = emit_all (badge_pieces cls x)"
  by (simp add: emit_simps badge_pieces_def lit_simps)

lemma plain_tags [simp]: "plain_tag (lit ''td'')" "plain_tag (lit ''/td'')" "plain_tag (lit ''tr'')" "plain_tag (lit ''/tr'')"
  "plain_tag (lit ''strong'')" "plain_tag (lit ''/strong'')" "plain_tag (lit ''/span'')" "plain_tag (lit ''/div'')"
  "plain_tag (lit ''span class=\"kv-k\"'')" "plain_tag (lit ''span class=\"kv-v\"'')" "plain_tag (lit ''div class=\"kv-grid\"'')"
  "plain_tag (lit ''tr class=\"traffic-detail\"'')" "plain_tag (lit ''td colspan=\"7\"'')"
  by (simp_all add: plain_tag_def lit_simps)

lemma cell_proper: "60 \<notin> set x \<Longrightarrow> proper (cell_pieces x)"
  by (simp add: cell_pieces_def)

lemma badge_proper: "60 \<notin> set x \<Longrightarrow> 62 \<notin> set (lit cls) \<Longrightarrow> 34 \<notin> set (lit cls) \<Longrightarrow> proper (badge_pieces cls x)"
  by (simp add: badge_pieces_def plain_tag_def lit_simps)

lemma decode_escaped [simp]: "decode (esc_units s) = s"
  using decode_esc[of s "[]"] by simp

lemma reading_escaped: "reading (X (esc_units s)) = shown s"
  by (simp add: shown_def)

lemma reading_plain: "38 \<notin> set s \<Longrightarrow> reading (X s) = shown s"
  by (simp add: shown_def decode_plain)

lemma cell_reads: "concat (map reading (cell_pieces x)) = tag ''td'' # reading (X x) @ [tag ''/td'']"
  by (simp add: cell_pieces_def)

lemma badge_reads: "concat (map reading (badge_pieces cls (esc_units (lit s)))) = badge cls s"
  by (simp add: badge_pieces_def badge_def reading_escaped del: reading.simps(2))

lemmas pieces_read = cell_reads badge_reads reading_escaped

lemma emit_append: "emit_all (ps @ qs) = emit_all ps @ emit_all qs"
  by (simp add: emit_all_def)

definition mailbox_piece :: "agent_entry \<Rightarrow> units" where
  "mailbox_piece e = (if ae_mailbox e then lit ''&#x2709; yes'' else lit ''no'')"

definition agent_pieces :: "agent_entry \<Rightarrow> piece list" where
  "agent_pieces e =
     [T (lit ''tr''), T (lit ''td''), T (lit ''strong''), X (esc_units (lit (ae_agent_id e))), T (lit ''/strong''), T (lit ''/td'')] @
     cell_pieces (mailbox_piece e) @
     badge_pieces (status_class (status_text (ae_status e))) (esc_units (lit (status_text (ae_status e)))) @
     cell_pieces (case ae_last_seen e of Some t \<Rightarrow> format_age t | None \<Rightarrow> dash) @
     cell_pieces (esc_units (lit (join_with '', '' (object_keys (ae_capabilities e))))) @
     [T (lit ''/tr'')]"

lemma agent_row_pieces: "agent_row e = emit_all (agent_pieces e)"
proof -
  have head: "lit ''<tr>'' @ lit ''<td><strong>'' @ x @ lit ''</strong></td>'' =
      emit_all [T (lit ''tr''), T (lit ''td''), T (lit ''strong''), X x, T (lit ''/strong''), T (lit ''/td'')]" for x
    by (simp add: emit_simps lit_simps)
  have tail: "lit ''</tr>'' = emit_all [T (lit ''/tr'')]" by (simp add: emit_simps lit_simps)
  have whole: "agent_row e =
      (lit ''<tr>'' @ lit ''<td><strong>'' @ esc_units (lit (ae_agent_id e)) @ lit ''</strong></td>'') @
      (lit ''<td>'' @ mailbox_piece e @ lit ''</td>'') @
      (lit ''<td><span class=\"badge '' @ lit (status_class (status_text (ae_status e))) @ lit ''\">'' @
        esc_units (lit (status_text (ae_status e))) @ lit ''</span></td>'') @
      (lit ''<td>'' @ (case ae_last_seen e of Some t \<Rightarrow> format_age t | None \<Rightarrow> dash) @ lit ''</td>'') @
      (lit ''<td>'' @ esc_units (lit (join_with '', '' (object_keys (ae_capabilities e)))) @ lit ''</td>'') @ lit ''</tr>''"
    by (simp only: agent_row_def Let_def esc_def option.case mailbox_piece_def append_assoc)
  show ?thesis unfolding whole emit_cell emit_badge head tail agent_pieces_def emit_append ..
qed

lemma lit_mem: "n \<in> set (lit s) \<Longrightarrow> char_of n \<in> set s"
  by (auto simp: lit_def)

lemma format_age_plain: "38 \<notin> set (format_age t)" "60 \<notin> set (format_age t)"
proof -
  have "c \<notin> set (int_str i)" if "\<not> is_digit c" "c \<noteq> CHR ''-''" for c i
    using that nat_str_digits[of "nat i"] nat_str_digits[of "nat (- i)"] by (auto simp: int_str_def list_all_iff)
  moreover have chars: "char_of (38 :: nat) = CHR ''&''" "char_of (60 :: nat) = CHR ''<''" by code_simp+
  ultimately have "CHR ''&'' \<notin> set (int_str i)" "CHR ''<'' \<notin> set (int_str i)" for i
    by (simp_all add: is_digit_def)
  then have "38 \<notin> set (lit (int_str i))" "60 \<notin> set (lit (int_str i))" for i
    using lit_mem[of 38 "int_str i"] lit_mem[of 60 "int_str i"] unfolding chars by auto
  then show "38 \<notin> set (format_age t)" "60 \<notin> set (format_age t)"
    by (simp_all add: format_age_def Let_def lit_simps)
qed

lemma agent_row_reads: "read_html (agent_row e @ rest) = agent_markup e @ read_html rest"
proof -
  let ?seen = "case ae_last_seen e of Some t \<Rightarrow> format_age t | None \<Rightarrow> dash"
  have seen: "38 \<notin> set ?seen" "60 \<notin> set ?seen"
    by (simp_all add: format_age_plain dash_def split: option.split)
  have mail: "60 \<notin> set (mailbox_piece e)" by (simp add: mailbox_piece_def lit_simps)
  have cls: "62 \<notin> set (lit (status_class st))" "34 \<notin> set (lit (status_class st))" for st
    by (simp_all add: status_class_def lit_simps)
  have "proper (agent_pieces e)"
    unfolding agent_pieces_def
    by (intro proper_append cell_proper badge_proper esc_units_safe seen mail cls) (simp_all add: esc_units_safe)
  moreover have "concat (map reading (agent_pieces e)) = agent_markup e"
  proof -
    have "reading (X (mailbox_piece e)) = shown (if ae_mailbox e then 0x2709 # lit '' yes'' else lit ''no'')"
      by (simp add: mailbox_piece_def shown_def lit_simps references_def)
    then show ?thesis
      by (simp add: agent_pieces_def agent_markup_def pieces_read cell_def reading_plain[OF seen(1)] del: reading.simps(2))
  qed
  ultimately show ?thesis using read_pieces unfolding agent_row_pieces by simp
qed

lemma rows_read:
  assumes "\<And>x rest. x \<in> set xs \<Longrightarrow> read_html (row x @ rest) = marks x @ read_html rest"
  shows "read_html (concat (map row xs)) = concat (map marks xs)"
  using assms by (induction xs) simp_all

text \<open>The details of an open row.\<close>

definition kv_pieces :: "string \<times> units option \<Rightarrow> piece list" where
  "kv_pieces kv =
     [T (lit ''span class=\"kv-k\"''), X (esc_units (lit (fst kv))), T (lit ''/span''), T (lit ''span class=\"kv-v\"''),
      X (esc_units (case snd kv of None \<Rightarrow> dash | Some s \<Rightarrow> if s = [] then dash else s)), T (lit ''/span'')]"

definition detail_pieces :: "browser \<Rightarrow> traffic_record \<Rightarrow> piece list" where
  "detail_pieces bw r =
     [T (lit ''tr class=\"traffic-detail\"''), T (lit ''td colspan=\"7\"''), T (lit ''div class=\"kv-grid\"'')] @
     concat (map kv_pieces (detail_cells bw r)) @ [T (lit ''/div''), T (lit ''/td''), T (lit ''/tr'')]"

lemma kv_cell_pieces: "kv_cell k v = emit_all (kv_pieces (k, v))"
proof -
  have "lit ''<span class=\"kv-k\">'' @ x @ lit ''</span>'' @ lit ''<span class=\"kv-v\">'' @ y @ lit ''</span>'' =
    emit_all [T (lit ''span class=\"kv-k\"''), X x, T (lit ''/span''), T (lit ''span class=\"kv-v\"''), X y, T (lit ''/span'')]"
    for x y
    by (simp add: emit_simps lit_simps)
  then show ?thesis by (simp only: kv_cell_def kv_pieces_def Let_def esc_def option.case fst_conv snd_conv)
qed

lemma emit_concat: "emit_all (concat pss) = concat (map emit_all pss)"
  by (induction pss) (simp_all add: emit_append emit_simps)

lemma detail_row_pieces: "detail_row bw r = emit_all (detail_pieces bw r)"
proof -
  have head: "lit ''<tr class=\"traffic-detail\"><td colspan=\"7\">'' @ lit ''<div class=\"kv-grid\">'' =
      emit_all [T (lit ''tr class=\"traffic-detail\"''), T (lit ''td colspan=\"7\"''), T (lit ''div class=\"kv-grid\"'')]"
    by (simp add: emit_simps lit_simps)
  have tail: "lit ''</div></td></tr>'' = emit_all [T (lit ''/div''), T (lit ''/td''), T (lit ''/tr'')]"
    by (simp add: emit_simps lit_simps)
  have "concat (map (\<lambda>(k, v). kv_cell k v) kvs) = emit_all (concat (map kv_pieces kvs))" for kvs
    by (induction kvs) (auto simp: kv_cell_pieces emit_append emit_simps)
  then show ?thesis unfolding detail_row_def detail_pieces_def emit_append append_assoc[symmetric] head tail by simp
qed

lemma detail_proper: "proper (detail_pieces bw r)"
proof -
  have "proper (kv_pieces kv)" for kv by (simp add: kv_pieces_def esc_units_safe)
  then have "proper (concat (map kv_pieces kvs))" for kvs by (induction kvs) (simp_all add: proper_append)
  then show ?thesis unfolding detail_pieces_def by (intro proper_append) simp_all
qed

lemma detail_reads: "concat (map reading (detail_pieces bw r)) = detail_markup bw r"
proof -
  have kv: "concat (map reading (kv_pieces kv)) =
      [tag ''span class=\"kv-k\"''] @ shown (lit (fst kv)) @ [tag ''/span'', tag ''span class=\"kv-v\"''] @
      [Text (case snd kv of None \<Rightarrow> dash | Some s \<Rightarrow> if s = [] then dash else s)] @ [tag ''/span'']" for kv
    by (auto simp: kv_pieces_def shown_def dash_def split: option.split)
  have "concat (map reading (concat (map kv_pieces kvs))) = concat (map (\<lambda>(k, v).
       [tag ''span class=\"kv-k\"''] @ shown (lit k) @ [tag ''/span'', tag ''span class=\"kv-v\"''] @
       [Text (case v of None \<Rightarrow> dash | Some s \<Rightarrow> if s = [] then dash else s)] @ [tag ''/span'']) kvs)" for kvs
    by (induction kvs) (simp_all add: kv split_beta)
  then show ?thesis by (simp add: detail_pieces_def detail_markup_def)
qed

text \<open>The row of a message.\<close>

definition row_tag :: "units \<Rightarrow> bool \<Rightarrow> units" where
  "row_tag key opn = lit ''tr class=\"traffic-row'' @ lit (if opn then '' expanded'' else []) @ lit ''\" data-key=\"'' @ esc_units key @
     lit ''\" title=\"Click for details\"''"

lemma row_tag_plain: "plain_tag (row_tag key opn)"
  using esc_units_safe[of key] by (simp add: row_tag_def plain_tag_def lit_simps count_notin)

definition traffic_pieces :: "browser \<Rightarrow> (units \<Rightarrow> bool) \<Rightarrow> nat \<Rightarrow> traffic_record \<Rightarrow> piece list" where
  "traffic_pieces bw is_open i r =
     [T (row_tag (traffic_key bw i r) (is_open (traffic_key bw i r)))] @
     cell_pieces (esc_units (if tr_timestamp r \<noteq> 0 then clock_text bw (tr_timestamp r) else dash)) @
     cell_pieces (esc_units (or_dash bw (tr_source r))) @ cell_pieces (esc_units (or_dash bw (tr_destination r))) @
     cell_pieces (esc_units (or_dash bw (tr_topic r))) @ cell_pieces (esc_units (or_dash bw (JStr (tr_type r)))) @
     cell_pieces (esc_units (number_text bw (nat_str (tr_body_size_bytes r)) @ lit '' B'')) @
     badge_pieces (disposition_class (tr_disposition r)) (esc_units (lit (disposition_value (tr_disposition r)))) @
     [T (lit ''/tr'')] @ (if is_open (traffic_key bw i r) then detail_pieces bw r else [])"

lemma traffic_row_pieces: "traffic_row bw is_open i r = emit_all (traffic_pieces bw is_open i r)"
proof -
  let ?key = "traffic_key bw i r"
  have row: "lit ''<tr class=\"traffic-row'' @ lit (if opn then '' expanded'' else []) @ lit ''\" data-key=\"'' @ esc_units key @
      lit ''\" title=\"Click for details\">'' @ s = emit_all [T (row_tag key opn)] @ s" for key opn s
    by (simp add: emit_simps row_tag_def lit_simps)
  have tail: "lit ''</tr>'' = emit_all [T (lit ''/tr'')]" by (simp add: emit_simps lit_simps)
  have cells: "lit ''<td>'' @ x @ lit ''</td>'' @ s = emit_all (cell_pieces x) @ s" for x s
    using emit_cell[of x] by (metis append_assoc)
  have badges: "lit ''<td><span class=\"badge '' @ lit cls @ lit ''\">'' @ x @ lit ''</span></td>'' @ s = emit_all (badge_pieces cls x) @ s"
    for cls x s
    using emit_badge[of cls x] by (metis append_assoc)
  have open_row: "(if p then detail_row bw r else []) = emit_all (if p then detail_pieces bw r else [])" for p
    by (simp add: detail_row_pieces emit_simps)
  show ?thesis
    unfolding traffic_row_def traffic_pieces_def Let_def esc_def option.case append_assoc row cells badges tail open_row emit_append ..
qed

lemma traffic_row_reads: "read_html (traffic_row bw is_open i r @ rest) = traffic_markup bw is_open i r @ read_html rest"
proof -
  have cls: "62 \<notin> set (lit (disposition_class d))" "34 \<notin> set (lit (disposition_class d))" for d
    by (cases d; simp add: disposition_class_def lit_simps)+
  have "proper [T (row_tag key opn)]" for key opn by (simp add: row_tag_plain)
  moreover have "proper (if p then detail_pieces bw r else [])" for p by (simp add: detail_proper)
  ultimately have "proper (traffic_pieces bw is_open i r)"
    unfolding traffic_pieces_def by (intro proper_append cell_proper badge_proper esc_units_safe cls) simp_all
  moreover have "concat (map reading (traffic_pieces bw is_open i r)) = traffic_markup bw is_open i r"
    by (simp add: traffic_pieces_def traffic_markup_def pieces_read cell_def detail_reads Let_def row_tag_def del: reading.simps(2))
  ultimately show ?thesis using read_pieces unfolding traffic_row_pieces by simp
qed

section \<open>The whole tables\<close>

text \<open>
  Property C22. Nothing that an agent chooses can become markup of the dashboard. Read as HTML, the
  tables are the rows of the script, tag for tag, with the ids, capabilities, addresses, topics,
  kinds and dispositions as texts between them, exactly as the broker has them; and the key in the
  attribute of a row reads back as the key of its message.
\<close>

theorem dashboard_shows_data:
  "read_html (render_agents es) =
     (if es = [] then [tag ''tr'', tag ''td colspan=\"5\" style=\"color:var(--muted)\"'', Text (lit ''No agents registered.''),
        tag ''/td'', tag ''/tr'']
      else concat (map agent_markup es)) \<and>
   read_html (traffic_rows bw is_open rs) =
     (if rs = [] then [tag ''tr'', tag ''td colspan=\"7\" style=\"color:var(--muted)\"'', Text (lit ''No traffic recorded yet.''),
        tag ''/td'', tag ''/tr'']
      else concat (map (\<lambda>(i, r). traffic_markup bw is_open i r) (enumerate 0 rs))) \<and>
   decode (esc (Some key)) = key"
proof (intro conjI)
  show "read_html (render_agents es) =
     (if es = [] then [tag ''tr'', tag ''td colspan=\"5\" style=\"color:var(--muted)\"'', Text (lit ''No agents registered.''),
        tag ''/td'', tag ''/tr'']
      else concat (map agent_markup es))"
    using rows_read[of es agent_row agent_markup] agent_row_reads by (simp add: render_agents_def lit_simps)
  show "read_html (traffic_rows bw is_open rs) =
     (if rs = [] then [tag ''tr'', tag ''td colspan=\"7\" style=\"color:var(--muted)\"'', Text (lit ''No traffic recorded yet.''),
        tag ''/td'', tag ''/tr'']
      else concat (map (\<lambda>(i, r). traffic_markup bw is_open i r) (enumerate 0 rs)))"
    using rows_read[of "enumerate 0 rs" "\<lambda>(i, r). traffic_row bw is_open i r" "\<lambda>(i, r). traffic_markup bw is_open i r"]
    by (auto simp: traffic_rows_def lit_simps traffic_row_reads)
qed (simp add: esc_def)

end
