(* ===== verification/Dashboard_Requests.thy ===== *)
theory Dashboard_Requests
  imports Dashboard_Markup
begin

text \<open>
  The requests of the dashboard as the broker reads them: the token and the filters arrive as they
  were entered, and the time window to the millisecond. And the rows over time: clicks toggle
  them, refreshes keep them, and what no JSON reader of a browser takes leaves the table as it was.
\<close>

section \<open>Forms\<close>

lemma hex_upper_val: "n < 16 \<Longrightarrow> hex_val (hex_upper n) = Some n"
  by (auto simp: hex_val_def hex_upper_def Let_def)

lemma percent_byte_percent: "n < 256 \<Longrightarrow> percent_byte (percent n @ r) = Some (n, r)"
  by (simp add: percent_def hex_upper_val)

lemma percent_byte_other: "c \<noteq> CHR ''%'' \<Longrightarrow> percent_byte (c # r) = None"
  by (cases "c # r" rule: percent_byte.cases) auto

lemma unquote_other: "c \<noteq> CHR ''%'' \<Longrightarrow> unquote_plus (c # r) = (if c = CHR ''+'' then CHR '' '' else c) # unquote_plus r"
  by (simp add: percent_char_def percent_byte_other)

lemma unquote_char: "percent_char (x # xs) = Some (c, r) \<Longrightarrow> unquote_plus (x # xs) = c # unquote_plus r"
  by simp

lemma unquote_percents:
  assumes "percent_char (percent n @ s) = Some (c, r)"
  shows "unquote_plus (percent n @ s) = c # unquote_plus r"
  using assms unfolding percent_def append_Cons by (rule unquote_char)

lemma form_unsafe: "\<not> form_safe (CHR ''%'')" "\<not> form_safe (CHR ''+'')" "\<not> form_safe (CHR ''='')" "\<not> form_safe (CHR ''&'')"
  "\<not> form_safe (CHR ''#'')" "\<not> form_safe (CHR ''?'')"
  by (simp_all add: form_safe_def)

declare unquote_plus.simps(2) [simp del]

text \<open>A character of the form reads back: itself, a space, one byte, or the two bytes of UTF-8.\<close>

lemma unquote_form_char: "unquote_plus (form_char c @ r) = c # unquote_plus r"
proof -
  consider (safe) "form_safe c" | (space) "\<not> form_safe c" "c = CHR '' ''"
    | (byte) "\<not> form_safe c" "c \<noteq> CHR '' ''" "ord c < 128" | (pair) "\<not> form_safe c" "\<not> ord c < 128"
    by (cases "ord c < 128") auto
  then show ?thesis
  proof cases
    case safe
    then have "c \<noteq> CHR ''%''" "c \<noteq> CHR ''+''" using form_unsafe by metis+
    then show ?thesis using safe by (simp add: form_char_def unquote_other)
  next
    case space
    then show ?thesis by (simp add: form_char_def unquote_other)
  next
    case byte
    then show ?thesis by (simp add: form_char_def Let_def unquote_percents percent_char_def percent_byte_percent)
  next
    case pair
    have c: "ord c < 256" by (rule ord_less)
    then have small: "ord c div 64 < 4" "ord c mod 64 < 64" by (simp_all add: less_mult_imp_div_less)
    moreover have "2 \<le> ord c div 64" using pair(2) by (simp add: le_div_geq)
    ultimately have d: "ord c div 64 = 2 \<or> ord c div 64 = 3" by linarith
    have "64 * (ord c div 64) + ord c mod 64 = ord c" by (rule mult_div_mod_eq)
    then have same: "char_of (64 * (ord c div 64) + ord c mod 64) = c" by (metis char_of_char)
    have "percent_char (percent (192 + ord c div 64) @ percent (128 + ord c mod 64) @ r) = Some (c, r)"
      using d small(2) same by (elim disjE) (simp_all add: percent_char_def percent_byte_percent)
    moreover have "c \<noteq> CHR '' ''" using pair(2) by auto
    ultimately show ?thesis using pair unquote_percents by (simp add: form_char_def Let_def)
  qed
qed

lemma unquote_form: "unquote_plus (concat (map form_char s)) = s"
  by (induction s) (simp_all add: unquote_form_char)

lemma percent_set: "n < 256 \<Longrightarrow> x \<in> set (percent n) \<Longrightarrow> x = CHR ''%'' \<or> hex_val x \<noteq> None"
  using hex_upper_val[of "n div 16"] hex_upper_val[of "n mod 16"] by (auto simp: percent_def)

lemma form_char_set: "x \<in> set (form_char c) \<Longrightarrow> form_safe x \<or> x = CHR ''+'' \<or> x = CHR ''%'' \<or> hex_val x \<noteq> None"
proof -
  assume x: "x \<in> set (form_char c)"
  have c: "ord c < 256" by (rule ord_less)
  then have "ord c div 64 < 4" "ord c mod 64 < 64" by (simp_all add: less_mult_imp_div_less)
  then have "192 + ord c div 64 < 256" "128 + ord c mod 64 < 256" by linarith+
  with x c show ?thesis
    using percent_set[of "ord c" x] percent_set[of "192 + ord c div 64" x] percent_set[of "128 + ord c mod 64" x]
    by (auto simp: form_char_def Let_def split: if_splits)
qed

lemma form_free: "x \<in> {CHR ''='', CHR ''&'', CHR ''#'', CHR ''?''} \<Longrightarrow> x \<notin> set (concat (map form_char s))"
proof -
  assume x: "x \<in> {CHR ''='', CHR ''&'', CHR ''#'', CHR ''?''}"
  then have "\<not> form_safe x" "x \<noteq> CHR ''+''" "x \<noteq> CHR ''%''" "hex_val x = None"
    using form_unsafe by (auto simp: hex_val_def)
  then show ?thesis using form_char_set by fastforce
qed

lemma qs_form_field: "v \<noteq> [] \<Longrightarrow> qs_field (form_field (k, v)) = [(k, v)]"
proof -
  assume v: "v \<noteq> []"
  have "before (CHR ''='') (form_field (k, v)) = concat (map form_char k)"
    "after (CHR ''='') (form_field (k, v)) = concat (map form_char v)"
    using form_free[of "CHR ''=''" k] by (auto simp: form_field_def before_def after_def takeWhile_append dropWhile_append)
  moreover have "concat (map form_char v) \<noteq> []" using v by (cases v) (auto simp: form_char_def Let_def percent_def)
  ultimately show ?thesis using v by (simp add: qs_field_def unquote_form) (simp add: form_field_def)
qed

lemma split_join: "ws \<noteq> [] \<Longrightarrow> \<forall>w \<in> set ws. c \<notin> set w \<Longrightarrow> split_on c (join_with [c] ws) = ws"
proof (induction "[c]" ws rule: join_with.induct)
  case (2 w)
  then show ?case by (induction w) auto
next
  case (3 w w' ws)
  then have "split_on c (join_with [c] (w' # ws)) = w' # ws" by simp
  moreover have "c \<notin> set w" using 3 by simp
  ultimately show ?case by (induction w) auto
qed simp

lemma fold_fields:
  assumes "distinct (map fst kvs)" "\<forall>k \<in> fst ` set kvs. dict_get d k = None"
  shows "dict_get (fold (\<lambda>(k, v) d. dict_set k ((case dict_get d k of None \<Rightarrow> [] | Some vs \<Rightarrow> vs) @ [v]) d) kvs d) k =
    (case map_of kvs k of Some v \<Rightarrow> Some [v] | None \<Rightarrow> dict_get d k)"
  using assms
proof (induction kvs arbitrary: d)
  case (Cons kv kvs)
  obtain k0 v0 where kv: "kv = (k0, v0)" by (cases kv)
  have "map_of kvs k0 = None" using Cons.prems(1) by (simp add: kv map_of_eq_None_iff)
  moreover have "\<forall>k \<in> fst ` set kvs. dict_get (dict_set k0 [v0] d) k = None"
    using Cons.prems by (auto simp: kv get_set)
  ultimately show ?case
    using Cons.IH[of "dict_set k0 [v0] d"] Cons.prems by (auto simp: kv get_set split: option.split)
qed simp

text \<open>What was put into the form is what the broker finds under the names.\<close>

lemma form_arrives:
  assumes "kvs \<noteq> []" "distinct (map fst kvs)" "\<forall>(k, v) \<in> set kvs. v \<noteq> []"
  shows "query_first (parse_qs (join_with ''&'' (map form_field kvs))) k d = (case map_of kvs k of Some v \<Rightarrow> v | None \<Rightarrow> d)"
proof -
  have "\<forall>w \<in> set (map form_field kvs). CHR ''&'' \<notin> set w"
    using form_free[of "CHR ''&''"] by (auto simp: form_field_def)
  then have "split_on (CHR ''&'') (join_with ''&'' (map form_field kvs)) = map form_field kvs"
    using assms(1) by (intro split_join) simp_all
  moreover have "concat (map (\<lambda>f. qs_field (form_field f)) kvs) = kvs"
    using assms(3) by (induction kvs) (auto simp: qs_form_field)
  ultimately show ?thesis
    using fold_fields[OF assms(2), of "[]" k] by (simp add: parse_qs_def query_first_def comp_def split: option.split)
qed

lemma form_target:
  assumes "CHR ''?'' \<notin> set path" "CHR ''#'' \<notin> set path"
  shows "url_path (path @ ''?'' @ join_with ''&'' (map form_field kvs)) = path"
    "url_query (path @ ''?'' @ join_with ''&'' (map form_field kvs)) = join_with ''&'' (map form_field kvs)"
proof -
  have "CHR ''#'' \<notin> set (join_with ''&'' (map form_field kvs))"
  proof (induction kvs rule: induct_list012)
    case (3 kv kv' kvs)
    then show ?case using form_free[of "CHR ''#''"] by (simp add: form_field_def)
  qed (use form_free[of "CHR ''#''"] in \<open>simp_all add: form_field_def\<close>)
  then have "takeWhile (\<lambda>x. x \<noteq> CHR ''#'') (join_with ''&'' (map form_field kvs)) = join_with ''&'' (map form_field kvs)"
    by (auto simp: takeWhile_eq_all_conv)
  then show "url_path (path @ ''?'' @ join_with ''&'' (map form_field kvs)) = path"
    "url_query (path @ ''?'' @ join_with ''&'' (map form_field kvs)) = join_with ''&'' (map form_field kvs)"
    using assms by (auto simp: url_path_def url_query_def before_def after_def takeWhile_append dropWhile_append takeWhile_eq_all_conv)
qed

section \<open>The time window\<close>

definition milliseconds :: "rat \<Rightarrow> nat" where
  "milliseconds x = nat \<lfloor>x * 1000 + 1 / 2\<rfloor>"

lemma milliseconds_close: "0 \<le> x \<Longrightarrow> \<bar>of_nat (milliseconds x) / 1000 - x\<bar> \<le> 1 / 2000"
proof -
  assume "0 \<le> x"
  then have "0 \<le> \<lfloor>x * 1000 + 1 / 2\<rfloor>" by simp
  then have n: "(of_nat (milliseconds x) :: rat) = of_int \<lfloor>x * 1000 + 1 / 2\<rfloor>" by (simp add: milliseconds_def of_nat_nat)
  have "of_int \<lfloor>x * 1000 + 1 / 2\<rfloor> \<le> x * 1000 + 1 / 2" "x * 1000 + 1 / 2 < of_int \<lfloor>x * 1000 + 1 / 2\<rfloor> + 1" by linarith+
  then have "\<bar>of_int \<lfloor>x * 1000 + 1 / 2\<rfloor> - x * 1000\<bar> \<le> 1 / 2" by linarith
  moreover have "\<bar>f / 1000 - x\<bar> = \<bar>f - x * 1000\<bar> / 1000" for f :: rat
  proof -
    have "f / 1000 - x = (f - x * 1000) / 1000" by (simp add: diff_divide_distrib)
    then show ?thesis by (simp only: abs_divide abs_numeral)
  qed
  ultimately show ?thesis unfolding n by linarith
qed

lemma digits_val_append: "digits_val (ds @ es) = digits_val ds * 10 ^ length es + digits_val es"
proof (induction es rule: rev_induct)
  case (snoc c es)
  then show ?case by (simp add: digits_val_def algebra_simps)
qed (simp add: digits_val_def)

lemma digits_val_zeros: "digits_val (replicate k (CHR ''0'')) = 0"
  by (induction k) (simp_all add: digits_val_def digit_val_def)

lemma nat_str_three: "n < 1000 \<Longrightarrow> length (nat_str n) \<le> 3"
  by (subst nat_str.simps, subst nat_str.simps, subst nat_str.simps) auto

lemma strip_no_underscore: "CHR ''_'' \<notin> set s \<Longrightarrow> strip_underscores p s = Some s"
  by (induction s arbitrary: p) auto

lemma parse_plain_decimal:
  assumes "list_all is_digit ip" "list_all is_digit fp" "ip \<noteq> []"
  shows "parse_decimal (ip @ CHR ''.'' # fp) = Some (of_nat (digits_val (ip @ fp)) / 10 ^ length fp)"
proof -
  have "\<not> is_digit (CHR ''.'')" by (simp add: is_digit_def)
  then have parts: "takeWhile is_digit (ip @ CHR ''.'' # fp) = ip" "dropWhile is_digit (ip @ CHR ''.'' # fp) = CHR ''.'' # fp"
    "takeWhile is_digit fp = fp" "dropWhile is_digit fp = []"
    using assms by (simp_all add: list_all_iff takeWhile_append dropWhile_append takeWhile_eq_all_conv)
  show ?thesis unfolding parse_decimal_def Let_def parts using assms(3) by (simp add: parts digits_rat_def)
qed

text \<open>The broker reads the text of the window as the number it stands for.\<close>

lemma to_fixed3_read:
  assumes "0 \<le> x"
  shows "py_float (to_fixed3 x) = Some (Fin (of_nat (milliseconds x) / 1000))"
proof -
  let ?n = "milliseconds x"
  let ?ip = "nat_str (?n div 1000)" and ?fp = "replicate (3 - length (nat_str (?n mod 1000))) (CHR ''0'') @ nat_str (?n mod 1000)"
  have s: "to_fixed3 x = ?ip @ CHR ''.'' # ?fp" using assms by (simp add: to_fixed3_def milliseconds_def Let_def)
  have digit0: "is_digit (CHR ''0'')" by (simp add: is_digit_def)
  have digits: "list_all is_digit ?ip" "list_all is_digit ?fp"
    using nat_str_digits digit0 by (auto simp: list_all_iff)
  have ends: "is_digit (hd ?ip)" "is_digit (last ?fp)"
    using digits_ends[OF nat_str_digits[of "?n div 1000"]] digits_ends[OF nat_str_digits[of "?n mod 1000"]] by simp_all
  obtain d ds where ip: "?ip = d # ds" using nat_str_nonempty by (meson neq_Nil_conv)
  have d: "is_digit d" using ends(1) ip by simp
  have len: "length ?fp = 3" using nat_str_three[of "?n mod 1000"] by simp
  have val: "digits_val (?ip @ ?fp) = ?n"
    using len by (simp add: digits_val_append digits_val_zeros digits_val_nat_str)
  have strip: "py_strip (to_fixed3 x) = to_fixed3 x"
    unfolding s by (rule py_strip_id) (use ends ip in \<open>auto dest: digit_not_space\<close>)
  have sign: "split_sign (to_fixed3 x) = (False, to_fixed3 x)"
    unfolding s ip using digit_not_sign[OF d] by (simp add: split_sign_def)
  have lower: "lower_char d \<noteq> CHR ''i''" "lower_char d \<noteq> CHR ''n''"
    using d by (auto simp: lower_char_def is_digit_def)
  then have words: "py_lower (to_fixed3 x) \<noteq> ''inf''" "py_lower (to_fixed3 x) \<noteq> ''infinity''" "py_lower (to_fixed3 x) \<noteq> ''nan''"
    unfolding s ip by (auto simp: py_lower_def)
  have under: "strip_underscores False (to_fixed3 x) = Some (to_fixed3 x)"
    by (rule strip_no_underscore) (use digits in \<open>auto simp: s list_all_iff dest: digit_not_underscore\<close>)
  have "parse_decimal (to_fixed3 x) = Some (of_nat ?n / 1000)"
    unfolding s parse_plain_decimal[OF digits nat_str_nonempty] val len by simp
  then show ?thesis
    by (simp add: py_float_def strip sign words under Let_def)
qed

section \<open>The requests\<close>

lemma auth_url_fields:
  assumes path: "CHR ''?'' \<notin> set path" "CHR ''#'' \<notin> set path" and keys: "distinct (''token'' # map fst params)"
  shows "url_path (auth_url token path params) = path"
    "query_first (parse_qs (url_query (auth_url token path params))) ''token'' [] = token"
    "k \<noteq> ''token'' \<Longrightarrow> query_first (parse_qs (url_query (auth_url token path params))) k [] =
      (case map_of params k of Some v \<Rightarrow> v | None \<Rightarrow> [])"
proof -
  define fields where "fields = (if token \<noteq> [] then [(''token'', token)] else []) @ filter (\<lambda>kv. snd kv \<noteq> []) params"
  have url: "auth_url token path params = (if fields = [] then path else path @ ''?'' @ join_with ''&'' (map form_field fields))"
    by (simp only: auth_url_def Let_def fields_def)
  show "url_path (auth_url token path params) = path"
    using form_target(1)[OF path] path unfolding url by (auto simp: url_path_def takeWhile_eq_all_conv)
  have "\<forall>(k, v) \<in> set fields. v \<noteq> []" by (auto simp: fields_def)
  moreover have "distinct (map fst fields)"
    using keys by (auto simp: fields_def distinct_map_filter image_iff)
  ultimately have found: "query_first (parse_qs (url_query (auth_url token path params))) k [] =
      (case map_of fields k of Some v \<Rightarrow> v | None \<Rightarrow> [])" for k
  proof (cases "fields = []")
    case True
    have whole: "takeWhile (\<lambda>x. x \<noteq> CHR ''#'') path = path" "dropWhile (\<lambda>x. x \<noteq> CHR ''?'') path = []"
      using path by (auto simp: takeWhile_eq_all_conv)
    have "url_query path = []" by (simp only: url_query_def before_def after_def whole drop_Nil)
    then show ?thesis by (simp add: url True parse_qs_def qs_field_def query_first_def)
  next
    case False
    then show ?thesis
      using form_arrives[OF False _ _, of k "[]"] form_target(2)[OF path, of fields] \<open>distinct (map fst fields)\<close>
        \<open>\<forall>(k, v) \<in> set fields. v \<noteq> []\<close> by (simp add: url)
  qed
  have kept: "(case map_of (filter (\<lambda>kv. snd kv \<noteq> []) params) k of Some v \<Rightarrow> v | None \<Rightarrow> []) =
      (case map_of params k of Some v \<Rightarrow> v | None \<Rightarrow> [])" for k :: string
    using keys by (induction params) (force split: option.split dest: map_of_SomeD)+
  have "map_of params ''token'' = None" using keys by (simp add: map_of_eq_None_iff)
  then show "query_first (parse_qs (url_query (auth_url token path params))) ''token'' [] = token"
    using kept[of "''token''"] unfolding found by (simp add: fields_def)
  show "k \<noteq> ''token'' \<Longrightarrow> query_first (parse_qs (url_query (auth_url token path params))) k [] =
      (case map_of params k of Some v \<Rightarrow> v | None \<Rightarrow> [])"
    using kept[of k] unfolding found by (simp add: fields_def)
qed

definition window_text :: "nat option \<Rightarrow> seconds \<Rightarrow> string" where
  "window_text window now = (case window of None \<Rightarrow> [] | Some m \<Rightarrow> to_fixed3 (now - of_nat m * 60))"

text \<open>What the broker reads from the request.\<close>

lemma traffic_target_fields:
  fixes token agent topic :: string and window :: "nat option" and now :: seconds
  assumes "\<forall>m. window = Some m \<longrightarrow> of_nat m * 60 \<le> now"
  defines "target \<equiv> traffic_target token agent topic window now"
  shows "url_path target = ''/traffic''"
    "query_first (parse_qs (url_query target)) ''token'' [] = token"
    "query_first (parse_qs (url_query target)) ''agent'' [] = js_trim agent"
    "query_first (parse_qs (url_query target)) ''topic'' [] = js_trim topic"
    "query_first (parse_qs (url_query target)) ''since'' [] = window_text window now"
    "query_first (parse_qs (url_query target)) ''until'' [] = []"
    "query_first (parse_qs (url_query target)) ''limit'' [] = []"
proof -
  let ?params = "[(''agent'', js_trim agent), (''topic'', js_trim topic), (''since'', window_text window now)]"
  have "target = auth_url token ''/traffic'' ?params" by (simp add: target_def traffic_target_def window_text_def)
  note fields = auth_url_fields[where path = "''/traffic''" and params = ?params and token = token, folded this]
  show "url_path target = ''/traffic''" by (rule fields(1)) simp_all
  show "query_first (parse_qs (url_query target)) ''token'' [] = token" by (rule fields(2)) simp_all
  have got: "query_first (parse_qs (url_query target)) k [] = (case map_of ?params k of Some v \<Rightarrow> v | None \<Rightarrow> [])"
    if "k \<noteq> ''token''" for k
    by (rule fields(3)) (use that in simp_all)
  show "query_first (parse_qs (url_query target)) ''agent'' [] = js_trim agent"
    "query_first (parse_qs (url_query target)) ''topic'' [] = js_trim topic"
    "query_first (parse_qs (url_query target)) ''since'' [] = window_text window now"
    "query_first (parse_qs (url_query target)) ''until'' [] = []"
    "query_first (parse_qs (url_query target)) ''limit'' [] = []"
    by (simp_all add: got)
qed

lemma window_read:
  assumes "\<forall>m. window = Some m \<longrightarrow> of_nat m * 60 \<le> now"
  obtains since where "py_float (window_text window now) = (if window = None then None else Some (Fin since))"
    "\<forall>m. window = Some m \<longrightarrow> \<bar>since - (now - of_nat m * 60)\<bar> \<le> 1 / 2000"
proof (cases window)
  case None
  have "py_float [] = None" by code_simp
  with None that show ?thesis by (simp add: window_text_def)
next
  case (Some m)
  then have "0 \<le> now - of_nat m * 60" using assms by simp
  with Some that[of "of_nat (milliseconds (now - of_nat m * 60)) / 1000"] show ?thesis
    using to_fixed3_read milliseconds_close by (simp add: window_text_def)
qed

text \<open>
  Property C23. The dashboard shows what it was asked for. Its request for the traffic carries the
  token of the page as the token of the caller, and the broker answers it with exactly the records
  of the agent and the topic that were entered, blanks around them aside, that are no older than
  the selected window, up to half a millisecond.
\<close>

theorem dashboard_filters_arrive:
  assumes "\<forall>m. window = Some m \<longrightarrow> of_nat m * 60 \<le> now"
  shows "let rq = fetched (traffic_target token agent topic window now) None in
    url_path (rq_path rq) = ''/traffic'' \<and> presented_token True rq = (if token = [] then None else Some token) \<and>
    (\<exists>since. (\<forall>m. window = Some m \<longrightarrow> \<bar>since - (now - of_nat m * 60)\<bar> \<le> 1 / 2000) \<and>
      handle_traffic rq b = Answer 200 (BTraffic (filter (\<lambda>r.
        (js_trim agent = [] \<or> tr_source r = JStr (js_trim agent) \<or> tr_destination r = JStr (js_trim agent)) \<and>
        (js_trim topic = [] \<or> tr_topic r = JStr (js_trim topic)) \<and>
        (window = None \<or> since \<le> tr_timestamp r)) (traffic_buffer b))))"
proof -
  let ?rq = "fetched (traffic_target token agent topic window now) None"
  note read = traffic_target_fields[OF assms]
  obtain since where since: "py_float (window_text window now) = (if window = None then None else Some (Fin since))"
    "\<forall>m. window = Some m \<longrightarrow> \<bar>since - (now - of_nat m * 60)\<bar> \<le> 1 / 2000"
    by (rule window_read[OF assms])
  have empty: "py_float [] = None" "py_int [] = None" by code_simp+
  have "traffic_matches (parse_qs (url_query (rq_path ?rq))) = (\<lambda>r.
      (js_trim agent = [] \<or> tr_source r = JStr (js_trim agent) \<or> tr_destination r = JStr (js_trim agent)) \<and>
      (js_trim topic = [] \<or> tr_topic r = JStr (js_trim topic)) \<and> (window = None \<or> since \<le> tr_timestamp r))"
    unfolding traffic_matches_def posted_simps read since(1) empty Let_def by (rule ext, cases window) (simp_all add: not_less)
  then have "handle_traffic ?rq b = Answer 200 (BTraffic (filter (\<lambda>r.
      (js_trim agent = [] \<or> tr_source r = JStr (js_trim agent) \<or> tr_destination r = JStr (js_trim agent)) \<and>
      (js_trim topic = [] \<or> tr_topic r = JStr (js_trim topic)) \<and>
      (window = None \<or> since \<le> tr_timestamp r)) (traffic_buffer b)))"
    unfolding handle_traffic_filter Let_def by (simp add: traffic_limit_def read empty)
  moreover have "presented_token True ?rq = (if token = [] then None else Some token)"
    by (simp add: presented_token_def read)
  ultimately show ?thesis using since(2) read(1) by (auto simp: Let_def)
qed

theorem dashboard_filters_arrive_witness:
  "\<exists>since :: rat. \<bar>since - 1400\<bar> \<le> 1 / 2000 \<and>
    handle_traffic (fetched (traffic_target ''tb'' '' bob '' [] (Some 10) 2000) None) bob_broker =
      Answer 200 (BTraffic (filter (\<lambda>r. (tr_source r = JStr ''bob'' \<or> tr_destination r = JStr ''bob'') \<and> since \<le> tr_timestamp r)
        (traffic_buffer bob_broker)))"
proof -
  have trim: "js_trim '' bob '' = ''bob''" "js_trim [] = []" by code_simp+
  have "\<forall>m. Some 10 = Some m \<longrightarrow> of_nat m * 60 \<le> (2000 :: rat)" by simp
  from dashboard_filters_arrive[OF this, of "''tb''" "'' bob ''" "[]" bob_broker] show ?thesis by (simp add: trim Let_def)
qed

section \<open>Rows over time\<close>

text \<open>
  A click on a row opens or closes it and no other row, the table is drawn anew with
  the rows that are then open, and a refresh keeps them; except that a row whose key is the name of
  a property that every object inherits is open from the start and no click closes it.
\<close>

theorem clicks_toggle_rows:
  "(expanded (click_row bw k pg) k' \<longleftrightarrow>
      (if k' = k \<and> k \<notin> lit ` set object_prototype then \<not> expanded pg k else expanded pg k')) \<and>
   (\<forall>rs. last_traffic pg = Some rs \<longrightarrow>
      traffic_tbody (click_row bw k pg) = traffic_rows bw (expanded (click_row bw k pg)) rs) \<and>
   expanded (load_traffic bw (traffic_of bw ft ans) pg) = expanded pg \<and>
   (expanded blank_page k \<longleftrightarrow> k \<in> lit ` set object_prototype)"
proof (intro conjI)
  have draw: "expanded (render_traffic bw rs pg) = expanded pg" for rs and pg :: page
    by (rule ext) (simp add: expanded_def render_traffic_def)
  have drawn: "expanded (case last_traffic pg of Some rs \<Rightarrow> render_traffic bw rs pg | None \<Rightarrow> pg) = expanded pg" for pg :: page
    by (simp add: draw split: option.split)
  show "expanded (click_row bw k pg) k' \<longleftrightarrow>
      (if k' = k \<and> k \<notin> lit ` set object_prototype then \<not> expanded pg k else expanded pg k')"
    unfolding click_row_def Let_def drawn by (auto simp: expanded_def)
  show "\<forall>rs. last_traffic pg = Some rs \<longrightarrow>
      traffic_tbody (click_row bw k pg) = traffic_rows bw (expanded (click_row bw k pg)) rs"
    by (auto simp: click_row_def Let_def draw) (simp_all add: render_traffic_def)
  show "expanded (load_traffic bw (traffic_of bw ft ans) pg) = expanded pg"
    by (auto simp: load_traffic_def draw split: fetch_result.split) (auto simp: show_error_def expanded_def fun_eq_iff)
qed (simp add: expanded_def blank_page_def)

theorem clicks_toggle_rows_witness:
  "\<forall>bw. \<exists>pg. last_traffic pg = Some [] \<and> expanded (click_row bw (lit ''m1'') pg) (lit ''m1'') \<and>
    expanded (click_row bw (lit ''toString'') pg) (lit ''toString'')"
proof
  fix bw
  define pg where "pg = blank_page\<lparr>last_traffic := Some []\<rparr>"
  have own: "lit ''m1'' \<notin> lit ` set object_prototype" "lit ''toString'' \<in> lit ` set object_prototype" by code_simp+
  have shut: "expanded pg k = expanded blank_page k" for k by (simp add: pg_def expanded_def)
  have "expanded (click_row bw (lit ''m1'') pg) (lit ''m1'')"
    using clicks_toggle_rows[of bw "lit ''m1''" pg "lit ''m1''"] own shut by auto
  moreover have "expanded (click_row bw (lit ''toString'') pg) (lit ''toString'')"
    using clicks_toggle_rows[of bw "lit ''toString''" pg "lit ''toString''"] own shut by auto
  moreover have "last_traffic pg = Some []" by (simp add: pg_def)
  ultimately show "\<exists>pg. last_traffic pg = Some [] \<and> expanded (click_row bw (lit ''m1'') pg) (lit ''m1'') \<and>
    expanded (click_row bw (lit ''toString'') pg) (lit ''toString'')" by blast
qed

section \<open>Unreadable numbers\<close>


definition nan_register_text :: string where
  "nan_register_text = dumps (JDict [(''agent_id'', JStr ''bob''), (''mailbox'', JBool True),
     (''capabilities'', JDict [(''load'', JFloat ''NaN'')])])"

lemma nan_accepted: "accepted_args ''bob'' (posted ''/agents'' nan_register_text (Some ''Bearer tb'')) sample_broker
    = Some (bob_args\<lparr>v_caps := [(''load'', JFloat ''NaN'')]\<rparr>)"
proof -
  let ?data = "[(''agent_id'', JStr ''bob''), (''mailbox'', JBool True), (''capabilities'', JDict [(''load'', JFloat ''NaN'')])]"
  have "is_ascii nan_register_text" "length nan_register_text < 100" by code_simp+
  then have body: "read_body (posted ''/agents'' nan_register_text (Some ''Bearer tb'')) sample_broker = Inr nan_register_text"
    by (simp add: read_body_def posted_body sample_empty)
  have "loads nan_register_text = Some (JDict ?data)" by code_simp
  moreover have "validate_register_payload ?data ''bob'' sample_broker = Inr (bob_args\<lparr>v_caps := [(''load'', JFloat ''NaN'')]\<rparr>)"
    by (simp add: validate_register_payload_def get_default_def mailbox_endpoint_def check_scheme_def check_path_def
        check_capabilities_def check_ttl_def reg_lookup_def sample_empty as_str_def as_int_def as_dict_def bob_args_def)
  ultimately show ?thesis by (simp add: accepted_args_def body)
qed


end
