(* ===== verification/Mail_Service.thy ===== *)
theory Mail_Service
  imports Brokered_Props
begin

text \<open>
  The broker as the service its clients rely on. A \<open>post_office\<close> takes items and queues each
  for its addressee; a \<open>mail_service\<close> also hands an addressee its whole queue. What a client
  observes of a run of sends and a poll is proved once from this contract; its laws are then
  discharged for the broker behind its HTTP interface.
\<close>

section \<open>A run of sends\<close>

fun run_all :: "('e \<Rightarrow> 's \<Rightarrow> 'r \<times> 's) \<Rightarrow> 'e list \<Rightarrow> 's \<Rightarrow> 'r list \<times> 's" where
  "run_all act [] s = ([], s)"
| "run_all act (e # es) s = (case act e s of (r, s1) \<Rightarrow> (case run_all act es s1 of (rs, s2) \<Rightarrow> (r # rs, s2)))"

section \<open>The contract\<close>

locale post_office =
  fixes post :: "'e \<Rightarrow> 's \<Rightarrow> 'r \<times> 's" and mail :: "'s \<Rightarrow> 'n \<Rightarrow> 't list"
    and item :: "'e \<Rightarrow> 't" and addressee :: "'s \<Rightarrow> 'e \<Rightarrow> 'n option" and accepted_as :: 'r
  assumes post_answer: "addressee s e = Some n \<Longrightarrow> fst (post e s) = accepted_as"
    and post_mail: "addressee s e = Some n \<Longrightarrow>
      mail (snd (post e s)) x = (if x = n then mail s x @ [item e] else mail s x)"
    and post_addressee: "addressee s e = Some n \<Longrightarrow> addressee (snd (post e s)) f = addressee s f"
begin

text \<open>What the items of a run add to the queue of \<open>x\<close>.\<close>

abbreviation sent_to :: "'s \<Rightarrow> 'e list \<Rightarrow> 'n \<Rightarrow> 't list" where
  "sent_to s es x \<equiv> map item (filter (\<lambda>e. addressee s e = Some x) es)"

lemma run_mail:
  assumes "\<forall>e \<in> set es. addressee s e \<noteq> None" "run_all post es s = (rs, s')"
  shows "rs = replicate (length es) accepted_as \<and> mail s' x = mail s x @ sent_to s es x \<and> addressee s' f = addressee s f"
  using assms
proof (induction es arbitrary: s rs)
  case (Cons e es)
  obtain n where n: "addressee s e = Some n" using Cons.prems(1) by auto
  obtain r s1 where p: "post e s = (r, s1)" by (cases "post e s")
  obtain rs1 where r: "run_all post es s1 = (rs1, s')" "rs = r # rs1"
    using Cons.prems(2) p by (auto split: prod.splits)
  have same: "addressee s1 f = addressee s f" for f using post_addressee[OF n] p by simp
  with Cons.prems(1) have "\<forall>e \<in> set es. addressee s1 e \<noteq> None" by simp
  from Cons.IH[OF this r(1)] show ?case
    using post_answer[OF n] post_mail[OF n, of x] p r(2) same n by auto
qed simp

end

locale mail_service = post_office post mail item addressee accepted_as
  for post :: "'e \<Rightarrow> 's \<Rightarrow> 'r \<times> 's" and mail :: "'s \<Rightarrow> 'n \<Rightarrow> 't list"
    and item :: "'e \<Rightarrow> 't" and addressee :: "'s \<Rightarrow> 'e \<Rightarrow> 'n option" and accepted_as :: 'r +
  fixes poll :: "'p \<Rightarrow> 's \<Rightarrow> 'a \<times> 's" and reader :: "'s \<Rightarrow> 'p \<Rightarrow> 'n option" and answer_of :: "'t list \<Rightarrow> 'a"
  assumes poll_answer: "reader s p = Some n \<Longrightarrow> mail s n \<noteq> [] \<Longrightarrow> fst (poll p s) = answer_of (mail s n)"
    and poll_mail: "reader s p = Some n \<Longrightarrow> mail s n \<noteq> [] \<Longrightarrow>
      mail (snd (poll p s)) x = (if x = n then [] else mail s x)"
    and post_reader: "addressee s e = Some n \<Longrightarrow> reader (snd (post e s)) p = reader s p"
begin

lemma run_reader:
  assumes "\<forall>e \<in> set es. addressee s e \<noteq> None" "run_all post es s = (rs, s')"
  shows "reader s' p = reader s p"
  using assms
proof (induction es arbitrary: s rs)
  case (Cons e es)
  obtain n where n: "addressee s e = Some n" using Cons.prems(1) by auto
  obtain r s1 where p: "post e s = (r, s1)" by (cases "post e s")
  obtain rs1 where r: "run_all post es s1 = (rs1, s')" using Cons.prems(2) p by (auto split: prod.splits)
  have "addressee s1 f = addressee s f" for f using post_addressee[OF n] p by simp
  with Cons.prems(1) have "\<forall>e \<in> set es. addressee s1 e \<noteq> None" by simp
  from Cons.IH[OF this r] show ?case using post_reader[OF n] p by simp
qed simp

text \<open>After any run of sends a poll returns the whole queue, in order, and leaves the others alone.\<close>

lemma run_then_poll:
  assumes "\<forall>e \<in> set es. addressee s e \<noteq> None" "reader s p = Some n" "mail s n @ sent_to s es n \<noteq> []"
    and "run_all post es s = (rs, s1)" "poll p s1 = (ans, s2)"
  shows "rs = replicate (length es) accepted_as \<and> ans = answer_of (mail s n @ sent_to s es n) \<and>
    mail s2 x = (if x = n then [] else mail s x @ sent_to s es x)"
proof -
  have m: "mail s1 y = mail s y @ sent_to s es y" "rs = replicate (length es) accepted_as" for y
    using run_mail[OF assms(1,4)] by simp_all
  have "reader s1 p = Some n" using run_reader[OF assms(1,4)] assms(2) by simp
  moreover have "mail s1 n \<noteq> []" unfolding m(1) by (rule assms(3))
  ultimately show ?thesis
    using poll_answer[of s1 p n] poll_mail[of s1 p n x] assms(5) m(2) unfolding m(1) by simp
qed

end

section \<open>The broker behind its HTTP interface\<close>

text \<open>A send: the clock at the broker, the connection, the client, the message and the timeout.\<close>

record sending =
  sd_at :: ambient
  sd_conn :: broker_conn
  sd_who :: string
  sd_message :: message
  sd_timeout :: string

definition post_sending ::
  "(seconds \<Rightarrow> string) \<Rightarrow> 's exchange \<Rightarrow> (seconds \<Rightarrow> 's \<Rightarrow> 's) \<Rightarrow> sending \<Rightarrow> broker \<times> 's \<Rightarrow>
   message option result \<times> (broker \<times> 's)" where
  "post_sending ft net sleep e w =
     broker_send (to_broker ft net sleep (sd_at e)) (sd_conn e) (sd_message e) (sd_timeout e) w"

text \<open>The mailbox a sending is accepted for.\<close>

definition sending_to :: "broker \<Rightarrow> sending \<Rightarrow> string option" where
  "sending_to b e =
     (if rate_limit_per_second b \<le> 0 \<and> client_of (sd_conn e) (sd_who e) b \<and> valid_message (sd_message e) \<and>
         wf_message (sd_message e) \<and> int (length (serialize (sd_message e))) \<le> max_body_size b
      then queues_for (sd_who e) (sd_message e) b else None)"

record polling =
  po_at :: ambient
  po_conn :: broker_conn
  po_who :: string
  po_wait :: string
  po_timeout :: string

definition poll_polling ::
  "(seconds \<Rightarrow> string) \<Rightarrow> 's exchange \<Rightarrow> (seconds \<Rightarrow> 's \<Rightarrow> 's) \<Rightarrow> polling \<Rightarrow> broker \<times> 's \<Rightarrow>
   message list result \<times> (broker \<times> 's)" where
  "poll_polling ft net sleep p w =
     broker_receive (to_broker ft net sleep (po_at p)) (po_conn p) (po_who p) (po_wait p) (po_timeout p) w"

text \<open>Whose mailbox a poll reads, when every text in it can be read.\<close>

definition polling_for :: "broker \<Rightarrow> polling \<Rightarrow> string option" where
  "polling_for b p = (if rate_limit_per_second b \<le> 0 \<and> client_of (po_conn p) (po_who p) b then Some (po_who p) else None)"

lemma queues_for_entries: "\<forall>x. entry b' x = entry b x \<Longrightarrow> queues_for who m b' = queues_for who m b"
  by (simp add: queues_for_def entry_def split: json.split)

lemma sending_config:
  "config b' = config b \<Longrightarrow> \<forall>x. entry b' x = entry b x \<Longrightarrow> sending_to b' e = sending_to b e"
  "config b' = config b \<Longrightarrow> polling_for b' p = polling_for b p"
  using queues_for_entries[of b' b] client_of_config[of b' b]
  by (simp_all add: sending_to_def polling_for_def config_def)

lemma post_sending_queued:
  assumes "sending_to b e = Some d"
  shows "\<exists>b'. post_sending ft net sleep e (b, s) = (Inr None, (b', s)) \<and>
    box b' d = box b d @ [serialize (sd_message e)] \<and> config b' = config b \<and>
    (\<forall>x. entry b' x = entry b x \<and> (x \<noteq> d \<longrightarrow> box b' x = box b x))"
  using assms unfolding sending_to_def post_sending_def
  by (intro broker_send_queued) (auto split: if_splits)

lemma poll_polling_mail:
  assumes "polling_for b p = Some d" "box b d \<noteq> []"
  shows "\<exists>b'. poll_polling ft net sleep p (b, s) = (deserialize_all (map JStr (box b d)), (b', s)) \<and> box b' d = [] \<and>
    config b' = config b \<and> (\<forall>x. x \<noteq> d \<longrightarrow> entry b' x = entry b x \<and> box b' x = box b x)"
proof -
  have w: "po_who p = d" "client_of (po_conn p) d b" "rate_limit_per_second b \<le> 0"
    using assms(1) by (auto simp: polling_for_def split: if_splits)
  show ?thesis unfolding poll_polling_def w(1) by (rule broker_receive_mail[OF w(2,3) assms(2)])
qed

interpretation broker_mail: mail_service
  "post_sending ft net sleep" "\<lambda>w. box (fst w)" "\<lambda>e. serialize (sd_message e)" "\<lambda>w. sending_to (fst w)" "Inr None"
  "poll_polling ft net sleep" "\<lambda>w. polling_for (fst w)" "\<lambda>ts. deserialize_all (map JStr ts)"
  for ft net sleep
proof
  fix w :: "broker \<times> 'a" and e :: sending and d x :: string and f :: sending and p :: polling
  obtain b s where w: "w = (b, s)" by (cases w)
  assume d: "sending_to (fst w) e = Some d"
  then obtain b' where b': "post_sending ft net sleep e w = (Inr None, (b', s))"
    "box b' d = box b d @ [serialize (sd_message e)]" "config b' = config b"
    "\<forall>x. entry b' x = entry b x" "\<forall>x. x \<noteq> d \<longrightarrow> box b' x = box b x"
    using post_sending_queued[of b e d ft net sleep s] w by auto
  show "fst (post_sending ft net sleep e w) = Inr None" using b'(1) by simp
  show "box (fst (snd (post_sending ft net sleep e w))) x =
      (if x = d then box (fst w) x @ [serialize (sd_message e)] else box (fst w) x)" using b' w by simp
  show "sending_to (fst (snd (post_sending ft net sleep e w))) f = sending_to (fst w) f"
    using sending_config(1)[OF b'(3,4)] b'(1) w by simp
  show "polling_for (fst (snd (post_sending ft net sleep e w))) p = polling_for (fst w) p"
    using sending_config(2)[OF b'(3)] b'(1) w by simp
next
  fix w :: "broker \<times> 'a" and p :: polling and d x :: string
  obtain b s where w: "w = (b, s)" by (cases w)
  assume d: "polling_for (fst w) p = Some d" "box (fst w) d \<noteq> []"
  then obtain b' where b': "poll_polling ft net sleep p w = (deserialize_all (map JStr (box b d)), (b', s))"
    "box b' d = []" "\<forall>x. x \<noteq> d \<longrightarrow> box b' x = box b x"
    using poll_polling_mail[of b p d ft net sleep s] w by auto
  show "fst (poll_polling ft net sleep p w) = deserialize_all (map JStr (box (fst w) d))" using b' w by simp
  show "box (fst (snd (poll_polling ft net sleep p w))) x = (if x = d then [] else box (fst w) x)" using b' w by simp
qed

section \<open>Property\<close>

lemma deserialize_all_valid:
  assumes "deserialize_all (map JStr old) = Inr ms" "\<forall>m \<in> set new. valid_message m \<and> wf_message m"
  shows "deserialize_all (map JStr (old @ map serialize new)) = Inr (ms @ new)"
  using assms(2)
proof (induction new rule: rev_induct)
  case (snoc m new)
  then have "deserialize_value (JStr (serialize m)) = Inr m"
    by (simp add: deserialize_value_def deserialize_serialize)
  from deserialize_all_append[OF snoc.IH this] snoc.prems show ?case by simp
qed (simp add: assms(1))

text \<open>
  Property C16. Any run of sends by any clients, each message valid and for an agent with a
  mailbox: every send succeeds, and the next poll of an agent returns exactly what was queued for
  it before followed by the messages of the run that were sent to it, equal in every field and in
  the order they were sent; nothing else is delivered to it and nobody else's mail is touched.
\<close>

theorem mail_in_order:
  assumes "\<forall>e \<in> set es. sending_to b e \<noteq> None" "polling_for b p = Some d"
    and "deserialize_all (map JStr (box b d)) = Inr old"
    and "new = map sd_message (filter (\<lambda>e. sending_to b e = Some d) es)" "old @ new \<noteq> []"
    and "run_all (post_sending ft net sleep) es (b, s) = (rs, w1)" "poll_polling ft net sleep p w1 = (ans, w2)"
  shows "rs = replicate (length es) (Inr None) \<and> ans = Inr (old @ new) \<and> box (fst w2) d = [] \<and>
    (x \<noteq> d \<longrightarrow> box (fst w2) x =
      box b x @ map (\<lambda>e. serialize (sd_message e)) (filter (\<lambda>e. sending_to b e = Some x) es))"
proof -
  have texts: "map (\<lambda>e. serialize (sd_message e)) (filter (\<lambda>e. sending_to b e = Some d) es) = map serialize new"
    by (simp add: assms(4) o_def)
  have "\<forall>m \<in> set new. valid_message m \<and> wf_message m"
    using assms(4) by (auto simp: sending_to_def split: if_splits)
  note read = deserialize_all_valid[OF assms(3) this]
  have "box b d @ map serialize new \<noteq> []" using assms(3,5) by auto
  with broker_mail.run_then_poll[of es "(b, s)" p d ft net sleep rs w1 ans w2] assms(1,2,6,7) texts read
  show ?thesis by simp
qed

text \<open>Alice sends two messages to Bob, who polls.\<close>

definition ping_sending :: sending where
  "ping_sending = \<lparr>sd_at = noon, sd_conn = alice_conn, sd_who = ''alice'', sd_message = ping, sd_timeout = ''5.0''\<rparr>"

definition bob_polling :: polling where
  "bob_polling = \<lparr>po_at = noon, po_conn = bob_conn, po_who = ''bob'', po_wait = ''25'', po_timeout = ''5.0''\<rparr>"

lemma ping_sending_to: "sending_to bob_broker ping_sending = Some ''bob''"
proof -
  have "length (serialize ping) < 400" by code_simp
  then show ?thesis using sample_clients ping_ok ping_queues by (simp add: sending_to_def ping_sending_def bob_frame)
qed

theorem mail_in_order_witness:
  "\<exists>w2. poll_polling half_text dead_net no_sleep bob_polling
      (snd (run_all (post_sending half_text dead_net no_sleep) [ping_sending, ping_sending] (bob_broker, ())))
    = (Inr [ping, ping], w2)"
proof -
  obtain rs w1 where r: "run_all (post_sending half_text dead_net no_sleep) [ping_sending, ping_sending] (bob_broker, ()) = (rs, w1)"
    by (cases "run_all (post_sending half_text dead_net no_sleep) [ping_sending, ping_sending] (bob_broker, ())")
  obtain ans w2 where q: "poll_polling half_text dead_net no_sleep bob_polling w1 = (ans, w2)"
    by (cases "poll_polling half_text dead_net no_sleep bob_polling w1")
  have "polling_for bob_broker bob_polling = Some ''bob''"
    using sample_clients by (simp add: polling_for_def bob_polling_def)
  from mail_in_order[OF _ this _ refl _ r q, of "[]"] ping_sending_to
  have "ans = Inr [ping, ping]" by (simp add: bob_box ping_sending_def)
  then show ?thesis unfolding r snd_conv q by blast
qed

end
