(* ===== verification/Agent.thy ===== *)
theory Agent
  imports Brokered_Props
begin

text \<open>
  The agent of the SDK, \<open>sdk/agent.py\<close>, with the wrappers \<open>sdk/brokered.py\<close> and
  \<open>sdk/brokered_request.py\<close> and the reply reader \<open>sdk/reply.py\<close>.

  An agent is a record of its attributes. What it talks to (its registry, transport and router)
  is a \<open>peer\<close>: a record of operations over a world, which holds the network and whatever the
  user's handlers change. The two peers of the code, in-process and brokered, are instances.

  Threads: every method is one step, a pool of workers is the queue of its tasks, and the
  receive loop is one step for each round. The wait of \<open>send_request\<close> is a function of the
  agent and the world: what the other threads do until the event is set or the time is over.
  Time stamp and message id of a message the agent creates are arguments (\<open>stamp\<close>).
\<close>

section \<open>Peers\<close>

type_synonym caps = "(string, json) dict"

record 's peer =
  pr_register :: "endpoint \<Rightarrow> caps option \<Rightarrow> ('s, unit) io"
  pr_unregister :: "string \<Rightarrow> ('s, unit) io"
  pr_send :: "message \<Rightarrow> endpoint \<Rightarrow> string \<Rightarrow> ('s, message option) io"
  pr_receive :: "string \<Rightarrow> string \<Rightarrow> string \<Rightarrow> ('s, message list) io"
  pr_route :: "message \<Rightarrow> string option \<Rightarrow> ('s, message option) io"

text \<open>The router of \<open>create_transport_pair("brokered")\<close>: its registry is the brokered one.\<close>

definition brokered_route ::
  "'s broker_net \<Rightarrow> broker_conn \<Rightarrow> (seconds \<Rightarrow> 's \<Rightarrow> 's) \<Rightarrow> router \<Rightarrow> message \<Rightarrow> string option \<Rightarrow>
   ('s, message option) io" where
  "brokered_route net c sleep rt m timeout s =
     (if \<not> py_truthy (recipient (meta m)) then (Inl (AgentNotFoundError ''message has no recipient''), s)
      else (case brokered_lookup net c (py_str (recipient (meta m))) s of
        (Inl e, s') \<Rightarrow> (Inl e, s')
      | (Inr ep, s') \<Rightarrow>
          retry_call (broker_send net c m (case timeout of None \<Rightarrow> rt_timeout rt | Some t \<Rightarrow> t))
            (rt_policy rt) sleep s'))"

definition brokered_peer ::
  "'s broker_net \<Rightarrow> broker_conn \<Rightarrow> (seconds \<Rightarrow> 's \<Rightarrow> 's) \<Rightarrow> router \<Rightarrow> 's peer" where
  "brokered_peer net c sleep rt =
     \<lparr>pr_register = brokered_register net c,
      pr_unregister = brokered_unregister net c,
      pr_send = (\<lambda>m ep timeout. broker_send net c m timeout),
      pr_receive = broker_receive net c,
      pr_route = brokered_route net c sleep rt\<rparr>"

text \<open>
  The in-process peer: the registry is part of the world, the other part is the network's.
  A \<open>TransportClient\<close> has no \<open>receive\<close>.
\<close>

definition on_world :: "('s, 'a) io \<Rightarrow> (registry \<times> 's, 'a) io" where
  "on_world f w = (case w of (r, s) \<Rightarrow> (case f s of (a, s') \<Rightarrow> (a, (r, s'))))"

definition in_process_peer ::
  "'s exchange \<Rightarrow> (seconds \<Rightarrow> 's \<Rightarrow> 's) \<Rightarrow> router \<Rightarrow> (registry \<times> 's) peer" where
  "in_process_peer net sleep rt =
     \<lparr>pr_register = (\<lambda>ep caps w. (Inr (), (reg_register ep (fst w), snd w))),
      pr_unregister = (\<lambda>a w. (case reg_unregister a (fst w) of
          Inl e \<Rightarrow> (Inl e, w) | Inr r \<Rightarrow> (Inr (), (r, snd w)))),
      pr_send = (\<lambda>m ep timeout. on_world (client_send net m ep timeout)),
      pr_receive = (\<lambda>a wait timeout w. (Inl (PyRuntimeError ''no receive''), w)),
      pr_route = (\<lambda>m timeout w. on_world (route net sleep rt (fst w) m timeout) w)\<rparr>"

section \<open>The agent\<close>

text \<open>A handler may create messages, with the stamp of its call.\<close>

record stamp =
  st_now :: string
  st_id :: string

type_synonym 's request_handler = "stamp \<Rightarrow> message \<Rightarrow> ('s, message option) io"
type_synonym 's notification_handler = "message \<Rightarrow> ('s, unit) io"

text \<open>
  \<open>ag_waiters\<close> has the slot of each pending request; its event is set when the slot is not
  empty. \<open>ag_tasks\<close> is the handler pool: \<open>None\<close> when there is none, or its queued tasks.
  \<open>ag_thread\<close> says whether \<open>_recv_thread\<close> is set, \<open>ag_loops\<close> how many receive loops run.
\<close>

record 's agent =
  ag_id :: string
  ag_timeout :: string
  ag_pull :: bool
  ag_host :: string
  ag_on_request :: "'s request_handler option"
  ag_on_notification :: "'s notification_handler option"
  ag_inbox :: "message list"
  ag_waiters :: "(string, message list) dict"
  ag_tasks :: "message list option"
  ag_thread :: bool
  ag_stopping :: bool
  ag_loops :: nat
  ag_server :: "endpoint option"

definition agent_init :: "string \<Rightarrow> string \<Rightarrow> bool \<Rightarrow> 's agent" where
  "agent_init agent_id timeout pull =
     \<lparr>ag_id = agent_id, ag_timeout = timeout, ag_pull = pull, ag_host = ''127.0.0.1'',
      ag_on_request = None, ag_on_notification = None, ag_inbox = [], ag_waiters = [], ag_tasks = None,
      ag_thread = False, ag_stopping = False, ag_loops = 0, ag_server = None\<rparr>"

definition on_request :: "'s request_handler \<Rightarrow> 's agent \<Rightarrow> 's agent" where
  "on_request h ag = ag\<lparr>ag_on_request := Some h\<rparr>"

definition on_notification :: "'s notification_handler \<Rightarrow> 's agent \<Rightarrow> 's agent" where
  "on_notification h ag = ag\<lparr>ag_on_notification := Some h\<rparr>"

definition no_handler :: "stamp \<Rightarrow> string \<Rightarrow> message \<Rightarrow> message" where
  "no_handler st agent_id m = error_to (st_now st) (st_id st) m ''no_handler''
     (''agent '' @ repr_str agent_id @ '' has no request handler'') (Some agent_id) []"

text \<open>\<open>_handle\<close>, with the agent and the world.\<close>

definition handle :: "stamp \<Rightarrow> message \<Rightarrow> ('s agent \<times> 's, message option) io" where
  "handle st m w = (case w of (ag, s) \<Rightarrow>
     (let ag' = ag\<lparr>ag_inbox := ag_inbox ag @ [m]\<rparr>
      in case mtype m of
           REQUEST \<Rightarrow> (case ag_on_request ag of
               Some h \<Rightarrow> (case h st m s of (r, s') \<Rightarrow> (r, (ag', s')))
             | None \<Rightarrow> (Inr (Some (no_handler st (ag_id ag) m)), (ag', s)))
         | NOTIFICATION \<Rightarrow> (case ag_on_notification ag of
               Some h \<Rightarrow> (case h m s of
                   (Inl e, s') \<Rightarrow> (Inl e, (ag', s'))
                 | (Inr _, s') \<Rightarrow> (Inr None, (ag', s')))
             | None \<Rightarrow> (Inr None, (ag', s)))
         | _ \<Rightarrow> (Inr None, (ag', s))))"

text \<open>
  \<open>receive_message\<close>, when no other thread puts a message while it waits: \<open>None\<close> is a wait
  without a limit.
\<close>

definition receive_message :: "string option \<Rightarrow> 's agent \<Rightarrow> (message result \<times> 's agent) option" where
  "receive_message timeout ag = (case ag_inbox ag of
     m # ms \<Rightarrow> Some (Inr m, ag\<lparr>ag_inbox := ms\<rparr>)
   | [] \<Rightarrow> (case timeout of
       Some t \<Rightarrow> Some (Inl (TransportTimeoutError (''no message received within '' @ t @ ''s'')), ag)
     | None \<Rightarrow> None))"

section \<open>Start and stop\<close>

definition pull_endpoint :: "string \<Rightarrow> endpoint" where
  "pull_endpoint agent_id = \<lparr>ep_agent_id = agent_id, ep_host = ''mailbox'', ep_port = 0,
     ep_scheme = ''http'', ep_path = DEFAULT_MESSAGE_PATH, ep_mailbox = True\<rparr>"

text \<open>The listening server: where it is bound, or the error of the socket.\<close>

type_synonym listener = "string \<Rightarrow> (string \<times> int) result"

definition agent_start :: "'s peer \<Rightarrow> listener \<Rightarrow> caps option \<Rightarrow> ('s agent \<times> 's, unit) io" where
  "agent_start pr listen given w = (case w of (ag, s) \<Rightarrow>
     (let caps = (case given of Some d \<Rightarrow> d | None \<Rightarrow> [])
      in if ag_pull ag then
           (if ag_thread ag then (Inr (), (ag, s))
            else (case pr_register pr (pull_endpoint (ag_id ag)) (Some caps) s of
                (Inl e, s') \<Rightarrow> (Inl e, (ag, s'))
              | (Inr _, s') \<Rightarrow>
                  (Inr (), (ag\<lparr>ag_tasks := Some [], ag_stopping := False, ag_thread := True,
                                ag_loops := ag_loops ag + 1\<rparr>, s'))))
         else
           (if ag_server ag \<noteq> None then (Inr (), (ag, s))
            else (case listen (ag_host ag) of
                Inl e \<Rightarrow> (Inl e, (ag, s))
              | Inr (host, port) \<Rightarrow>
                  (let ep = \<lparr>ep_agent_id = ag_id ag, ep_host = host, ep_port = port, ep_scheme = ''http'',
                             ep_path = DEFAULT_MESSAGE_PATH, ep_mailbox = False\<rparr>;
                       ag' = ag\<lparr>ag_server := Some ep\<rparr>
                   in case pr_register pr ep (Some caps) s of (r, s') \<Rightarrow> (r, (ag', s')))))))"

text \<open>\<open>suppress(AgentNotFoundError)\<close>.\<close>

definition ignore_not_found :: "unit result \<Rightarrow> unit result" where
  "ignore_not_found r = (case r of Inl (AgentNotFoundError m) \<Rightarrow> Inr () | _ \<Rightarrow> r)"

text \<open>
  \<open>stop\<close>. The argument \<open>joined\<close> is whether the receive loop ends within the two seconds
  \<open>join\<close> waits for it; a loop in its long poll ends later, at its next look at the flag.
\<close>

definition agent_stop :: "'s peer \<Rightarrow> bool \<Rightarrow> ('s agent \<times> 's, unit) io" where
  "agent_stop pr joined w = (case w of (ag, s) \<Rightarrow>
     (if ag_pull ag then
        (if \<not> ag_thread ag then (Inr (), (ag, s))
         else
           (let ag1 = ag\<lparr>ag_stopping := True, ag_tasks := None\<rparr>
            in case pr_unregister pr (ag_id ag) s of (r, s') \<Rightarrow>
              (case ignore_not_found r of
                 Inl e \<Rightarrow> (Inl e, (ag1, s'))
               | Inr _ \<Rightarrow>
                   (Inr (), (ag1\<lparr>ag_thread := False,
                      ag_loops := (if joined then ag_loops ag - 1 else ag_loops ag)\<rparr>, s')))))
      else
        (if ag_server ag = None then (Inr (), (ag, s))
         else (case pr_unregister pr (ag_id ag) s of (r, s') \<Rightarrow>
              (case ignore_not_found r of
                 Inl e \<Rightarrow> (Inl e, (ag, s'))
               | Inr _ \<Rightarrow> (Inr (), (ag\<lparr>ag_server := None\<rparr>, s')))))))"

section \<open>The receive loop\<close>

text \<open>\<open>_dispatch_pull\<close>: a reply goes to the slot of its request, any other message to the pool.\<close>

definition dispatch_pull :: "message \<Rightarrow> 's agent \<Rightarrow> 's agent" where
  "dispatch_pull m ag =
     (let submit = (case ag_tasks ag of
            Some ts \<Rightarrow> ag\<lparr>ag_tasks := Some (ts @ [m])\<rparr>
          | None \<Rightarrow> ag)
      in case correlation_id m of
           Some corr \<Rightarrow> (case dict_get (ag_waiters ag) corr of
               Some slot \<Rightarrow> ag\<lparr>ag_waiters := dict_set corr (slot @ [m]) (ag_waiters ag)\<rparr>
             | None \<Rightarrow> submit)
         | None \<Rightarrow> submit)"

definition PULL_POLL_WAIT :: string where
  "PULL_POLL_WAIT = ''20.0''"

definition PULL_POLL_TIMEOUT :: string where
  "PULL_POLL_TIMEOUT = ''30.0''"

datatype loop_end = Again | BackOff | LoopDies exn

text \<open>One round of \<open>_recv_loop\<close>. An exception that is not caught ends the thread.\<close>

definition recv_round :: "'s peer \<Rightarrow> 's agent \<times> 's \<Rightarrow> loop_end \<times> ('s agent \<times> 's)" where
  "recv_round pr w = (case w of (ag, s) \<Rightarrow>
     (case pr_receive pr (ag_id ag) PULL_POLL_WAIT PULL_POLL_TIMEOUT s of
        (Inr ms, s') \<Rightarrow> (Again, (fold dispatch_pull ms ag, s'))
      | (Inl e, s') \<Rightarrow>
          (case e of
             TransportTimeoutError m \<Rightarrow> (Again, (ag, s'))
           | _ \<Rightarrow> if is_transport_error e \<or> is_os_error e then (BackOff, (ag, s'))
                  else (LoopDies e, (ag\<lparr>ag_loops := ag_loops ag - 1\<rparr>, s')))))"

section \<open>The workers\<close>

definition handler_error :: "stamp \<Rightarrow> string \<Rightarrow> message \<Rightarrow> message" where
  "handler_error st agent_id m = error_to (st_now st) (st_id st) m ''handler_error''
     ''internal handler error'' (Some agent_id) []"

text \<open>\<open>reply.metadata.recipient or ""\<close>; a recipient that is no string has its text here.\<close>

definition reply_endpoint :: "message \<Rightarrow> endpoint" where
  "reply_endpoint reply = \<lparr>ep_agent_id = (if py_truthy (recipient (meta reply)) then py_str (recipient (meta reply)) else []),
     ep_host = ''broker'', ep_port = 0, ep_scheme = ''http'', ep_path = DEFAULT_MESSAGE_PATH, ep_mailbox = False\<rparr>"

definition reply_for :: "stamp \<Rightarrow> string \<Rightarrow> message \<Rightarrow> message option result \<Rightarrow> message option" where
  "reply_for st agent_id m r = (case r of
     Inr reply \<Rightarrow> reply
   | Inl e \<Rightarrow> if mtype m = REQUEST then Some (handler_error st agent_id m) else None)"

text \<open>\<open>_run_handler\<close>: the outcome of the reply's \<open>send\<close> is suppressed.\<close>

definition run_handler :: "'s peer \<Rightarrow> stamp \<Rightarrow> message \<Rightarrow> 's agent \<times> 's \<Rightarrow> 's agent \<times> 's" where
  "run_handler pr st m w = (case handle st m w of (r, (ag, s)) \<Rightarrow>
     (case reply_for st (ag_id ag) m r of
        None \<Rightarrow> (ag, s)
      | Some reply \<Rightarrow> (ag, snd (pr_send pr reply (reply_endpoint reply) (ag_timeout ag) s))))"

text \<open>A worker takes the first task of the pool and runs it.\<close>

definition run_task :: "'s peer \<Rightarrow> stamp \<Rightarrow> 's agent \<times> 's \<Rightarrow> 's agent \<times> 's" where
  "run_task pr st w = (case w of (ag, s) \<Rightarrow>
     (case ag_tasks ag of
        Some (m # ts) \<Rightarrow> run_handler pr st m (ag\<lparr>ag_tasks := Some ts\<rparr>, s)
      | _ \<Rightarrow> (ag, s)))"

section \<open>Sending\<close>

definition build_request :: "stamp \<Rightarrow> string \<Rightarrow> string \<Rightarrow> (string, json) dict option \<Rightarrow> (string, json) dict \<Rightarrow> message" where
  "build_request st agent_id rcp b ext =
     mk_request (st_id st) (metadata_create (st_now st) (JStr agent_id) (JStr rcp) ext)
       (case b of Some d \<Rightarrow> d | None \<Rightarrow> [])"

definition build_notification :: "stamp \<Rightarrow> string \<Rightarrow> string \<Rightarrow> (string, json) dict option \<Rightarrow> (string, json) dict \<Rightarrow> message" where
  "build_notification st agent_id rcp b ext =
     mk_notification (st_id st) (metadata_create (st_now st) (JStr agent_id) (JStr rcp) ext)
       (case b of Some d \<Rightarrow> d | None \<Rightarrow> [])"

definition request_endpoint :: "string \<Rightarrow> endpoint" where
  "request_endpoint rcp = \<lparr>ep_agent_id = rcp, ep_host = ''broker'', ep_port = 0, ep_scheme = ''http'',
     ep_path = DEFAULT_MESSAGE_PATH, ep_mailbox = False\<rparr>"

definition add_waiter :: "string \<Rightarrow> 's agent \<Rightarrow> 's agent" where
  "add_waiter key ag = ag\<lparr>ag_waiters := dict_set key [] (ag_waiters ag)\<rparr>"

definition drop_waiter :: "string \<Rightarrow> 's agent \<Rightarrow> 's agent" where
  "drop_waiter key ag = ag\<lparr>ag_waiters := dict_pop key (ag_waiters ag)\<rparr>"

text \<open>
  \<open>_send_request_pull\<close>. The slot is a list that the waiting thread keeps even if another call
  replaces the entry, so it is read before the entry is dropped; here it is the entry of the key.
\<close>

definition begin_request :: "'s peer \<Rightarrow> message \<Rightarrow> string \<Rightarrow> ('s agent \<times> 's, unit) io" where
  "begin_request pr m rcp w = (case w of (ag, s) \<Rightarrow>
     (let ag' = add_waiter (message_id m) ag
      in case pr_send pr m (request_endpoint rcp) (ag_timeout ag) s of
           (Inl e, s') \<Rightarrow> (Inl e, (drop_waiter (message_id m) ag', s'))
         | (Inr _, s') \<Rightarrow> (Inr (), (ag', s'))))"

definition end_request :: "message \<Rightarrow> string \<Rightarrow> string \<Rightarrow> 's agent \<Rightarrow> message result \<times> 's agent" where
  "end_request m rcp wait_timeout ag =
     ((case dict_get (ag_waiters ag) (message_id m) of
         Some (reply # _) \<Rightarrow> Inr reply
       | _ \<Rightarrow> Inl (TransportTimeoutError (''no reply from '' @ repr_str rcp @ '' within '' @ wait_timeout @ ''s''))),
      drop_waiter (message_id m) ag)"

definition send_request_pull ::
  "'s peer \<Rightarrow> ('s agent \<times> 's \<Rightarrow> 's agent \<times> 's) \<Rightarrow> message \<Rightarrow> string \<Rightarrow> string option \<Rightarrow> ('s agent \<times> 's, message) io" where
  "send_request_pull pr wait m rcp timeout w = (case begin_request pr m rcp w of
     (Inl e, w') \<Rightarrow> (Inl e, w')
   | (Inr _, w') \<Rightarrow> (case wait w' of (ag, s) \<Rightarrow>
       (case end_request m rcp (case timeout of None \<Rightarrow> ag_timeout ag | Some t \<Rightarrow> t) ag of
          (r, ag') \<Rightarrow> (r, (ag', s)))))"

definition send_request ::
  "'s peer \<Rightarrow> ('s agent \<times> 's \<Rightarrow> 's agent \<times> 's) \<Rightarrow> stamp \<Rightarrow> string \<Rightarrow> (string, json) dict option \<Rightarrow> string option \<Rightarrow>
   (string, json) dict \<Rightarrow> ('s agent \<times> 's, message) io" where
  "send_request pr wait st rcp b timeout ext w = (case w of (ag, s) \<Rightarrow>
     (let m = build_request st (ag_id ag) rcp b ext
      in if ag_pull ag then send_request_pull pr wait m rcp timeout w
         else (case pr_route pr m timeout s of
            (Inl e, s') \<Rightarrow> (Inl e, (ag, s'))
          | (Inr None, s') \<Rightarrow> (Inl (DeliveryError (''no reply received from '' @ repr_str rcp) None), (ag, s'))
          | (Inr (Some reply), s') \<Rightarrow> (Inr reply, (ag, s')))))"

definition send_notification ::
  "'s peer \<Rightarrow> stamp \<Rightarrow> string \<Rightarrow> (string, json) dict option \<Rightarrow> (string, json) dict \<Rightarrow> ('s agent \<times> 's, unit) io" where
  "send_notification pr st rcp b ext w = (case w of (ag, s) \<Rightarrow>
     (case pr_route pr (build_notification st (ag_id ag) rcp b ext) None s of
        (Inl e, s') \<Rightarrow> (Inl e, (ag, s'))
      | (Inr _, s') \<Rightarrow> (Inr (), (ag, s'))))"

section \<open>BrokeredAgent (brokered.py)\<close>

definition brokered_agent_init ::
  "string \<Rightarrow> string \<Rightarrow> 's request_handler option \<Rightarrow> 's notification_handler option \<Rightarrow> 's agent" where
  "brokered_agent_init agent_id timeout req_handler ntf_handler =
     (let ag = agent_init agent_id timeout True;
          ag = (case req_handler of Some h \<Rightarrow> on_request h ag | None \<Rightarrow> ag)
      in case ntf_handler of Some h \<Rightarrow> on_notification h ag | None \<Rightarrow> ag)"

definition brokered_agent_start :: "'s peer \<Rightarrow> caps \<Rightarrow> ('s agent \<times> 's, unit) io" where
  "brokered_agent_start pr registration_capabilities w =
     agent_start pr (\<lambda>h. Inl (PyOSError [])) (Some registration_capabilities) w"

text \<open>The other methods hand on to the agent inside.\<close>

definition brokered_on_request :: "'s request_handler \<Rightarrow> 's agent \<Rightarrow> 's agent" where
  "brokered_on_request h ag = on_request h ag"

definition brokered_on_notification :: "'s notification_handler \<Rightarrow> 's agent \<Rightarrow> 's agent" where
  "brokered_on_notification h ag = on_notification h ag"

definition brokered_send_request ::
  "'s peer \<Rightarrow> ('s agent \<times> 's \<Rightarrow> 's agent \<times> 's) \<Rightarrow> stamp \<Rightarrow> string \<Rightarrow> (string, json) dict option \<Rightarrow> string option \<Rightarrow>
   (string, json) dict \<Rightarrow> ('s agent \<times> 's, message) io" where
  "brokered_send_request pr wait st rcp b timeout ext w = send_request pr wait st rcp b timeout ext w"

definition brokered_send_notification ::
  "'s peer \<Rightarrow> stamp \<Rightarrow> string \<Rightarrow> (string, json) dict option \<Rightarrow> (string, json) dict \<Rightarrow> ('s agent \<times> 's, unit) io" where
  "brokered_send_notification pr st rcp b ext w = send_notification pr st rcp b ext w"

definition brokered_agent_stop :: "'s peer \<Rightarrow> bool \<Rightarrow> ('s agent \<times> 's, unit) io" where
  "brokered_agent_stop pr joined w = agent_stop pr joined w"

section \<open>Replies (reply.py, brokered_request.py)\<close>

definition reply_text :: "json \<Rightarrow> string \<Rightarrow> string" where
  "reply_text b def = (case b of
     JDict d \<Rightarrow>
       (let reply = get_default d ''reply'' JNull
        in if reply \<noteq> JNull \<and> reply \<noteq> JStr [] then
             (case reply of JStr t \<Rightarrow> t | _ \<Rightarrow> py_str reply)
           else def)
   | _ \<Rightarrow> def)"

definition unwrap_reply :: "string \<Rightarrow> string \<Rightarrow> message \<Rightarrow> string result" where
  "unwrap_reply target def reply =
     (if mtype reply = ERROR
      then Inl (PyRuntimeError (''brokered request to '' @ repr_str target @ '' failed: '' @
             py_str (get_default (body reply) ''message'' JNull)))
      else Inr (reply_text (JDict (body reply)) def))"

text \<open>
  \<open>BrokeredRequester.request\<close>: a fresh agent for one request. The agent is stopped whether the
  request succeeds or not; an exception of \<open>stop\<close> takes the place of the result.
\<close>

definition requester_request ::
  "'s peer \<Rightarrow> ('s agent \<times> 's \<Rightarrow> 's agent \<times> 's) \<Rightarrow> stamp \<Rightarrow> bool \<Rightarrow> string \<Rightarrow> string \<Rightarrow> string \<Rightarrow>
   (string, json) dict option \<Rightarrow> string \<Rightarrow> ('s, string) io" where
  "requester_request pr wait st joined agent_id target timeout payload def s =
     (case agent_start pr (\<lambda>h. Inl (PyOSError [])) None (agent_init agent_id timeout True, s) of
        (Inl e, (ag, s1)) \<Rightarrow> (Inl e, s1)
      | (Inr _, w1) \<Rightarrow>
          (case send_request pr wait st target payload (Some timeout) [] w1 of (r, w2) \<Rightarrow>
             (case agent_stop pr joined w2 of
                (Inl e, (ag, s3)) \<Rightarrow> (Inl e, s3)
              | (Inr _, (ag, s3)) \<Rightarrow>
                  (case r of Inl e \<Rightarrow> (Inl e, s3) | Inr reply \<Rightarrow> (unwrap_reply target def reply, s3)))))"

record brokered_requester =
  rqr_agent_id :: string
  rqr_target_agent_id :: string
  rqr_conn :: broker_conn
  rqr_timeout :: string
  rqr_default_reply :: string

definition brokered_requester_init ::
  "string \<Rightarrow> string \<Rightarrow> string \<Rightarrow> string option \<Rightarrow> int \<Rightarrow> string \<Rightarrow> string \<Rightarrow> string \<Rightarrow> brokered_requester" where
  "brokered_requester_init agent_id target_agent_id broker_host broker_token broker_port broker_scheme timeout default_reply =
     \<lparr>rqr_agent_id = agent_id, rqr_target_agent_id = target_agent_id,
      rqr_conn = \<lparr>bc_host = broker_host, bc_port = broker_port, bc_scheme = broker_scheme, bc_token = broker_token\<rparr>,
      rqr_timeout = timeout, rqr_default_reply = default_reply\<rparr>"

definition brokered_request ::
  "'s broker_net \<Rightarrow> (seconds \<Rightarrow> 's \<Rightarrow> 's) \<Rightarrow> router \<Rightarrow> ('s agent \<times> 's \<Rightarrow> 's agent \<times> 's) \<Rightarrow> stamp \<Rightarrow> bool \<Rightarrow>
   brokered_requester \<Rightarrow> (string, json) dict option \<Rightarrow> string option \<Rightarrow> string option \<Rightarrow> ('s, string) io" where
  "brokered_request net sleep rt wait st joined rq payload timeout def s =
     requester_request (brokered_peer net (rqr_conn rq) sleep rt) wait st joined (rqr_agent_id rq) (rqr_target_agent_id rq)
       (case timeout of None \<Rightarrow> rqr_timeout rq | Some t \<Rightarrow> t) payload
       (case def of None \<Rightarrow> rqr_default_reply rq | Some d \<Rightarrow> d) s"

end
