(* ===== verification/Responder.thy ===== *)
theory Responder
  imports Agent "HOL-Library.Char_ord" "HOL-Library.List_Lexorder"
begin

text \<open>
  \<open>BrokeredResponder\<close> of \<open>sdk/responder.py\<close>: typed request kinds dispatched to handlers.
  A handler gets the request and its parameters and changes a world, as the agent's handlers do.
  The methods of the class are a table by name, so that a subclass is another table.
\<close>

type_synonym 's kind_handler = "message \<Rightarrow> (string, json) dict \<Rightarrow> ('s, (string, json) dict) io"

record 's responder =
  rs_agent_id :: string
  rs_extra_handlers :: "(string, 's kind_handler) dict"
  rs_builtin :: "(string, string) dict"
  rs_methods :: "(string, 's kind_handler) dict"

definition BUILTIN_HANDLERS :: "(string, string) dict" where
  "BUILTIN_HANDLERS = [(''monitor'', ''handle_monitor''), (''config-get'', ''handle_config_get''),
     (''config-set'', ''handle_config_set'')]"

definition handle_monitor :: "'s kind_handler" where
  "handle_monitor request params s = (Inl (PyNotImplementedError ''handle_monitor not implemented''), s)"

definition handle_config_get :: "'s kind_handler" where
  "handle_config_get request params s = (Inl (PyNotImplementedError ''handle_config_get not implemented''), s)"

definition handle_config_set :: "'s kind_handler" where
  "handle_config_set request params s = (Inl (PyNotImplementedError ''handle_config_set not implemented''), s)"

definition responder_init :: "string \<Rightarrow> 's responder" where
  "responder_init agent_id =
     \<lparr>rs_agent_id = agent_id, rs_extra_handlers = [], rs_builtin = BUILTIN_HANDLERS,
      rs_methods = [(''handle_monitor'', handle_monitor), (''handle_config_get'', handle_config_get),
        (''handle_config_set'', handle_config_set)]\<rparr>"

definition register_handler :: "string \<Rightarrow> 's kind_handler \<Rightarrow> 's responder \<Rightarrow> 's responder" where
  "register_handler kind h rs = rs\<lparr>rs_extra_handlers := dict_set kind h (rs_extra_handlers rs)\<rparr>"

definition supported_kinds :: "'s responder \<Rightarrow> string list" where
  "supported_kinds rs = sort (remdups (map fst (rs_builtin rs) @ map fst (rs_extra_handlers rs)))"

definition registration_capabilities :: "'s responder \<Rightarrow> caps" where
  "registration_capabilities rs = [(''supported_kinds'', JList (map JStr (supported_kinds rs)))]"

definition lookup_handler :: "'s responder \<Rightarrow> string \<Rightarrow> 's kind_handler option" where
  "lookup_handler rs kind = (case dict_get (rs_extra_handlers rs) kind of
     Some h \<Rightarrow> Some h
   | None \<Rightarrow> (case dict_get (rs_builtin rs) kind of
       Some method_name \<Rightarrow> dict_get (rs_methods rs) method_name
     | None \<Rightarrow> None))"

text \<open>\<open>_dispatch\<close>; the body of a message is a dict, so its first check never fails.\<close>

definition kind_error :: "stamp \<Rightarrow> 's responder \<Rightarrow> message \<Rightarrow> string \<Rightarrow> string \<Rightarrow> message" where
  "kind_error st rs request code msg =
     error_to (st_now st) (st_id st) request code msg (Some (rs_agent_id rs)) []"

definition params_of :: "message \<Rightarrow> (string, json) dict" where
  "params_of request = (case as_dict (get_default (body request) ''params'' (JDict [])) of
     Some d \<Rightarrow> d | None \<Rightarrow> [])"

definition dispatch :: "stamp \<Rightarrow> 's responder \<Rightarrow> message \<Rightarrow> ('s, message) io" where
  "dispatch st rs request s =
     (let kind = get_default (body request) ''kind'' JNull
      in if \<not> nonempty_str kind
         then (Inr (kind_error st rs request ''invalid_request'' (''missing or invalid '' @ repr_str ''kind'' @ '' in request body'')), s)
         else (case lookup_handler rs (key_text kind) of
           None \<Rightarrow> (Inr (kind_error st rs request ''unknown_kind'' (''unknown request kind: '' @ py_repr kind)), s)
         | Some handler \<Rightarrow> (case handler request (params_of request) s of
             (Inl e, s') \<Rightarrow> (Inr (kind_error st rs request ''handler_error'' (exn_str e)), s')
           | (Inr result, s') \<Rightarrow>
               (response_to (st_now st) (st_id st) request (Some result) (Some (rs_agent_id rs)) [], s'))))"

text \<open>\<open>self.on_request(self._dispatch)\<close>.\<close>

definition dispatch_handler :: "'s responder \<Rightarrow> 's request_handler" where
  "dispatch_handler rs st m s = (case dispatch st rs m s of
     (Inl e, s') \<Rightarrow> (Inl e, s') | (Inr r, s') \<Rightarrow> (Inr (Some r), s'))"

definition responder_agent :: "'s responder \<Rightarrow> string \<Rightarrow> 's agent" where
  "responder_agent rs timeout = brokered_agent_init (rs_agent_id rs) timeout (Some (dispatch_handler rs)) None"

end
