(* ===== verification/Responder_Props.thy ===== *)
theory Responder_Props
  imports Responder
begin

text \<open>
  What a responder promises: its dispatcher answers every request with a message that correlates
  with it and never raises, and the kinds it advertises are the kinds it has a handler for.
\<close>

section \<open>Dispatch\<close>

text \<open>The handler that a request selects, if any.\<close>

definition selected :: "'s responder \<Rightarrow> message \<Rightarrow> 's kind_handler option" where
  "selected rs request =
     (let kind = get_default (body request) ''kind'' JNull
      in if nonempty_str kind then lookup_handler rs (key_text kind) else None)"

lemma dispatch_cases:
  "dispatch st rs request s =
     (case selected rs request of
        Some h \<Rightarrow> (case h request (params_of request) s of
            (Inr result, s') \<Rightarrow> (response_to (st_now st) (st_id st) request (Some result) (Some (rs_agent_id rs)) [], s')
          | (Inl e, s') \<Rightarrow> (Inr (kind_error st rs request ''handler_error'' (exn_str e)), s'))
      | None \<Rightarrow>
          (Inr (if nonempty_str (get_default (body request) ''kind'' JNull)
            then kind_error st rs request ''unknown_kind''
              (''unknown request kind: '' @ py_repr (get_default (body request) ''kind'' JNull))
            else kind_error st rs request ''invalid_request''
              (''missing or invalid '' @ repr_str ''kind'' @ '' in request body'')), s))"
  by (auto simp: dispatch_def selected_def Let_def split: option.split sum.split prod.split)

text \<open>Who a reply answers.\<close>

definition answers :: "'s responder \<Rightarrow> message \<Rightarrow> message \<Rightarrow> bool" where
  "answers rs request reply \<longleftrightarrow> correlation_id reply = Some (message_id request) \<and>
     recipient (meta reply) = sender (meta request) \<and> sender (meta reply) = JStr (rs_agent_id rs)"

lemma kind_error_answers [simp]: "answers rs request (kind_error st rs request code msg)"
  by (simp add: answers_def kind_error_def error_to_def build_reply_metadata_def metadata_create_def)

lemma kind_error_fields [simp]:
  "mtype (kind_error st rs request code msg) = ERROR"
  "get_default (body (kind_error st rs request code msg)) ''code'' d = JStr code"
  "get_default (body (kind_error st rs request code msg)) ''message'' d = JStr msg"
  by (simp_all add: kind_error_def error_to_def error_body_def dict_of_pairs_def get_default_def dict_simps)

lemma response_answers:
  "\<exists>reply. response_to now mid request (Some result) (Some (rs_agent_id rs)) [] = Inr reply \<and>
     answers rs request reply \<and> mtype reply = RESPONSE \<and> body reply = result"
  by (simp add: response_to_def mk_response_def answers_def build_reply_metadata_def metadata_create_def)

lemma dispatch_replies_lemma:
  "\<exists>reply s'. dispatch st rs request s = (Inr reply, s') \<and> answers rs request reply \<and>
     (mtype reply = ERROR \<or> mtype reply = RESPONSE)"
  using response_answers[of "st_now st" "st_id st" request _ rs]
  by (auto simp: dispatch_cases split: option.splits sum.splits prod.splits)

section \<open>Advertised kinds\<close>

text \<open>Every built-in kind names a method that exists.\<close>

definition methods_exist :: "'s responder \<Rightarrow> bool" where
  "methods_exist rs \<longleftrightarrow> (\<forall>k name. dict_get (rs_builtin rs) k = Some name \<longrightarrow> dict_get (rs_methods rs) name \<noteq> None)"

lemma supported_iff:
  "k \<in> set (supported_kinds rs) \<longleftrightarrow> dict_get (rs_builtin rs) k \<noteq> None \<or> dict_get (rs_extra_handlers rs) k \<noteq> None"
  by (simp add: supported_kinds_def map_of_eq_None_iff)

lemma lookup_supported: "methods_exist rs \<Longrightarrow> lookup_handler rs k \<noteq> None \<longleftrightarrow> k \<in> set (supported_kinds rs)"
  by (auto simp: supported_iff lookup_handler_def methods_exist_def split: option.splits)

lemma supported_sorted: "sorted (supported_kinds rs) \<and> distinct (supported_kinds rs)"
  by (simp add: supported_kinds_def)

lemma register_methods [simp]: "methods_exist (register_handler k h rs) = methods_exist rs"
  by (simp add: methods_exist_def register_handler_def)

lemma init_methods: "methods_exist (responder_init agent_id)"
  by (simp add: methods_exist_def responder_init_def BUILTIN_HANDLERS_def)

lemma register_supported:
  "set (supported_kinds (register_handler k h rs)) = insert k (set (supported_kinds rs))"
  by (auto simp: supported_iff register_handler_def dict_simps split: if_splits)

section \<open>Properties\<close>

text \<open>
  Property C27. The dispatcher answers every request with exactly one message and raises
  nothing, whatever the body is and the handler does: a response with the handler's result when
  the handler returns, an error otherwise. The reply carries the id of the request, goes back to
  its sender and names the responder.
\<close>

theorem dispatch_replies:
  "\<exists>reply s'. dispatch st rs request s = (Inr reply, s') \<and> answers rs request reply \<and>
     (case selected rs request of
        None \<Rightarrow> s' = s \<and> mtype reply = ERROR \<and> get_default (body reply) ''code'' JNull =
          JStr (if nonempty_str (get_default (body request) ''kind'' JNull) then ''unknown_kind'' else ''invalid_request'')
      | Some h \<Rightarrow> (case h request (params_of request) s of
          (Inr result, s1) \<Rightarrow> s' = s1 \<and> mtype reply = RESPONSE \<and> body reply = result
        | (Inl e, s1) \<Rightarrow> s' = s1 \<and> mtype reply = ERROR \<and>
            get_default (body reply) ''code'' JNull = JStr ''handler_error'' \<and>
            get_default (body reply) ''message'' JNull = JStr (exn_str e)))"
proof (cases "selected rs request")
  case None
  then show ?thesis by (simp add: dispatch_cases)
next
  case (Some h)
  obtain r s1 where h: "h request (params_of request) s = (r, s1)" by fastforce
  show ?thesis
  proof (cases r)
    case (Inl e)
    with Some h show ?thesis by (simp add: dispatch_cases)
  next
    case (Inr result)
    obtain reply where "response_to (st_now st) (st_id st) request (Some result) (Some (rs_agent_id rs)) [] = Inr reply"
      "answers rs request reply" "mtype reply = RESPONSE" "body reply = result"
      using response_answers by blast
    with Some h Inr show ?thesis by (simp add: dispatch_cases)
  qed
qed

text \<open>
  A responder advertises exactly the kinds it serves: the list is sorted and
  without repetitions, a request for a kind of the list is never answered with
  \<open>unknown_kind\<close>, and a request for any other kind always is. Registering a handler adds
  its kind and takes precedence over a built-in one.
\<close>

theorem responder_serves_advertised:
  assumes "methods_exist rs" "get_default (body request) ''kind'' JNull = JStr k" "k \<noteq> []"
  shows "sorted (supported_kinds rs) \<and> distinct (supported_kinds rs) \<and>
    (k \<in> set (supported_kinds rs) \<longleftrightarrow>
      (\<forall>reply s'. dispatch st rs request s = (Inr reply, s') \<longrightarrow>
         \<not> (mtype reply = ERROR \<and> get_default (body reply) ''code'' JNull = JStr ''unknown_kind''))) \<and>
    lookup_handler (register_handler k h rs) k = Some h"
proof -
  have sel: "selected rs request = lookup_handler rs k"
    using assms(2,3) by (simp add: selected_def nonempty_str_def key_text_def)
  have "k \<in> set (supported_kinds rs) \<longleftrightarrow>
      (\<forall>reply s'. dispatch st rs request s = (Inr reply, s') \<longrightarrow>
         \<not> (mtype reply = ERROR \<and> get_default (body reply) ''code'' JNull = JStr ''unknown_kind''))"
  proof (cases "lookup_handler rs k")
    case None
    then have "k \<notin> set (supported_kinds rs)" using lookup_supported[OF assms(1), of k] by blast
    moreover have "nonempty_str (JStr k)" using assms(3) by (simp add: nonempty_str_def)
    ultimately show ?thesis using None sel assms(2) by (simp add: dispatch_cases)
  next
    case (Some h)
    then have "k \<in> set (supported_kinds rs)" using lookup_supported[OF assms(1), of k] by blast
    moreover obtain r s1 where "h request (params_of request) s = (r, s1)" by fastforce
    ultimately show ?thesis
      using Some sel by (cases r) (auto simp: dispatch_cases response_to_Inr)
  qed
  moreover have "lookup_handler (register_handler k h rs) k = Some h"
    by (simp add: lookup_handler_def register_handler_def dict_simps)
  ultimately show ?thesis using supported_sorted by blast
qed

definition echo_handler :: "'s kind_handler" where
  "echo_handler request params s = (Inr params, s)"

definition echo_responder :: "'s responder" where
  "echo_responder = register_handler ''echo'' echo_handler (responder_init ''bob'')"

definition echo_request :: message where
  "echo_request = mk_request ''m-1'' (metadata_create ''t'' (JStr ''alice'') (JStr ''bob'') [])
     [(''kind'', JStr ''echo''), (''params'', JDict [(''x'', JInt 1)])]"

theorem responder_serves_advertised_witness:
  "supported_kinds (echo_responder :: unit responder) = [''config-get'', ''config-set'', ''echo'', ''monitor''] \<and>
   fst (dispatch \<lparr>st_now = ''t'', st_id = ''m-2''\<rparr> (echo_responder :: unit responder) echo_request ()) \<noteq>
     Inr (kind_error \<lparr>st_now = ''t'', st_id = ''m-2''\<rparr> (echo_responder :: unit responder) echo_request ''unknown_kind'' [])"
proof -
  let ?rs = "echo_responder :: unit responder" and ?st = "\<lparr>st_now = ''t'', st_id = ''m-2''\<rparr>"
  have kinds: "supported_kinds ?rs = [''config-get'', ''config-set'', ''echo'', ''monitor'']"
    by code_simp
  have m: "methods_exist ?rs" by (simp add: echo_responder_def init_methods)
  have k: "get_default (body echo_request) ''kind'' JNull = JStr ''echo''"
    by (simp add: echo_request_def mk_request_def get_default_def)
  obtain r s' where r: "dispatch ?st ?rs echo_request () = (r, s')"
    by (cases "dispatch ?st ?rs echo_request ()")
  with responder_serves_advertised[OF m k, of ?st "()" echo_handler] kinds
  have "r \<noteq> Inr (kind_error ?st ?rs echo_request ''unknown_kind'' [])" by auto
  with kinds r show ?thesis by simp
qed

end
