(* ===== verification/Lifecycle.thy ===== *)
theory Lifecycle
  imports Broker_Config Responder_Props
begin

text \<open>
  The lifecycle server, \<open>lifecycle/\<close>: the configuration of \<open>config.py\<close>, the tracing wrapper
  of \<open>tracing.py\<close>, the responder of \<open>server.py\<close> and the backends of \<open>backend.py\<close>.

  The Langfuse client is a parameter: its construction may fail, and what it does with a trace or
  an event is a function of the world. Running a command is a parameter as well.
\<close>

section \<open>Configuration (config.py)\<close>

record lifecycle_config =
  lc_agent_id :: string
  lc_broker_host :: string
  lc_broker_port :: int
  lc_broker_scheme :: string
  lc_broker_token :: "string option"
  lc_broker_tls_ca :: "string option"
  lc_langfuse_public_key :: "string option"
  lc_langfuse_secret_key :: "string option"
  lc_langfuse_host :: "string option"

text \<open>\<open>validate\<close>: whether it warns about a missing token.\<close>

definition lifecycle_warns :: "lifecycle_config \<Rightarrow> bool" where
  "lifecycle_warns c = missing (lc_broker_token c)"

definition lifecycle_from_env :: "environ \<Rightarrow> (lifecycle_config \<times> bool) result" where
  "lifecycle_from_env env =
     (case env_int (env_get env ''ROBOTSIX_LIFECYCLE_BROKER_PORT'' ''8443'') of
        Inl e \<Rightarrow> Inl e
      | Inr port \<Rightarrow>
          (let c = \<lparr>lc_agent_id = env_get env ''ROBOTSIX_LIFECYCLE_AGENT_ID'' ''lifecycle-server'',
                    lc_broker_host = env_get env ''ROBOTSIX_LIFECYCLE_BROKER_HOST'' ''localhost'',
                    lc_broker_port = port,
                    lc_broker_scheme = env_get env ''ROBOTSIX_LIFECYCLE_BROKER_SCHEME'' ''https'',
                    lc_broker_token = or_none (env_get env ''ROBOTSIX_LIFECYCLE_BROKER_TOKEN'' []),
                    lc_broker_tls_ca = or_none (env_get env ''ROBOTSIX_LIFECYCLE_BROKER_TLS_CA'' []),
                    lc_langfuse_public_key = or_none (env_get env ''ROBOTSIX_LIFECYCLE_LANGFUSE_PUBLIC_KEY'' []),
                    lc_langfuse_secret_key = or_none (env_get env ''ROBOTSIX_LIFECYCLE_LANGFUSE_SECRET_KEY'' []),
                    lc_langfuse_host = or_none (env_get env ''ROBOTSIX_LIFECYCLE_LANGFUSE_HOST'' [])\<rparr>
           in Inr (c, lifecycle_warns c)))"

section \<open>Tracing (tracing.py)\<close>

text \<open>
  A Langfuse client as the wrapper uses it: open a trace (which gives a span), record an event in
  a span, close the span, and record an event outside of a span.
\<close>

record 's langfuse =
  lf_trace :: "string \<Rightarrow> ('s, nat) io"
  lf_span_event :: "nat \<Rightarrow> string \<Rightarrow> (string, json) dict \<Rightarrow> ('s, unit) io"
  lf_exit :: "nat \<Rightarrow> ('s, unit) io"
  lf_event :: "string \<Rightarrow> string option \<Rightarrow> ('s, unit) io"

type_synonym 's tracing = "'s langfuse option"

text \<open>\<open>installed\<close> is \<open>_HAS_LANGFUSE\<close>; \<open>connect\<close> is the constructor of the client.\<close>

definition tracing_init ::
  "bool \<Rightarrow> (string \<Rightarrow> string \<Rightarrow> string option \<Rightarrow> 's langfuse result) \<Rightarrow> string option \<Rightarrow> string option \<Rightarrow>
   string option \<Rightarrow> 's tracing" where
  "tracing_init installed connect public_key secret_key host =
     (if \<not> installed then None
      else if missing public_key \<or> missing secret_key then None
      else (case connect (the public_key) (the secret_key) host of
        Inr client \<Rightarrow> Some client
      | Inl e \<Rightarrow> None))"

definition tracing_enabled :: "'s tracing \<Rightarrow> bool" where
  "tracing_enabled tr = (tr \<noteq> None)"

definition tracing_event :: "'s tracing \<Rightarrow> string \<Rightarrow> string option \<Rightarrow> ('s, unit) io" where
  "tracing_event tr name trace_id s = (case tr of
     None \<Rightarrow> (Inr (), s)
   | Some client \<Rightarrow> lf_event client name trace_id s)"

text \<open>
  \<open>with self.tracing.trace(name) as span: span.event(...); return result\<close>, as the server uses
  it: an exception of the event leaves through the span's exit.
\<close>

definition traced :: "'s langfuse \<Rightarrow> string \<Rightarrow> string \<Rightarrow> (string, json) dict \<Rightarrow> 'a \<Rightarrow> ('s, 'a) io" where
  "traced client name event_name metadata result s =
     (case lf_trace client name s of
        (Inl e, s1) \<Rightarrow> (Inl e, s1)
      | (Inr sp, s1) \<Rightarrow> (case lf_span_event client sp event_name metadata s1 of
          (r, s2) \<Rightarrow> (case lf_exit client sp s2 of
              (Inl e, s3) \<Rightarrow> (Inl e, s3)
            | (Inr _, s3) \<Rightarrow> (case r of Inl e \<Rightarrow> (Inl e, s3) | Inr _ \<Rightarrow> (Inr result, s3)))))"

section \<open>The server (server.py)\<close>

definition status_result :: "string \<Rightarrow> 's tracing \<Rightarrow> (string, json) dict" where
  "status_result agent_id tr =
     [(''status'', JStr ''ok''), (''agent_id'', JStr agent_id), (''tracing_enabled'', JBool (tracing_enabled tr))]"

definition build_status_result ::
  "string \<Rightarrow> 's tracing \<Rightarrow> string \<Rightarrow> string \<Rightarrow> ('s, (string, json) dict) io" where
  "build_status_result agent_id tr check_name span_name s = (case tr of
     Some client \<Rightarrow> traced client check_name span_name [] (status_result agent_id tr) s
   | None \<Rightarrow> (Inr (status_result agent_id tr), s))"

definition lifecycle_monitor :: "string \<Rightarrow> 's tracing \<Rightarrow> 's kind_handler" where
  "lifecycle_monitor agent_id tr request params s = build_status_result agent_id tr ''monitor'' ''monitor-check'' s"

definition lifecycle_status :: "string \<Rightarrow> 's tracing \<Rightarrow> 's kind_handler" where
  "lifecycle_status agent_id tr request params s = build_status_result agent_id tr ''status'' ''status-check'' s"

definition command_result :: "(string, json) dict \<Rightarrow> (string, json) dict" where
  "command_result params =
     [(''result'', JStr ''acknowledged''), (''command'', get_default params ''command'' (JStr ''unknown'')),
      (''service'', get_default params ''service'' (JStr ''unknown''))]"

definition handle_lifecycle :: "'s tracing \<Rightarrow> 's kind_handler" where
  "handle_lifecycle tr request params s = (case tr of
     Some client \<Rightarrow> traced client ''lifecycle'' ''lifecycle-command''
       [(''command'', get_default params ''command'' (JStr ''unknown'')),
        (''service'', get_default params ''service'' (JStr ''unknown''))] (command_result params) s
   | None \<Rightarrow> (Inr (command_result params), s))"

definition LIFECYCLE_BUILTIN_HANDLERS :: "(string, string) dict" where
  "LIFECYCLE_BUILTIN_HANDLERS = filter (\<lambda>(k, v). k \<notin> set [''config-get'', ''config-set'']) BUILTIN_HANDLERS"

definition lifecycle_server :: "lifecycle_config \<Rightarrow> 's tracing \<Rightarrow> 's responder" where
  "lifecycle_server c tr =
     (let rs = (responder_init (lc_agent_id c))\<lparr>rs_builtin := LIFECYCLE_BUILTIN_HANDLERS,
            rs_methods := [(''handle_monitor'', lifecycle_monitor (lc_agent_id c) tr),
              (''handle_config_get'', handle_config_get), (''handle_config_set'', handle_config_set)]\<rparr>
      in register_handler ''lifecycle'' (handle_lifecycle tr)
           (register_handler ''status'' (lifecycle_status (lc_agent_id c) tr) rs))"

definition build_server ::
  "bool \<Rightarrow> (string \<Rightarrow> string \<Rightarrow> string option \<Rightarrow> 's langfuse result) \<Rightarrow> lifecycle_config \<Rightarrow> 's responder" where
  "build_server installed connect c =
     lifecycle_server c (tracing_init installed connect (lc_langfuse_public_key c) (lc_langfuse_secret_key c) (lc_langfuse_host c))"

definition lifecycle_conn :: "lifecycle_config \<Rightarrow> broker_conn" where
  "lifecycle_conn c = \<lparr>bc_host = lc_broker_host c, bc_port = lc_broker_port c, bc_scheme = lc_broker_scheme c,
     bc_token = lc_broker_token c\<rparr>"

section \<open>Backends (backend.py)\<close>

text \<open>
  A command: its words and the variable it adds to the environment. Running one with
  \<open>check=True\<close> raises when it fails; \<open>health\<close> reads the output whatever the exit status.
\<close>

record command =
  cmd_words :: "string list"
  cmd_version :: "string option"

definition compose_cmd :: "string option \<Rightarrow> string list" where
  "compose_cmd project_dir =
     [''docker'', ''compose''] @ (case project_dir of Some d \<Rightarrow> [''--project-directory'', d] | None \<Rightarrow> [])"

definition subprocess_start ::
  "(command \<Rightarrow> ('s, string) io) \<Rightarrow> string option \<Rightarrow> string \<Rightarrow> string option \<Rightarrow> ('s, unit) io" where
  "subprocess_start run_cmd project_dir service version s =
     (case run_cmd \<lparr>cmd_words = compose_cmd project_dir @ [''up'', ''-d'', service],
          cmd_version = (if missing version then None else version)\<rparr> s of
        (Inl e, s') \<Rightarrow> (Inl e, s') | (Inr _, s') \<Rightarrow> (Inr (), s'))"

definition subprocess_stop :: "(command \<Rightarrow> ('s, string) io) \<Rightarrow> string option \<Rightarrow> string \<Rightarrow> ('s, unit) io" where
  "subprocess_stop run_cmd project_dir service s =
     (case run_cmd \<lparr>cmd_words = compose_cmd project_dir @ [''stop'', service], cmd_version = None\<rparr> s of
        (Inl e, s') \<Rightarrow> (Inl e, s') | (Inr _, s') \<Rightarrow> (Inr (), s'))"

definition subprocess_health :: "(command \<Rightarrow> ('s, string) io) \<Rightarrow> string option \<Rightarrow> string \<Rightarrow> ('s, bool) io" where
  "subprocess_health read_cmd project_dir service s =
     (case read_cmd \<lparr>cmd_words = compose_cmd project_dir @ [''ps'', ''--status'', ''running'', service], cmd_version = None\<rparr> s of
        (Inl e, s') \<Rightarrow> (Inl e, s') | (Inr out, s') \<Rightarrow> (Inr (contains service out), s'))"

record mock_backend =
  mk_health_results :: "bool list"
  mk_health_calls :: nat
  mk_start_calls :: "(string \<times> string option) list"
  mk_stop_calls :: "string list"

definition mock_init :: "bool list \<Rightarrow> mock_backend" where
  "mock_init results = \<lparr>mk_health_results = results, mk_health_calls = 0, mk_start_calls = [], mk_stop_calls = []\<rparr>"

definition mock_start :: "string \<Rightarrow> string option \<Rightarrow> (mock_backend, unit) io" where
  "mock_start service version mk = (Inr (), mk\<lparr>mk_start_calls := mk_start_calls mk @ [(service, version)]\<rparr>)"

definition mock_stop :: "string \<Rightarrow> (mock_backend, unit) io" where
  "mock_stop service mk = (Inr (), mk\<lparr>mk_stop_calls := mk_stop_calls mk @ [service]\<rparr>)"

definition mock_health :: "string \<Rightarrow> (mock_backend, bool) io" where
  "mock_health service mk =
     (let rs = mk_health_results mk; n = mk_health_calls mk
      in if rs = [] then (Inr False, mk)
         else (Inr (if n < length rs then rs ! n else last rs), mk\<lparr>mk_health_calls := n + 1\<rparr>))"

end
