(* ===== verification/Servers.thy ===== *)
theory Servers
  imports Broker_Config Lifecycle
begin

text \<open>
  Starting and stopping: the serving thread of \<open>TransportServer\<close> and \<open>BrokerServer\<close>
  (\<open>transport/server.py\<close>, \<open>broker/server.py\<close>), the sweep loop of the broker, and the entry
  points \<open>main\<close> of \<open>broker/service.py\<close> and \<open>lifecycle/service.py\<close> with
  \<open>service_utils.py\<close>. An operation that blocks for ever is \<open>None\<close>.
\<close>

section \<open>The serving thread\<close>

text \<open>
  What the code sees of \<open>socketserver.BaseServer\<close>: \<open>serve_forever\<close> clears the event that
  \<open>shutdown\<close> waits for, loops, and sets the event when it ends; on a closed socket it raises at
  once, which sets the event too. \<open>shutdown\<close> asks the loop to end and waits for the event, for
  ever if \<open>serve_forever\<close> never ran.
\<close>

record server_proc =
  sp_thread :: bool
  sp_serving :: bool
  sp_shut_down :: bool
  sp_open :: bool

definition new_server :: server_proc where
  "new_server = \<lparr>sp_thread = False, sp_serving = False, sp_shut_down = False, sp_open = True\<rparr>"

definition serve_forever :: "server_proc \<Rightarrow> server_proc" where
  "serve_forever p = (if sp_open p then p\<lparr>sp_serving := True, sp_shut_down := False\<rparr>
     else p\<lparr>sp_serving := False, sp_shut_down := True\<rparr>)"

definition shutdown :: "server_proc \<Rightarrow> server_proc option" where
  "shutdown p = (if sp_serving p then Some (p\<lparr>sp_serving := False, sp_shut_down := True\<rparr>)
     else if sp_shut_down p then Some p else None)"

definition server_close :: "server_proc \<Rightarrow> server_proc" where
  "server_close p = p\<lparr>sp_open := False\<rparr>"

text \<open>\<open>start\<close> and \<open>stop\<close> of \<open>TransportServer\<close>. The join ends since the loop has ended.\<close>

definition server_start :: "server_proc \<Rightarrow> server_proc" where
  "server_start p = (if sp_thread p then p else (serve_forever p)\<lparr>sp_thread := True\<rparr>)"

definition server_stop :: "server_proc \<Rightarrow> server_proc option" where
  "server_stop p = (case shutdown p of
     None \<Rightarrow> None
   | Some p \<Rightarrow>
       let p = server_close p
       in Some (if sp_thread p then p\<lparr>sp_thread := False\<rparr> else p))"

section \<open>The threads of the broker\<close>

record broker_proc =
  bp_http :: server_proc
  bp_sweep_interval :: seconds
  bp_sweep_stop :: bool
  bp_sweep_thread :: bool
  bp_sweeping :: bool
  bp_audit_open :: bool

text \<open>The second argument is whether an audit log file was given.\<close>

definition new_broker_proc :: "seconds \<Rightarrow> bool \<Rightarrow> broker_proc" where
  "new_broker_proc interval audit_file = \<lparr>bp_http = new_server, bp_sweep_interval = interval, bp_sweep_stop = False,
     bp_sweep_thread = False, bp_sweeping = False, bp_audit_open = audit_file\<rparr>"

text \<open>A sweep thread that starts with its event set ends at its first wait.\<close>

definition broker_start :: "broker_proc \<Rightarrow> broker_proc" where
  "broker_start p =
     (if sp_thread (bp_http p) then p
      else
        let p = p\<lparr>bp_http := (serve_forever (bp_http p))\<lparr>sp_thread := True\<rparr>\<rparr>
        in if bp_sweep_interval p > 0
           then p\<lparr>bp_sweep_thread := True, bp_sweeping := \<not> bp_sweep_stop p\<rparr> else p)"

definition broker_stop :: "broker_proc \<Rightarrow> broker_proc option" where
  "broker_stop p =
     (let p = p\<lparr>bp_sweep_stop := True, bp_sweeping := False\<rparr>
      in case shutdown (bp_http p) of
           None \<Rightarrow> None
         | Some h \<Rightarrow>
             let h = server_close h;
                 h = (if sp_thread h then h\<lparr>sp_thread := False\<rparr> else h);
                 p = p\<lparr>bp_http := h, bp_audit_open := False\<rparr>
             in Some (if bp_sweep_thread p then p\<lparr>bp_sweep_thread := False\<rparr> else p))"

text \<open>
  \<open>_sweep_loop\<close>, over what its waits return: at each, the clock after it and whether the stop
  event was set. The second result is whether the loop has ended.
\<close>

fun sweep_loop :: "(seconds \<times> bool) list \<Rightarrow> broker \<Rightarrow> broker \<times> bool" where
  "sweep_loop [] b = (b, False)"
| "sweep_loop ((now, stopped) # ws) b = (if stopped then (b, True) else sweep_loop ws (sweep_once now b))"

lemma sweep_loop_fold:
  "sweep_loop ws b = (fold sweep_once (map fst (takeWhile (\<lambda>w. \<not> snd w) ws)) b, \<exists>w \<in> set ws. snd w)"
  by (induction ws b rule: sweep_loop.induct) auto

interpretation sweeps: invariant_system sweep_once coherent
  by unfold_locales (rule sweep_once_coherent)

interpretation sweeps_frame: framed_system sweep_once config
  by unfold_locales (rule sweep_once_config)

text \<open>The loop ends when the event is set, and whatever it swept, the broker is consistent.\<close>

lemma sweep_loop_ends:
  assumes "coherent b" "sweep_loop ws b = (b', ended)"
  shows "coherent b' \<and> config b' = config b \<and> (ended \<longleftrightarrow> (\<exists>w \<in> set ws. snd w))"
  using assms(2) sweeps.fold_keeps[OF assms(1)] sweeps_frame.fold_view by (auto simp: sweep_loop_fold)

section \<open>One-shot services\<close>

text \<open>
  The contract of the two servers towards their owner: a fresh one serves once started, a
  served one is closed for good by a stop, and stopping a fresh one never returns.
\<close>

datatype phase = Fresh | Serving | Closed

datatype call = Start | Stop

fun run_calls :: "('s \<Rightarrow> 's) \<Rightarrow> ('s \<Rightarrow> 's option) \<Rightarrow> call list \<Rightarrow> 's \<Rightarrow> 's option" where
  "run_calls up down [] s = Some s"
| "run_calls up down (Start # cs) s = run_calls up down cs (up s)"
| "run_calls up down (Stop # cs) s = (case down s of None \<Rightarrow> None | Some s' \<Rightarrow> run_calls up down cs s')"

locale one_shot =
  fixes up :: "'s \<Rightarrow> 's" and down :: "'s \<Rightarrow> 's option" and inv :: "'s \<Rightarrow> bool" and phase_of :: "'s \<Rightarrow> phase"
  assumes start_inv: "inv s \<Longrightarrow> inv (up s)"
    and start_phase: "inv s \<Longrightarrow> phase_of (up s) = (if phase_of s = Closed then Closed else Serving)"
    and stop_fresh: "inv s \<Longrightarrow> phase_of s = Fresh \<Longrightarrow> down s = None"
    and stop_started: "inv s \<Longrightarrow> phase_of s \<noteq> Fresh \<Longrightarrow> \<exists>s'. down s = Some s' \<and> inv s' \<and> phase_of s' = Closed"
begin

lemma run_closed:
  "inv s \<Longrightarrow> phase_of s = Closed \<Longrightarrow> \<exists>s'. run_calls up down cs s = Some s' \<and> inv s' \<and> phase_of s' = Closed"
proof (induction cs arbitrary: s)
  case (Cons c cs)
  then show ?case
    using start_inv[of s] start_phase[of s] stop_started[of s] by (cases c) (auto split: option.split)
qed simp

lemma run_serving:
  "inv s \<Longrightarrow> phase_of s = Serving \<Longrightarrow>
   \<exists>s'. run_calls up down cs s = Some s' \<and> inv s' \<and> phase_of s' = (if Stop \<in> set cs then Closed else Serving)"
proof (induction cs arbitrary: s)
  case (Cons c cs)
  show ?case
  proof (cases c)
    case Start
    with Cons.IH[of "up s"] Cons.prems start_inv[of s] start_phase[of s] show ?thesis by simp
  next
    case Stop
    from stop_started[of s] Cons.prems obtain s1 where "down s = Some s1" "inv s1" "phase_of s1 = Closed" by auto
    with Stop run_closed[of s1 cs] show ?thesis by simp
  qed
qed simp

lemma run_fresh:
  assumes "inv s" "phase_of s = Fresh"
  shows "case run_calls up down cs s of
      None \<Rightarrow> \<exists>cs'. cs = Stop # cs'
    | Some s' \<Rightarrow> inv s' \<and> (cs = [] \<or> hd cs = Start) \<and>
        phase_of s' = (if cs = [] then Fresh else if Stop \<in> set cs then Closed else Serving)"
proof (cases cs)
  case (Cons c cs')
  show ?thesis
  proof (cases c)
    case Start
    with run_serving[of "up s" cs'] start_inv[OF assms(1)] start_phase[OF assms(1)] assms(2) Cons
    show ?thesis by auto
  next
    case Stop
    with Cons stop_fresh[OF assms] show ?thesis by simp
  qed
qed (simp add: assms)

end

definition server_phase :: "server_proc \<Rightarrow> phase" where
  "server_phase p = (if \<not> sp_open p then Closed else if sp_serving p then Serving else Fresh)"

definition server_inv :: "server_proc \<Rightarrow> bool" where
  "server_inv p \<longleftrightarrow>
     (if sp_open p then sp_thread p = sp_serving p \<and> \<not> sp_shut_down p else \<not> sp_serving p \<and> sp_shut_down p)"

lemmas server_defs = server_phase_def server_inv_def server_start_def server_stop_def serve_forever_def shutdown_def
  server_close_def Let_def

interpretation transport_server: one_shot server_start server_stop server_inv server_phase
  by unfold_locales (auto simp: server_defs split: if_splits)

definition broker_inv :: "seconds \<Rightarrow> broker_proc \<Rightarrow> bool" where
  "broker_inv interval p \<longleftrightarrow> server_inv (bp_http p) \<and> bp_sweep_interval p = interval \<and>
     (bp_sweep_stop p \<longleftrightarrow> server_phase (bp_http p) = Closed) \<and>
     (bp_sweeping p \<longleftrightarrow> 0 < interval \<and> server_phase (bp_http p) = Serving)"

interpretation broker_server: one_shot broker_start broker_stop "broker_inv interval" "\<lambda>p. server_phase (bp_http p)"
  for interval
  by unfold_locales (auto simp: broker_inv_def broker_start_def broker_stop_def server_defs split: if_splits)

section \<open>Entry points (service.py, service_utils.py)\<close>

text \<open>The signals that arrive while the service waits; each sets the shutdown event.\<close>

datatype shutdown_signal = SIGTERM | SIGINT

definition run_until_signalled :: "('s \<Rightarrow> 's option) \<Rightarrow> shutdown_signal list \<Rightarrow> 's \<Rightarrow> 's option" where
  "run_until_signalled stop signals s = (if signals = [] then None else stop s)"

text \<open>The end of a process: its exit status, an exception nobody catches, or none yet.\<close>

datatype process_end = Exit int | Uncaught exn | Running

fun is_value_error :: "exn \<Rightarrow> bool" where
  "is_value_error (PyValueError m) = True"
| "is_value_error e = False"

definition DEFAULT_SWEEP_INTERVAL :: seconds where
  "DEFAULT_SWEEP_INTERVAL = 30"

text \<open>
  \<open>main\<close> of the broker: the end of the process, with the broker built and the state of its
  threads; \<open>None\<close> where \<open>build_broker\<close> has no model.
\<close>

definition broker_main ::
  "(string \<Rightarrow> string result) \<Rightarrow> (string \<Rightarrow> bool) \<Rightarrow> (broker_config \<Rightarrow> unit result) \<Rightarrow> environ \<Rightarrow>
   shutdown_signal list \<Rightarrow> (process_end \<times> (broker \<times> broker_proc) option) option" where
  "broker_main read_file readable load_tls env signals = (case config_from_env read_file readable env of
     Inl e \<Rightarrow> Some (if is_value_error e then Exit 1 else Uncaught e, None)
   | Inr (c, _) \<Rightarrow> (case build_broker load_tls c of
       None \<Rightarrow> None
     | Some (Inl e) \<Rightarrow> Some (Uncaught e, None)
     | Some (Inr b) \<Rightarrow>
         let p = broker_start (new_broker_proc DEFAULT_SWEEP_INTERVAL (cfg_audit_log c \<noteq> None))
         in Some (case run_until_signalled broker_stop signals p of
              None \<Rightarrow> (Running, Some (b, p))
            | Some p' \<Rightarrow> (Exit 0, Some (b, p')))))"

text \<open>\<open>BrokeredAgent.serve_forever\<close>; \<open>None\<close> while it waits for a signal.\<close>

definition brokered_serve_forever ::
  "'s peer \<Rightarrow> caps \<Rightarrow> shutdown_signal list \<Rightarrow> bool \<Rightarrow> 's agent \<times> 's \<Rightarrow> unit result option \<times> ('s agent \<times> 's)" where
  "brokered_serve_forever pr registration_caps signals joined w =
     (case brokered_agent_start pr registration_caps w of
        (Inl e, w) \<Rightarrow> (Some (Inl e), w)
      | (Inr _, w) \<Rightarrow>
          if signals = [] then (None, w)
          else (case agent_stop pr joined w of (r, w) \<Rightarrow> (Some r, w)))"

text \<open>
  \<open>main\<close> of the lifecycle server: its start and stop are those of its pull agent. The argument
  \<open>joined\<close> is that of \<open>agent_stop\<close>.
\<close>

definition lifecycle_main ::
  "(lifecycle_config \<Rightarrow> 's peer) \<Rightarrow> bool \<Rightarrow> (string \<Rightarrow> string \<Rightarrow> string option \<Rightarrow> 's langfuse result) \<Rightarrow>
   environ \<Rightarrow> shutdown_signal list \<Rightarrow> bool \<Rightarrow> 's \<Rightarrow> process_end \<times> 's" where
  "lifecycle_main peer_of installed connect env signals joined s = (case lifecycle_from_env env of
     Inl e \<Rightarrow> (if is_value_error e then Exit 1 else Uncaught e, s)
   | Inr (c, _) \<Rightarrow>
       let rs = build_server installed connect c
       in (case brokered_agent_start (peer_of c) (registration_capabilities rs) (responder_agent rs ''30.0'', s) of
            (Inl e, w) \<Rightarrow> (Uncaught e, snd w)
          | (Inr _, w) \<Rightarrow>
              if signals = [] then (Running, snd w)
              else (case agent_stop (peer_of c) joined w of
                      (Inl e, w) \<Rightarrow> (Uncaught e, snd w) | (Inr _, w) \<Rightarrow> (Exit 0, snd w))))"

section \<open>What the entry points do\<close>

lemma started_broker:
  "broker_inv n (broker_start (new_broker_proc n f))" "server_phase (bp_http (broker_start (new_broker_proc n f))) = Serving"
  "broker_inv n (new_broker_proc n f)" "server_phase (bp_http (new_broker_proc n f)) = Fresh"
  by (auto simp: broker_inv_def broker_start_def new_broker_proc_def new_server_def server_defs)

text \<open>
  \<open>main\<close> of the broker exits with 1 exactly when the configuration is refused, and then builds
  nothing; it exits with 0 exactly when a signal stopped the broker it had started, whose socket
  is then closed and whose sweep loop has ended; and without a signal the broker serves.
\<close>

lemma broker_main_ends:
  assumes "broker_main read_file readable load_tls env signals = Some (e, r)"
  shows "(e = Exit 1 \<longleftrightarrow> (\<exists>err. config_from_env read_file readable env = Inl err \<and> is_value_error err)) \<and>
    (r = None \<longleftrightarrow> e \<noteq> Running \<and> e \<noteq> Exit 0) \<and>
    (\<forall>b p. r = Some (b, p) \<longrightarrow> (e = Running) = (signals = []) \<and> sp_serving (bp_http p) = (signals = []) \<and>
       sp_open (bp_http p) = (signals = []) \<and> bp_sweeping p = (signals = []))"
proof (cases "config_from_env read_file readable env")
  case (Inl err)
  with assms show ?thesis by (auto simp: broker_main_def split: if_splits)
next
  case (Inr cw)
  obtain c ws where cw: "cw = (c, ws)" by (cases cw)
  let ?p = "broker_start (new_broker_proc DEFAULT_SWEEP_INTERVAL (cfg_audit_log c \<noteq> None))"
  note started = started_broker(1,2)[of DEFAULT_SWEEP_INTERVAL "cfg_audit_log c \<noteq> None"]
  obtain p' where stop: "broker_stop ?p = Some p'" "broker_inv DEFAULT_SWEEP_INTERVAL p'" "server_phase (bp_http p') = Closed"
    using broker_server.stop_started[OF started(1)] started(2) by force
  have serving: "sp_serving (bp_http ?p)" "sp_open (bp_http ?p)" "bp_sweeping ?p"
    using started
    by (auto simp: broker_inv_def server_phase_def DEFAULT_SWEEP_INTERVAL_def split: if_splits)
  have closed: "\<not> sp_serving (bp_http p')" "\<not> sp_open (bp_http p')" "\<not> bp_sweeping p'"
    using stop(2,3) by (auto simp: broker_inv_def server_phase_def server_inv_def split: if_splits)
  show ?thesis
  proof (cases "build_broker load_tls c")
    case None
    with assms Inr cw show ?thesis by (simp add: broker_main_def)
  next
    case (Some built)
    with assms Inr cw stop(1) serving closed show ?thesis
      by (cases built; cases "signals = []") (auto simp: broker_main_def run_until_signalled_def Let_def)
  qed
qed

section \<open>Property\<close>

text \<open>
  Property C39. The owner's calls of \<open>start\<close> and \<open>stop\<close>, in any number and order: the
  calls return unless the first is a \<open>stop\<close>, which blocks for ever; the broker then serves,
  and sweeps when its interval is positive, exactly when it was started and never stopped; once
  stopped its socket stays closed, whatever is called later, so a later \<open>start\<close> returns
  without serving.
\<close>

theorem server_lifecycle:
  "case run_calls broker_start broker_stop calls (new_broker_proc interval audit_file) of
     None \<Rightarrow> \<exists>cs. calls = Stop # cs
   | Some p \<Rightarrow> (calls = [] \<or> hd calls = Start) \<and>
       sp_serving (bp_http p) = (Start \<in> set calls \<and> Stop \<notin> set calls) \<and>
       bp_sweeping p = (0 < interval \<and> Start \<in> set calls \<and> Stop \<notin> set calls) \<and>
       sp_open (bp_http p) = (Stop \<notin> set calls)"
proof -
  have start: "Start \<in> set calls" if "calls \<noteq> []" "Stop \<notin> set calls"
    using that by (cases calls) (metis call.exhaust list.set_intros(1))+
  show ?thesis
    using broker_server.run_fresh[OF started_broker(3,4)[where n = interval and f = audit_file], where cs = calls] start
    by (cases "run_calls broker_start broker_stop calls (new_broker_proc interval audit_file)")
      (auto simp: broker_inv_def server_phase_def server_inv_def split: if_splits)
qed

end
