(* ===== verification/Agent_Run.thy ===== *)
theory Agent_Run
  imports Agent "HOL-Library.Multiset" "HOL-Library.Sublist"
begin

text \<open>
  The threads of an agent as a step relation: the caller's methods, the rounds of the receive
  loop and the workers, in any order, over any peer. The state keeps a record of what happened:
  the messages polled, those a worker has run, and the answers given to requests.
\<close>

section \<open>The system\<close>

record 's agent_run =
  ar_agent :: "'s agent"
  ar_world :: 's
  ar_polled :: "message list"
  ar_ran :: "message list"
  ar_answers :: "(message \<times> message) list"

definition agent_run_init :: "'s agent \<Rightarrow> 's \<Rightarrow> 's agent_run" where
  "agent_run_init ag s = \<lparr>ar_agent = ag, ar_world = s, ar_polled = [], ar_ran = [], ar_answers = []\<rparr>"

definition set_state :: "'s agent \<times> 's \<Rightarrow> 's agent_run \<Rightarrow> 's agent_run" where
  "set_state w r = r\<lparr>ar_agent := fst w, ar_world := snd w\<rparr>"

definition state_of :: "'s agent_run \<Rightarrow> 's agent \<times> 's" where
  "state_of r = (ar_agent r, ar_world r)"

text \<open>What a round of the loop receives and what a worker takes.\<close>

definition received :: "'s peer \<Rightarrow> 's agent \<times> 's \<Rightarrow> message list" where
  "received pr w = (case fst (pr_receive pr (ag_id (fst w)) PULL_POLL_WAIT PULL_POLL_TIMEOUT (snd w)) of
     Inr ms \<Rightarrow> ms | Inl e \<Rightarrow> [])"

definition next_task :: "'s agent \<Rightarrow> message list" where
  "next_task ag = (case ag_tasks ag of Some (m # ts) \<Rightarrow> [m] | _ \<Rightarrow> [])"

definition answer_of :: "message \<Rightarrow> message result \<Rightarrow> (message \<times> message) list" where
  "answer_of m r = (case r of Inr reply \<Rightarrow> [(m, reply)] | Inl e \<Rightarrow> [])"

inductive agent_step :: "'s peer \<Rightarrow> 's agent_run \<Rightarrow> 's agent_run \<Rightarrow> bool" for pr where
  Start: "agent_start pr listen given (state_of r) = (res, w) \<Longrightarrow> agent_step pr r (set_state w r)"
| Stop: "agent_stop pr joined (state_of r) = (res, w) \<Longrightarrow> agent_step pr r (set_state w r)"
| LoopEnds: "ag_stopping (ar_agent r) \<Longrightarrow> 0 < ag_loops (ar_agent r) \<Longrightarrow>
    agent_step pr r (r\<lparr>ar_agent := (ar_agent r)\<lparr>ag_loops := ag_loops (ar_agent r) - 1\<rparr>\<rparr>)"
| Poll: "0 < ag_loops (ar_agent r) \<Longrightarrow> recv_round pr (state_of r) = (e, w) \<Longrightarrow>
    agent_step pr r (set_state w r\<lparr>ar_polled := ar_polled r @ received pr (state_of r)\<rparr>)"
| Work: "agent_step pr r (set_state (run_task pr st (state_of r)) r\<lparr>ar_ran := ar_ran r @ next_task (ar_agent r)\<rparr>)"
| Serve: "handle st m (state_of r) = (res, w) \<Longrightarrow> agent_step pr r (set_state w r)"
| Take: "receive_message timeout (ar_agent r) = Some (res, ag) \<Longrightarrow> agent_step pr r (r\<lparr>ar_agent := ag\<rparr>)"
| Register: "agent_step pr r (r\<lparr>ar_agent := on_request h (ar_agent r)\<rparr>)"
| Listen: "agent_step pr r (r\<lparr>ar_agent := on_notification g (ar_agent r)\<rparr>)"
| Begin: "begin_request pr m rcp (state_of r) = (res, w) \<Longrightarrow> agent_step pr r (set_state w r)"
| End: "end_request m rcp t (ar_agent r) = (res, ag) \<Longrightarrow>
    agent_step pr r (r\<lparr>ar_agent := ag, ar_answers := ar_answers r @ answer_of m res\<rparr>)"
| Outside: "agent_step pr r (r\<lparr>ar_world := s\<rparr>)"

inductive agent_reachable :: "'s peer \<Rightarrow> 's agent_run \<Rightarrow> bool" for pr where
  Init: "agent_reachable pr (agent_run_init (agent_init agent_id timeout pull) s)"
| Step: "agent_reachable pr r \<Longrightarrow> agent_step pr r r' \<Longrightarrow> agent_reachable pr r'"

section \<open>The invariant\<close>

definition tasks_of :: "'s agent \<Rightarrow> message list" where
  "tasks_of ag = (case ag_tasks ag of Some ts \<Rightarrow> ts | None \<Rightarrow> [])"

definition slots :: "(string, message list) dict \<Rightarrow> message multiset" where
  "slots d = mset (concat (map snd d))"

definition slots_ok :: "(string, message list) dict \<Rightarrow> bool" where
  "slots_ok d \<longleftrightarrow> (\<forall>key slot. dict_get d key = Some slot \<longrightarrow> (\<forall>m \<in> set slot. correlation_id m = Some key))"

text \<open>
  The books of an agent: slots and answers correlate, the messages run and still to be run are
  polled ones in their order, and every one of them was polled for itself.
\<close>

definition books :: "message list \<Rightarrow> (string, message list) dict \<Rightarrow> message list \<Rightarrow> message list \<Rightarrow>
    (message \<times> message) list \<Rightarrow> bool" where
  "books tasks waiters polled run answers \<longleftrightarrow>
     slots_ok waiters \<and>
     (\<forall>(m, reply) \<in> set answers. correlation_id reply = Some (message_id m)) \<and>
     subseq (run @ tasks) polled \<and>
     mset run + mset tasks + slots waiters + mset (map snd answers) \<subseteq># mset polled"

definition agent_invariant :: "'s agent_run \<Rightarrow> bool" where
  "agent_invariant r \<longleftrightarrow>
     books (tasks_of (ar_agent r)) (ag_waiters (ar_agent r)) (ar_polled r) (ar_ran r) (ar_answers r)"

section \<open>Slots\<close>

lemma slots_Cons: "slots ((k, v) # d) = mset v + slots d"
  by (simp add: slots_def)

lemma slots_append: "dict_get d k = Some slot \<Longrightarrow> slots (dict_set k (slot @ [m]) d) = add_mset m (slots d)"
  by (induction d) (auto simp: dict_set_def slots_Cons split: if_splits)

lemma slots_new: "slots (dict_set k [] d) \<subseteq># slots d"
proof (induction d)
  case Nil
  then show ?case by (simp add: dict_set_def slots_def)
next
  case (Cons e d)
  then show ?case by (cases e) (auto simp: dict_set_def slots_Cons)
qed

lemma slots_pop: "slots (dict_pop k d) \<subseteq># slots d"
proof (induction d)
  case Nil
  then show ?case by (simp add: dict_pop_def)
next
  case (Cons e d)
  then show ?case
    by (cases e) (auto simp: dict_pop_def slots_Cons intro: subset_mset.order_trans)
qed

lemma slots_pop_entry: "dict_get d k = Some (m # ms) \<Longrightarrow> add_mset m (slots (dict_pop k d)) \<subseteq># slots d"
proof (induction d)
  case (Cons e d)
  obtain k' v where e: "e = (k', v)" by (cases e)
  show ?case
  proof (cases "k' = k")
    case True
    then have "v = m # ms" "dict_pop k (e # d) = dict_pop k d" using Cons.prems by (simp_all add: e dict_pop_def)
    with slots_pop[of k d] show ?thesis by (simp add: e slots_Cons subset_mset.add_increasing)
  next
    case False
    then have "dict_get d k = Some (m # ms)" "dict_pop k (e # d) = e # dict_pop k d"
      using Cons.prems by (simp_all add: e dict_pop_def)
    with Cons.IH show ?thesis by (simp add: e slots_Cons flip: union_mset_add_mset_right)
  qed
qed simp

lemma slots_ok_set: "slots_ok d \<Longrightarrow> \<forall>m \<in> set v. correlation_id m = Some k \<Longrightarrow> slots_ok (dict_set k v d)"
  by (auto simp: slots_ok_def dict_simps)

lemma slots_ok_pop: "slots_ok d \<Longrightarrow> slots_ok (dict_pop k d)"
  by (auto simp: slots_ok_def dict_simps split: if_splits)

section \<open>Preservation\<close>

lemma books_empty: "books [] [] [] [] []"
  by (simp add: books_def slots_ok_def slots_def)

lemma books_cancel: "books ts d p r a \<Longrightarrow> books [] d p r a"
proof -
  assume b: "books ts d p r a"
  have "subseq r (r @ ts)" by (simp add: prefix_imp_subseq)
  with b have "subseq r p" unfolding books_def by (blast intro: subseq_order.order_trans)
  moreover have "mset r + slots d + mset (map snd a) \<subseteq># mset r + mset ts + slots d + mset (map snd a)" by simp
  moreover have "mset r + mset ts + slots d + mset (map snd a) \<subseteq># mset p" using b by (simp add: books_def)
  ultimately show ?thesis
    using b unfolding books_def append_Nil2 mset.simps(1) add_0_right by (meson subset_mset.order_trans)
qed

lemma books_run: "books (m # ts) d p r a \<Longrightarrow> books ts d p (r @ [m]) a"
  by (simp add: books_def)

lemma books_submit: "books ts d p r a \<Longrightarrow> books (ts @ [m]) d (p @ [m]) r a"
  by (auto simp: books_def add.assoc simp flip: append_assoc intro: list_emb_append_mono)

lemma books_polled: "books ts d p r a \<Longrightarrow> books ts d (p @ [m]) r a"
proof -
  have "mset p \<subseteq># mset (p @ [m])" "subseq p (p @ [m])" by (simp_all add: prefix_imp_subseq)
  then show "books ts d p r a \<Longrightarrow> ?thesis"
    unfolding books_def by (meson subset_mset.order_trans subseq_order.order_trans)
qed

lemma books_slot:
  assumes "books ts d p r a" "dict_get d k = Some slot" "correlation_id m = Some k"
  shows "books ts (dict_set k (slot @ [m]) d) (p @ [m]) r a"
proof -
  from assms(1) have "mset r + mset ts + slots d + mset (map snd a) \<subseteq># mset p" by (simp add: books_def)
  then have "mset r + mset ts + slots (dict_set k (slot @ [m]) d) + mset (map snd a) \<subseteq># mset (p @ [m])"
    by (simp add: slots_append[OF assms(2)] add.assoc)
  moreover have "slots_ok (dict_set k (slot @ [m]) d)"
    using assms by (auto simp: books_def slots_ok_def dict_simps)
  moreover have "subseq (r @ ts) (p @ [m])" using assms(1) by (auto simp: books_def intro: list_emb_append2)
  ultimately show ?thesis using assms(1) unfolding books_def by blast
qed

lemma books_waiters:
  "books ts d p r a \<Longrightarrow> slots_ok d' \<Longrightarrow> slots d' \<subseteq># slots d \<Longrightarrow> books ts d' p r a"
  unfolding books_def by (meson subset_mset.add_mono subset_mset.order_refl subset_mset.order_trans)

lemma books_answer:
  assumes "books ts d p r a" "dict_get d k = Some (reply # rest)" "message_id m = k"
  shows "books ts (dict_pop k d) p r (a @ [(m, reply)])"
proof -
  have "mset r + mset ts + slots (dict_pop k d) + mset (map snd (a @ [(m, reply)])) =
      mset r + mset ts + add_mset reply (slots (dict_pop k d)) + mset (map snd a)" by simp
  also have "\<dots> \<subseteq># mset r + mset ts + slots d + mset (map snd a)"
    using slots_pop_entry[OF assms(2)] by (meson subset_mset.add_mono subset_mset.order_refl)
  also have "\<dots> \<subseteq># mset p" using assms(1) by (simp add: books_def)
  finally have "mset r + mset ts + slots (dict_pop k d) + mset (map snd (a @ [(m, reply)])) \<subseteq># mset p" .
  moreover have "correlation_id reply = Some (message_id m)"
    using assms by (auto simp: books_def slots_ok_def)
  ultimately show ?thesis using assms(1) by (auto simp only: books_def slots_ok_pop set_append Un_iff list.set)
qed

lemma dispatch_books:
  "books (tasks_of ag) (ag_waiters ag) p r a \<Longrightarrow>
   books (tasks_of (dispatch_pull m ag)) (ag_waiters (dispatch_pull m ag)) (p @ [m]) r a"
  by (auto simp: dispatch_pull_def Let_def tasks_of_def books_slot
      split: option.split intro: books_polled books_submit books_submit[of "[]", simplified])

lemma dispatch_all_books:
  "books (tasks_of ag) (ag_waiters ag) p r a \<Longrightarrow>
   books (tasks_of (fold dispatch_pull ms ag)) (ag_waiters (fold dispatch_pull ms ag)) (p @ ms) r a"
proof (induction ms arbitrary: ag p)
  case (Cons m ms)
  from Cons.IH[OF dispatch_books[OF Cons.prems, of m]] show ?case by simp
qed simp

lemma handle_frame [simp]:
  "handle st m w = (res, w') \<Longrightarrow> ag_tasks (fst w') = ag_tasks (fst w) \<and> ag_waiters (fst w') = ag_waiters (fst w)"
  by (auto simp: handle_def Let_def split: prod.splits option.splits message_type.splits sum.splits)

lemma run_handler_frame:
  "ag_tasks (fst (run_handler pr st m w)) = ag_tasks (fst w)" "ag_waiters (fst (run_handler pr st m w)) = ag_waiters (fst w)"
  by (auto simp: run_handler_def dest: handle_frame split: prod.splits option.splits)

lemma agent_start_books:
  assumes "agent_start pr listen given w = (res, w')" "books (tasks_of (fst w)) (ag_waiters (fst w)) p r a"
  shows "books (tasks_of (fst w')) (ag_waiters (fst w')) p r a"
  using assms books_cancel[OF assms(2)]
  by (auto simp: agent_start_def Let_def tasks_of_def split: prod.splits if_splits sum.splits)

lemma agent_stop_books:
  assumes "agent_stop pr joined w = (res, w')" "books (tasks_of (fst w)) (ag_waiters (fst w)) p r a"
  shows "books (tasks_of (fst w')) (ag_waiters (fst w')) p r a"
  using assms books_cancel[OF assms(2)]
  by (auto simp: agent_stop_def Let_def tasks_of_def split: prod.splits if_splits sum.splits)

lemma recv_round_books:
  assumes "recv_round pr w = (e, w')" "books (tasks_of (fst w)) (ag_waiters (fst w)) p r a"
  shows "books (tasks_of (fst w')) (ag_waiters (fst w')) (p @ received pr w) r a"
  using assms dispatch_all_books[OF assms(2)]
  by (auto simp: recv_round_def received_def tasks_of_def split: prod.splits if_splits sum.splits exn.splits)

lemma run_task_books:
  assumes "books (tasks_of (fst w)) (ag_waiters (fst w)) p r a"
  shows "books (tasks_of (fst (run_task pr st w))) (ag_waiters (fst (run_task pr st w))) p (r @ next_task (fst w)) a"
  using assms books_run
  by (fastforce simp: run_task_def next_task_def tasks_of_def run_handler_frame split: prod.splits option.splits list.splits)

lemma begin_request_books:
  assumes "begin_request pr m rcp w = (res, w')" "books (tasks_of (fst w)) (ag_waiters (fst w)) p r a"
  shows "books (tasks_of (fst w')) (ag_waiters (fst w')) p r a"
proof -
  let ?d = "dict_set (message_id m) [] (ag_waiters (fst w))"
  from assms(2) have "slots_ok (ag_waiters (fst w))" by (simp add: books_def)
  then have add: "books (tasks_of (fst w)) ?d p r a"
    by (intro books_waiters[OF assms(2)] slots_ok_set slots_new) simp_all
  then have "books (tasks_of (fst w)) (dict_pop (message_id m) ?d) p r a"
    by (intro books_waiters[OF add] slots_ok_pop slots_pop) (simp add: books_def)
  with add assms(1) show ?thesis
    by (auto simp: begin_request_def add_waiter_def drop_waiter_def tasks_of_def Let_def split: prod.splits sum.splits)
qed

lemma end_request_books:
  assumes "end_request m rcp t ag = (res, ag')" "books (tasks_of ag) (ag_waiters ag) p r a"
  shows "books (tasks_of ag') (ag_waiters ag') p r (a @ answer_of m res)"
proof -
  let ?k = "message_id m"
  have frame: "ag_waiters ag' = dict_pop ?k (ag_waiters ag)" "tasks_of ag' = tasks_of ag"
    using assms(1) by (auto simp: end_request_def drop_waiter_def tasks_of_def)
  show ?thesis
  proof (cases "\<exists>reply rest. dict_get (ag_waiters ag) ?k = Some (reply # rest)")
    case True
    then obtain reply rest where e: "dict_get (ag_waiters ag) ?k = Some (reply # rest)" by blast
    with assms(1) have "answer_of m res = [(m, reply)]" by (auto simp: end_request_def answer_of_def)
    with books_answer[OF assms(2) e] frame show ?thesis by simp
  next
    case False
    then have "answer_of m res = []"
      using assms(1) by (auto simp: end_request_def answer_of_def split: option.splits list.splits)
    moreover have "books (tasks_of ag) (dict_pop ?k (ag_waiters ag)) p r a"
      by (intro books_waiters[OF assms(2)] slots_ok_pop slots_pop) (use assms(2) in \<open>simp add: books_def\<close>)
    ultimately show ?thesis using frame by simp
  qed
qed

lemma receive_message_frame:
  "receive_message timeout ag = Some (res, ag') \<Longrightarrow> ag_tasks ag' = ag_tasks ag \<and> ag_waiters ag' = ag_waiters ag"
  by (auto simp: receive_message_def split: list.splits option.splits)

lemma agent_step_invariant:
  assumes "agent_step pr r r'" "agent_invariant r"
  shows "agent_invariant r'"
  using assms
proof (induction rule: agent_step.induct)
  case (Start listen given r res w)
  then show ?case using agent_start_books[OF Start.hyps] by (simp add: agent_invariant_def set_state_def state_of_def)
next
  case (Stop joined r res w)
  then show ?case using agent_stop_books[OF Stop.hyps] by (simp add: agent_invariant_def set_state_def state_of_def)
next
  case (Poll r e w)
  then show ?case
    using recv_round_books[OF Poll.hyps(2)] by (simp add: agent_invariant_def set_state_def state_of_def)
next
  case (Work r st)
  then show ?case
    using run_task_books[of "state_of r"] by (simp add: agent_invariant_def set_state_def state_of_def)
next
  case (Serve st m r res w)
  then show ?case
    using handle_frame[OF Serve.hyps] by (simp add: agent_invariant_def set_state_def state_of_def tasks_of_def)
next
  case (Take timeout r res ag)
  then show ?case using receive_message_frame[OF Take.hyps] by (simp add: agent_invariant_def tasks_of_def)
next
  case (Begin m rcp r res w)
  then show ?case using begin_request_books[OF Begin.hyps] by (simp add: agent_invariant_def set_state_def state_of_def)
next
  case (End m rcp t r res ag)
  then show ?case using end_request_books[OF End.hyps] by (simp add: agent_invariant_def)
qed (simp_all add: agent_invariant_def tasks_of_def on_request_def on_notification_def)

lemma agent_reachable_invariant: "agent_reachable pr r \<Longrightarrow> agent_invariant r"
proof (induction rule: agent_reachable.induct)
  case (Init agent_id timeout pull s)
  show ?case using books_empty by (simp add: agent_invariant_def agent_run_init_def agent_init_def tasks_of_def)
qed (blast intro: agent_step_invariant)

end
