(* ===== verification/Request_Reply.thy ===== *)
theory Request_Reply
  imports Responder_Props
begin

text \<open>
  Two agents and the broker together: a request that a pull agent sends travels through the
  broker to a responder, and the responder's reply is what the call returns.
\<close>

section \<open>Who a message is queued for\<close>

lemma queues_for_entry:
  assumes "queues_for who m b = Some c" "entry b' c = entry b c"
  shows "queues_for who m b' = Some c"
  using assms by (auto simp: queues_for_def entry_def split: if_splits json.splits option.splits)

text \<open>An agent with a mailbox.\<close>

definition pulls :: "broker \<Rightarrow> string \<Rightarrow> bool" where
  "pulls b c \<longleftrightarrow> (\<exists>ep. dict_get (registry b) c = Some ep \<and> ep_mailbox ep)"

lemma pulls_queues:
  "pulls b c \<Longrightarrow> c \<noteq> [] \<Longrightarrow> sender (meta m) = JStr who \<Longrightarrow> recipient (meta m) = JStr c \<Longrightarrow>
   queues_for who m b = Some c"
  by (auto simp: pulls_def queues_for_def)

lemma pulls_entry: "entry b' c = entry b c \<Longrightarrow> pulls b' c = pulls b c"
  by (simp add: pulls_def entry_def)

section \<open>The responder's side\<close>

text \<open>One poll of the responder and the handling of the first message it brings.\<close>

definition serve_once :: "'s peer \<Rightarrow> stamp \<Rightarrow> 's agent \<times> 's \<Rightarrow> 's agent \<times> 's" where
  "serve_once pr st w = run_task pr st (snd (recv_round pr w))"

lemma brokered_peer_simps [simp]:
  "pr_send (brokered_peer net c sl rt) m ep t = broker_send net c m t"
  "pr_receive (brokered_peer net c sl rt) = broker_receive net c"
  by (simp_all add: brokered_peer_def)

lemma valid_request: "valid_message (build_request st agent_id rcp b ext)"
  if "st_id st \<noteq> []" "st_now st \<noteq> []" "agent_id \<noteq> []"
  using that by (simp add: build_request_def mk_request_def valid_message_def metadata_create_def py_int_current
      nonempty_str_def opt_str_def)

lemma request_fields [simp]:
  "mtype (build_request st agent_id rcp b ext) = REQUEST"
  "message_id (build_request st agent_id rcp b ext) = st_id st"
  "correlation_id (build_request st agent_id rcp b ext) = None"
  "sender (meta (build_request st agent_id rcp b ext)) = JStr agent_id"
  "recipient (meta (build_request st agent_id rcp b ext)) = JStr rcp"
  "body (build_request st agent_id rcp b ext) = (case b of Some d \<Rightarrow> d | None \<Rightarrow> [])"
  by (simp_all add: build_request_def mk_request_def metadata_create_def)

lemma dispatch_valid:
  assumes "dispatch st rs request s = (Inr reply, s')" "st_id st \<noteq> []" "st_now st \<noteq> []" "rs_agent_id rs \<noteq> []"
  shows "valid_message reply \<and> answers rs request reply"
proof -
  have a: "nonempty_str (reply_address request (Some (rs_agent_id rs)))"
    using assms(4) by (simp add: reply_address_def nonempty_str_def)
  have "valid_message (kind_error st rs request code msg)" for code msg
    unfolding kind_error_def by (rule error_valid[OF assms(2,3) a])
  moreover have "valid_message r" if "response_to (st_now st) (st_id st) request (Some result) (Some (rs_agent_id rs)) [] = Inr r"
    for r result
    using that response_valid[OF assms(2,3) a, of "Some result" "[]"] by auto
  moreover have "answers rs request reply" using dispatch_replies_lemma[of st rs request s] assms(1) by auto
  ultimately show ?thesis
    using assms(1) by (auto simp: dispatch_cases split: option.splits sum.splits prod.splits if_splits)
qed

text \<open>
  The other side of a request: a responder whose mailbox holds just this request polls, runs its
  handler and posts the reply; afterwards the reply is all the mailbox of the requester holds.
\<close>

lemma serve_once_replies:
  assumes "client_of cb d b" "rate_limit_per_second b \<le> 0" "pulls b who" "who \<noteq> d" "who \<noteq> []"
    and "ag_id bob = d" "ag_tasks bob = Some []" "ag_on_request bob = Some (dispatch_handler rs)" "rs_agent_id rs = d"
    and "mtype m = REQUEST" "correlation_id m = None" "sender (meta m) = JStr who"
    and "box b d = [serialize m]" "deserialize (serialize m) = Inr m" "box b who = []"
    and "\<And>b. dispatch st rs m (b, s) = (Inr reply, (b, s'))" "st_id st \<noteq> []" "st_now st \<noteq> []"
    and "wf_message reply" "int (length (serialize reply)) \<le> max_body_size b"
  shows "\<exists>b' bob'. serve_once (brokered_peer (to_broker ft net sleep a) cb sl rt) st (bob, (b, s)) = (bob', (b', s')) \<and>
    box b' who = [serialize reply] \<and> config b' = config b"
proof -
  let ?pr = "brokered_peer (to_broker ft net sleep a) cb sl rt"
  have "deserialize_all (map JStr (box b d)) = Inr [m]"
    using assms(13,14) by (simp add: deserialize_value_def)
  from broker_receive_queued[OF assms(1,2) _ this, of ft net sleep a PULL_POLL_WAIT PULL_POLL_TIMEOUT s] assms(4,13,15)
  obtain b1 where b1: "broker_receive (to_broker ft net sleep a) cb d PULL_POLL_WAIT PULL_POLL_TIMEOUT (b, s) = (Inr [m], (b1, s))"
    "config b1 = config b" "entry b1 who = entry b who" "box b1 who = []"
    by auto
  let ?bob = "bob\<lparr>ag_tasks := Some [m]\<rparr>"
  have "snd (recv_round ?pr (bob, (b, s))) = (?bob, (b1, s))"
    using assms(6,7,11) b1(1) by (simp add: recv_round_def dispatch_pull_def)
  moreover have ok: "valid_message reply \<and> answers rs m reply"
    using dispatch_valid[OF assms(16) [of b1] assms(17,18)] assms(1,9) by (simp add: client_of_def)
  moreover have "queues_for d reply b1 = Some who"
  proof (rule pulls_queues)
    show "pulls b1 who" using assms(3) pulls_entry[OF b1(3)] by simp
    show "sender (meta reply) = JStr d" "recipient (meta reply) = JStr who"
      using ok assms(9,12) by (simp_all add: answers_def)
  qed (rule assms(5))
  then obtain b2 where b2: "broker_send (to_broker ft net sleep a) cb reply (ag_timeout bob) (b1, s') = (Inr None, (b2, s'))"
    "box b2 who = [serialize reply]" "config b2 = config b1"
    using broker_send_queued[of cb d b1 reply who ft net sleep a "ag_timeout bob" s'] assms(1,2,19,20) ok b1
      client_of_config[OF b1(2)] by (auto simp: config_def)
  let ?done_bob = "bob\<lparr>ag_tasks := Some [], ag_inbox := ag_inbox bob @ [m]\<rparr>"
  have "run_task ?pr st (?bob, (b1, s)) = (?done_bob, (b2, s'))"
    using assms(8,10) b2(1) assms(16)[of b1]
    by (simp add: run_task_def run_handler_def handle_def dispatch_handler_def reply_for_def)
  ultimately have "serve_once ?pr st (bob, (b, s)) = (?done_bob, (b2, s'))" by (simp add: serve_once_def)
  with b1(2) b2 show ?thesis by auto
qed

section \<open>Properties\<close>

text \<open>
  What happens while the requester waits: the responder serves its mailbox, then the requester's
  own receive loop makes a round.
\<close>

definition while_waiting :: "'s peer \<Rightarrow> 's peer \<Rightarrow> stamp \<Rightarrow> 's agent \<Rightarrow> 's agent \<times> 's \<Rightarrow> 's agent \<times> 's" where
  "while_waiting pa pb st bob w = snd (recv_round pa (fst w, snd (serve_once pb st (bob, snd w))))"

lemma collect_reply:
  assumes "client_of ca who b" "rate_limit_per_second b \<le> 0" "box b who = [serialize reply]"
    and "valid_message reply" "wf_message reply" "ag_id ag = who"
  shows "\<exists>b'. snd (recv_round (brokered_peer (to_broker ft net sleep a) ca sl rt) (ag, (b, s))) = (dispatch_pull reply ag, (b', s))"
proof -
  have "deserialize_all (map JStr (box b who)) = Inr [reply]"
    using assms(3-5) deserialize_serialize by (simp add: deserialize_value_def)
  then obtain b' where
    "broker_receive (to_broker ft net sleep a) ca who PULL_POLL_WAIT PULL_POLL_TIMEOUT (b, s) = (Inr [reply], (b', s))"
    using broker_receive_queued[of ca who b "[reply]" ft net sleep a PULL_POLL_WAIT PULL_POLL_TIMEOUT s] assms(1-3) by auto
  then show ?thesis using assms(6) by (simp add: recv_round_def)
qed

text \<open>
  Property C5. A request over the broker returns the reply of the responder: when both agents
  have mailboxes and nothing else is queued, \<open>send_request\<close> of a pull agent returns the very
  message that the responder's dispatcher makes of this request, correlated with it, from the
  responder, and no waiter is left behind. Nothing is lost, changed or mixed up on the way through
  two sends, two polls and the handler.
\<close>

theorem request_reply_through_broker:
  assumes "client_of ca who b" "client_of cb d b" "rate_limit_per_second b \<le> 0" "who \<noteq> d"
    and "pulls b who" "pulls b d" "box b who = []" "box b d = []"
    and "ag_id alice = who" "ag_pull alice"
    and "ag_id bob = d" "ag_tasks bob = Some []" "ag_on_request bob = Some (dispatch_handler rs)" "rs_agent_id rs = d"
    and "m = build_request st who d payload ext" "st_id st \<noteq> []" "st_now st \<noteq> []"
    and "wf_message m" "int (length (serialize m)) \<le> max_body_size b"
    and "\<And>b. dispatch st' rs m (b, s) = (Inr reply, (b, s'))" "st_id st' \<noteq> []" "st_now st' \<noteq> []"
    and "wf_message reply" "int (length (serialize reply)) \<le> max_body_size b"
  shows "\<exists>alice' w. send_request (brokered_peer (to_broker ft net sleep a) ca sl rt)
      (while_waiting (brokered_peer (to_broker ft net sleep a) ca sl rt)
        (brokered_peer (to_broker ft net sleep a') cb sl' rt') st' bob) st d payload timeout ext (alice, (b, s))
      = (Inr reply, (alice', w)) \<and>
    correlation_id reply = Some (message_id m) \<and> sender (meta reply) = JStr d \<and>
    dict_get (ag_waiters alice') (message_id m) = None"
proof -
  let ?pa = "brokered_peer (to_broker ft net sleep a) ca sl rt"
    and ?pb = "brokered_peer (to_broker ft net sleep a') cb sl' rt'"
    and ?alice = "add_waiter (message_id m) alice"
  have ids: "who \<noteq> []" "d \<noteq> []" using assms(1,2) by (auto simp: client_of_def)
  have valid: "valid_message m" unfolding assms(15) by (rule valid_request) (use ids assms(16,17) in auto)
  have "queues_for who m b = Some d" by (rule pulls_queues) (use ids assms(6,15) in auto)
  from broker_send_queued[OF assms(1,3) valid assms(18,19) this, of ft net sleep a "ag_timeout alice" s] assms(4,8)
  obtain b1 where b1: "broker_send (to_broker ft net sleep a) ca m (ag_timeout alice) (b, s) = (Inr None, (b1, s))"
    "box b1 d = [serialize m]" "config b1 = config b" "entry b1 who = entry b who" "box b1 who = box b who" by auto
  have ok: "valid_message reply \<and> answers rs m reply"
    using dispatch_valid[OF assms(20) [of b1] assms(21,22)] ids assms(14) by simp
  have 1: "begin_request ?pa m d (alice, (b, s)) = (Inr (), (?alice, (b1, s)))"
    using b1(1) by (simp add: begin_request_def Let_def)
  have cfg: "rate_limit_per_second b1 \<le> 0" "max_body_size b1 = max_body_size b" "client_of cb d b1"
    using assms(2,3) b1(3) client_of_config[OF b1(3)] by (auto simp: config_def)
  obtain b2 bob' where b2: "serve_once ?pb st' (bob, (b1, s)) = (bob', (b2, s'))" "box b2 who = [serialize reply]"
    "config b2 = config b1"
    using serve_once_replies[OF cfg(3,1) _ assms(4) ids(1) assms(11-14), where m = m and s = s and st = st' and reply = reply and s' = s' and
        ft = ft and net = net and sleep = sleep and a = a' and sl = sl' and rt = rt']
      assms(5,7,15,20-24) b1(2,4,5) cfg(2) pulls_entry[OF b1(4)] deserialize_serialize[OF valid assms(18)] by auto
  have corr: "correlation_id reply = Some (message_id m)" "sender (meta reply) = JStr d"
    using ok assms(14) by (simp_all add: answers_def)
  have "client_of ca who b2" "rate_limit_per_second b2 \<le> 0" "ag_id ?alice = who"
    using assms(1,9) cfg(1) b1(3) b2(3) client_of_config[of b2 b] by (auto simp: config_def add_waiter_def)
  then obtain b3 where "snd (recv_round ?pa (?alice, (b2, s'))) = (dispatch_pull reply ?alice, (b3, s'))"
    using collect_reply[of ca who b2 reply ?alice ft net sleep a sl rt s'] b2(2) ok assms(23) by blast
  then have 2: "while_waiting ?pa ?pb st' bob (?alice, (b1, s)) = (dispatch_pull reply ?alice, (b3, s'))"
    using b2(1) by (simp add: while_waiting_def)
  have slot: "dict_get (ag_waiters (dispatch_pull reply ?alice)) (message_id m) = Some [reply]"
    by (simp add: dispatch_pull_def corr(1) add_waiter_def dict_simps)
  have "send_request ?pa (while_waiting ?pa ?pb st' bob) st d payload timeout ext (alice, (b, s)) =
      (Inr reply, (drop_waiter (message_id m) (dispatch_pull reply ?alice), (b3, s')))"
    using assms(9,10,15) 1 2 slot
    by (simp add: send_request_def send_request_pull_def end_request_def Let_def)
  moreover have "dict_get (ag_waiters (drop_waiter k ag)) k = None" for k and ag :: "(broker \<times> 'a) agent"
    by (simp add: drop_waiter_def dict_simps)
  ultimately show ?thesis using corr by blast
qed

text \<open>Alice and Bob both pull; Bob answers requests of kind \<open>echo\<close>.\<close>

definition both_broker :: broker where
  "both_broker = apply_register 100 (bob_args\<lparr>v_agent_id := ''alice''\<rparr>) bob_broker"

definition request_stamp :: stamp where
  "request_stamp = \<lparr>st_now = ''t'', st_id = ''m-1''\<rparr>"

definition reply_stamp :: stamp where
  "reply_stamp = \<lparr>st_now = ''t'', st_id = ''m-2''\<rparr>"

definition echo_payload :: "(string, json) dict" where
  "echo_payload = [(''kind'', JStr ''echo''), (''params'', JDict [(''x'', JInt 1)])]"

definition echo_reply :: message where
  "echo_reply = projr (response_to ''t'' ''m-2'' echo_request (Some [(''x'', JInt 1)]) (Some ''bob'') [])"

lemma both_config: "config both_broker = config bob_broker"
  by (simp add: both_broker_def apply_register_fields)

lemma both_clients: "client_of alice_conn ''alice'' both_broker" "client_of bob_conn ''bob'' both_broker"
  "rate_limit_per_second both_broker \<le> 0" "max_body_size both_broker = 1048576"
  using sample_clients client_of_config[OF both_config] both_config bob_frame by (auto simp: config_def)

lemma both_pull: "pulls both_broker ''alice''" "pulls both_broker ''bob''" "box both_broker c = []"
  using bob_entry bob_box
  by (auto simp: pulls_def both_broker_def apply_register_fields reg_gets endpoint_of_def bob_args_def entry_def)

lemma echo_dispatch: "dispatch reply_stamp echo_responder echo_request s = (Inr echo_reply, s)"
  by (simp add: dispatch_def echo_responder_def register_handler_def lookup_handler_def responder_init_def dict_simps
      nonempty_str_def key_text_def echo_handler_def params_of_def echo_reply_def response_to_def mk_response_def
      reply_stamp_def Let_def) (simp add: echo_request_def mk_request_def get_default_def as_dict_def)

lemma echo_texts: "length (serialize echo_request) < 400" "length (serialize echo_reply) < 400"
  "wf_message echo_request" "wf_message echo_reply"
  by code_simp+

definition echo_bob :: "(broker \<times> unit) agent" where
  "echo_bob = (responder_agent echo_responder ''30.0'')\<lparr>ag_tasks := Some []\<rparr>"

lemma echo_bob_fields: "ag_id echo_bob = ''bob''" "ag_tasks echo_bob = Some []"
  "ag_on_request echo_bob = Some (dispatch_handler echo_responder)" "rs_agent_id echo_responder = ''bob''"
  by (simp_all add: echo_bob_def responder_agent_def brokered_agent_init_def on_request_def agent_init_def
      echo_responder_def register_handler_def responder_init_def)

abbreviation conn_peer :: "broker_conn \<Rightarrow> (broker \<times> unit) peer" where
  "conn_peer c \<equiv> brokered_peer (to_broker half_text dead_net no_sleep noon) c (\<lambda>t w. w) (broker_router sample_broker)"

theorem request_reply_through_broker_witness:
  "\<exists>alice w. send_request (conn_peer alice_conn)
      (while_waiting (conn_peer alice_conn) (conn_peer bob_conn) reply_stamp echo_bob)
      request_stamp ''bob'' (Some echo_payload) None [] (agent_init ''alice'' ''5.0'' True, (both_broker, ()))
      = (Inr echo_reply, (alice, w))"
proof -
  have m: "echo_request = build_request request_stamp ''alice'' ''bob'' (Some echo_payload) []"
    by (simp add: echo_request_def build_request_def request_stamp_def echo_payload_def)
  have alice: "ag_id (agent_init ''alice'' ''5.0'' True) = ''alice''" "ag_pull (agent_init ''alice'' ''5.0'' True)"
    by (simp_all add: agent_init_def)
  have stamps: "st_id request_stamp \<noteq> []" "st_now request_stamp \<noteq> []" "st_id reply_stamp \<noteq> []" "st_now reply_stamp \<noteq> []"
    by (simp_all add: request_stamp_def reply_stamp_def)
  have sizes: "int (length (serialize echo_request)) \<le> max_body_size both_broker"
    "int (length (serialize echo_reply)) \<le> max_body_size both_broker"
    using echo_texts(1,2) by (simp_all add: both_clients(4))
  have "''alice'' \<noteq> ''bob''" by simp
  from request_reply_through_broker[OF both_clients(1-3) this both_pull(1,2) both_pull(3) both_pull(3) alice
      echo_bob_fields m stamps(1,2) echo_texts(3) sizes(1) echo_dispatch stamps(3,4) echo_texts(4) sizes(2)]
  show ?thesis by blast
qed

end
