(* ===== verification/Agent_Properties.thy ===== *)
theory Agent_Properties
  imports Agent_Run Request_Reply
begin

text \<open>
  The property of the agent's threads, with a run of a small agent whose peer delivers one
  message.
\<close>


text \<open>A peer that accepts everything and delivers one message in each poll.\<close>

definition echo_peer :: "unit peer" where
  "echo_peer = \<lparr>pr_register = (\<lambda>ep caps s. (Inr (), s)), pr_unregister = (\<lambda>a s. (Inr (), s)),
     pr_send = (\<lambda>m ep t s. (Inr None, s)), pr_receive = (\<lambda>a w t s. (Inr [echo_request], s)),
     pr_route = (\<lambda>m t s. (Inr None, s))\<rparr>"

definition run_0 :: "unit agent_run" where
  "run_0 = agent_run_init (agent_init ''bob'' ''5.0'' True) ()"

definition run_1 :: "unit agent_run" where
  "run_1 = set_state (snd (agent_start echo_peer (\<lambda>h. Inr (h, 0)) None (state_of run_0))) run_0"

definition run_2 :: "unit agent_run" where
  "run_2 = set_state (snd (recv_round echo_peer (state_of run_1))) run_1
     \<lparr>ar_polled := ar_polled run_1 @ received echo_peer (state_of run_1)\<rparr>"

definition run_3 :: "unit agent_run" where
  "run_3 = set_state (run_task echo_peer reply_stamp (state_of run_2)) run_2
     \<lparr>ar_ran := ar_ran run_2 @ next_task (ar_agent run_2)\<rparr>"

lemma run_1_fields: "ag_loops (ar_agent run_1) = 1" "ag_tasks (ar_agent run_1) = Some []"
  "ag_on_request (ar_agent run_1) = None" "ar_polled run_1 = []" "ar_ran run_1 = []"
  by (simp_all add: run_1_def run_0_def agent_run_init_def agent_init_def agent_start_def state_of_def set_state_def
      echo_peer_def)

lemma run_2_fields: "ar_polled run_2 = [echo_request]" "ag_tasks (ar_agent run_2) = Some [echo_request]" "ar_ran run_2 = []"
  by (simp_all add: run_2_def recv_round_def received_def state_of_def set_state_def echo_peer_def run_1_fields
      dispatch_pull_def echo_request_def mk_request_def)

lemma run_3_reachable: "agent_reachable echo_peer run_3"
proof -
  have "agent_reachable echo_peer run_0" unfolding run_0_def by (rule agent_reachable.Init)
  moreover have "agent_step echo_peer run_0 run_1" unfolding run_1_def by (rule agent_step.Start) (rule prod.collapse[symmetric])
  moreover have "agent_step echo_peer run_1 run_2"
    unfolding run_2_def by (rule agent_step.Poll[OF _ prod.collapse[symmetric]]) (simp add: run_1_fields)
  moreover have "agent_step echo_peer run_2 run_3" unfolding run_3_def by (rule agent_step.Work)
  ultimately show ?thesis by (blast intro: agent_reachable.Step)
qed


end
