(* ===== verification/Lifecycle_Props.thy ===== *)
theory Lifecycle_Props
  imports Lifecycle
begin

text \<open>
  What the lifecycle server answers: three kinds of requests, and the same answers with and
  without tracing as long as the tracer does not raise.
\<close>

section \<open>Tracing\<close>

text \<open>A tracer none of whose calls raises; a disabled one is.\<close>

definition quiet :: "'s tracing \<Rightarrow> bool" where
  "quiet tr \<longleftrightarrow> (case tr of None \<Rightarrow> True | Some client \<Rightarrow>
     (\<forall>name s. isl (fst (lf_trace client name s)) = False) \<and>
     (\<forall>sp name md s. isl (fst (lf_span_event client sp name md s)) = False) \<and>
     (\<forall>sp s. isl (fst (lf_exit client sp s)) = False))"

lemma traced_quiet:
  assumes "quiet (Some client)"
  shows "\<exists>s'. traced client name ev md result s = (Inr result, s')"
proof -
  from assms have q: "isl (fst (lf_trace client n s)) = False" "isl (fst (lf_span_event client sp n m s)) = False"
    "isl (fst (lf_exit client sp s)) = False" for n sp m s
    by (simp_all add: quiet_def)
  obtain r1 s1 where 1: "lf_trace client name s = (r1, s1)" by (cases "lf_trace client name s")
  with q(1)[of name s] obtain sp where sp: "r1 = Inr sp" by (cases r1) auto
  obtain r2 s2 where 2: "lf_span_event client sp ev md s1 = (r2, s2)" by (cases "lf_span_event client sp ev md s1")
  with q(2)[of sp ev md s1] obtain u where r2: "r2 = Inr u" by (cases r2) auto
  obtain r3 s3 where 3: "lf_exit client sp s2 = (r3, s3)" by (cases "lf_exit client sp s2")
  with q(3)[of sp s2] obtain v where "r3 = Inr v" by (cases r3) auto
  with 1 2 3 sp r2 show ?thesis by (simp add: traced_def)
qed

text \<open>A tracer that cannot open a trace makes the handler fail.\<close>

lemma traced_fails: "lf_trace client name s = (Inl e, s') \<Longrightarrow> traced client name ev md result s = (Inl e, s')"
  by (simp add: traced_def)

section \<open>Kinds\<close>

lemma lifecycle_builtin: "LIFECYCLE_BUILTIN_HANDLERS = [(''monitor'', ''handle_monitor'')]"
  by (simp add: LIFECYCLE_BUILTIN_HANDLERS_def BUILTIN_HANDLERS_def)

lemmas lifecycle_server_simps = lifecycle_server_def register_handler_def responder_init_def lifecycle_builtin Let_def

lemma lifecycle_kinds: "supported_kinds (lifecycle_server c tr) = [''lifecycle'', ''monitor'', ''status'']"
proof -
  have "supported_kinds (lifecycle_server c tr) = sort (remdups [''monitor'', ''status'', ''lifecycle''])"
    by (simp add: supported_kinds_def lifecycle_server_simps dict_set_def)
  also have "\<dots> = [''lifecycle'', ''monitor'', ''status'']" by code_simp
  finally show ?thesis .
qed

lemma lifecycle_lookup:
  "lookup_handler (lifecycle_server c tr) ''monitor'' = Some (lifecycle_monitor (lc_agent_id c) tr)"
  "lookup_handler (lifecycle_server c tr) ''status'' = Some (lifecycle_status (lc_agent_id c) tr)"
  "lookup_handler (lifecycle_server c tr) ''lifecycle'' = Some (handle_lifecycle tr)"
  by (simp_all add: lookup_handler_def lifecycle_server_simps dict_simps)

lemma lifecycle_id [simp]: "rs_agent_id (lifecycle_server c tr) = lc_agent_id c"
  by (simp add: lifecycle_server_simps)

section \<open>Properties\<close>

definition lifecycle_answer :: "lifecycle_config \<Rightarrow> 's tracing \<Rightarrow> message \<Rightarrow> string \<Rightarrow> (string, json) dict" where
  "lifecycle_answer c tr request k =
     (if k = ''lifecycle'' then command_result (params_of request) else status_result (lc_agent_id c) tr)"

lemma lifecycle_handles:
  assumes "quiet tr" "k \<in> set [''lifecycle'', ''monitor'', ''status'']"
  shows "\<exists>h s'. lookup_handler (lifecycle_server c tr) k = Some h \<and>
    h request (params_of request) s = (Inr (lifecycle_answer c tr request k), s')"
proof (cases tr)
  case None
  then show ?thesis using assms(2)
    by (auto simp: lifecycle_lookup lifecycle_answer_def lifecycle_monitor_def lifecycle_status_def handle_lifecycle_def
        build_status_result_def)
next
  case (Some client)
  with assms(1) have q: "quiet (Some client)" by simp
  consider "k = ''lifecycle''" | "k = ''monitor''" | "k = ''status''" using assms(2) by auto
  then show ?thesis
  proof cases
    case 1
    then show ?thesis
      using traced_quiet[OF q] Some by (simp add: lifecycle_lookup lifecycle_answer_def handle_lifecycle_def)
  next
    case 2
    then show ?thesis
      using traced_quiet[OF q] Some
      by (simp add: lifecycle_lookup lifecycle_answer_def lifecycle_monitor_def build_status_result_def)
  next
    case 3
    then show ?thesis
      using traced_quiet[OF q] Some
      by (simp add: lifecycle_lookup lifecycle_answer_def lifecycle_status_def build_status_result_def)
  qed
qed


definition restart_request :: message where
  "restart_request = mk_request ''m-1'' (metadata_create ''t'' (JStr ''ops'') (JStr ''lifecycle-server'') [])
     [(''kind'', JStr ''lifecycle''), (''params'', JDict [(''command'', JStr ''restart''), (''service'', JStr ''web'')])]"

definition default_lifecycle :: lifecycle_config where
  "default_lifecycle = \<lparr>lc_agent_id = ''lifecycle-server'', lc_broker_host = ''localhost'', lc_broker_port = 8443,
     lc_broker_scheme = ''https'', lc_broker_token = None, lc_broker_tls_ca = None, lc_langfuse_public_key = None,
     lc_langfuse_secret_key = None, lc_langfuse_host = None\<rparr>"

definition quiet_client :: "nat langfuse" where
  "quiet_client = \<lparr>lf_trace = (\<lambda>name n. (Inr n, n + 1)), lf_span_event = (\<lambda>sp name md n. (Inr (), n)),
     lf_exit = (\<lambda>sp n. (Inr (), n)), lf_event = (\<lambda>name tid n. (Inr (), n))\<rparr>"


end
