(* ===== verification/Supervision.thy ===== *)
theory Supervision
  imports Broker_Config
begin

text \<open>
  The supervision agent, \<open>lifecycle/supervision.py\<close>: its configuration, the poll of one
  service with its health check, restart with backoff and escalation, the poll loop, start and
  stop, and the status endpoint.

  The world is a parameter. It has the two clocks, the sleep, the stop event, the lifecycle
  backend and the alert callback, each of which may change it. The health check is a loop with no
  bound of its own, so it is a partial function. Times and delays are exact numbers: a
  configuration with an infinite or undefined number has no supervisor here.
\<close>

section \<open>Incidents and service states\<close>

datatype incident_kind = DEGRADED | RESTARTED | ESCALATED

record incident =
  inc_timestamp :: seconds
  inc_service :: string
  inc_kind :: incident_kind
  inc_message :: string
  inc_attempt :: "nat option"

record service_state =
  ss_name :: string
  ss_healthy :: bool
  ss_consecutive_failures :: nat
  ss_restart_count :: nat
  ss_escalated :: bool
  ss_last_health_check :: seconds
  ss_last_failure :: "seconds option"
  ss_last_restart :: "seconds option"
  ss_escalation_time :: "seconds option"
  ss_incidents :: "incident list"

definition new_service_state :: "string \<Rightarrow> service_state" where
  "new_service_state name =
     \<lparr>ss_name = name, ss_healthy = True, ss_consecutive_failures = 0, ss_restart_count = 0, ss_escalated = False,
      ss_last_health_check = 0, ss_last_failure = None, ss_last_restart = None, ss_escalation_time = None,
      ss_incidents = []\<rparr>"

section \<open>Configuration (SupervisionConfig)\<close>

definition parse_service_list :: "string \<Rightarrow> string list" where
  "parse_service_list raw =
     (if raw = [] then [] else split_ws [] (map (\<lambda>c. if c = CHR '','' then CHR '' '' else c) raw))"

record supervision_config =
  scf_poll_interval :: pyfloat
  scf_health_timeout :: pyfloat
  scf_max_restart_attempts :: int
  scf_backoff_base :: pyfloat
  scf_backoff_max :: pyfloat
  scf_escalation_cooldown :: pyfloat
  scf_services :: "string list"
  scf_status_host :: string
  scf_status_port :: int

definition default_supervision_config :: supervision_config where
  "default_supervision_config =
     \<lparr>scf_poll_interval = Fin 30, scf_health_timeout = Fin 10, scf_max_restart_attempts = 3,
      scf_backoff_base = Fin 5, scf_backoff_max = Fin 300, scf_escalation_cooldown = Fin 600,
      scf_services = [], scf_status_host = ''127.0.0.1'', scf_status_port = 0\<rparr>"

definition validate_supervision :: "supervision_config \<Rightarrow> unit result" where
  "validate_supervision c =
     (if pf_le (scf_poll_interval c) (Fin 0) then Inl (PyValueError ''poll_interval_seconds must be positive'')
      else if pf_le (scf_health_timeout c) (Fin 0) then Inl (PyValueError ''health_timeout_seconds must be positive'')
      else if scf_max_restart_attempts c < 0 then Inl (PyValueError ''max_restart_attempts must be >= 0'')
      else if pf_le (scf_backoff_base c) (Fin 0) then Inl (PyValueError ''backoff_base_seconds must be positive'')
      else if pf_less (scf_backoff_max c) (scf_backoff_base c)
      then Inl (PyValueError ''backoff_max_seconds must be >= backoff_base_seconds'')
      else if pf_less (scf_escalation_cooldown c) (Fin 0)
      then Inl (PyValueError ''escalation_cooldown_seconds must be >= 0'')
      else Inr ())"

definition sv_float :: "environ \<Rightarrow> string \<Rightarrow> string \<Rightarrow> pyfloat result" where
  "sv_float env key def = (let raw = env_get env key def in case py_float raw of
     Some x \<Rightarrow> Inr x
   | None \<Rightarrow> Inl (PyValueError (''could not convert string to float: '' @ repr_str raw)))"

definition parse_supervision :: "environ \<Rightarrow> supervision_config result" where
  "parse_supervision env =
     (case sv_float env ''ROBOTSIX_SUPERVISION_POLL_INTERVAL_SECONDS'' ''30.0'' of
        Inl e \<Rightarrow> Inl e
      | Inr poll \<Rightarrow> (case sv_float env ''ROBOTSIX_SUPERVISION_HEALTH_TIMEOUT_SECONDS'' ''10.0'' of
          Inl e \<Rightarrow> Inl e
        | Inr health \<Rightarrow> (case env_int (env_get env ''ROBOTSIX_SUPERVISION_MAX_RESTART_ATTEMPTS'' ''3'') of
            Inl e \<Rightarrow> Inl e
          | Inr attempts \<Rightarrow> (case sv_float env ''ROBOTSIX_SUPERVISION_BACKOFF_BASE_SECONDS'' ''5.0'' of
              Inl e \<Rightarrow> Inl e
            | Inr base \<Rightarrow> (case sv_float env ''ROBOTSIX_SUPERVISION_BACKOFF_MAX_SECONDS'' ''300.0'' of
                Inl e \<Rightarrow> Inl e
              | Inr bmax \<Rightarrow> (case sv_float env ''ROBOTSIX_SUPERVISION_ESCALATION_COOLDOWN_SECONDS'' ''600.0'' of
                  Inl e \<Rightarrow> Inl e
                | Inr cooldown \<Rightarrow> (case env_int (env_get env ''ROBOTSIX_SUPERVISION_STATUS_PORT'' ''0'') of
                    Inl e \<Rightarrow> Inl e
                  | Inr port \<Rightarrow> Inr
                      \<lparr>scf_poll_interval = poll, scf_health_timeout = health, scf_max_restart_attempts = attempts,
                       scf_backoff_base = base, scf_backoff_max = bmax, scf_escalation_cooldown = cooldown,
                       scf_services = parse_service_list (env_get env ''ROBOTSIX_SUPERVISION_SERVICES'' []),
                       scf_status_host = env_get env ''ROBOTSIX_SUPERVISION_STATUS_HOST'' ''127.0.0.1'',
                       scf_status_port = port\<rparr>)))))))"

definition supervision_from_env :: "environ \<Rightarrow> supervision_config result" where
  "supervision_from_env env = (case parse_supervision env of
     Inl e \<Rightarrow> Inl e
   | Inr c \<Rightarrow> (case validate_supervision c of Inl e \<Rightarrow> Inl e | Inr _ \<Rightarrow> Inr c))"

section \<open>The supervisor\<close>

record limits =
  lm_poll_interval :: seconds
  lm_health_timeout :: seconds
  lm_max_restart_attempts :: int
  lm_backoff_base :: seconds
  lm_backoff_max :: seconds
  lm_escalation_cooldown :: seconds

fun finite_float :: "pyfloat \<Rightarrow> seconds option" where
  "finite_float (Fin x) = Some x"
| "finite_float _ = None"

definition limits_of :: "supervision_config \<Rightarrow> limits option" where
  "limits_of c =
     (case (finite_float (scf_poll_interval c), finite_float (scf_health_timeout c), finite_float (scf_backoff_base c),
            finite_float (scf_backoff_max c), finite_float (scf_escalation_cooldown c)) of
        (Some p, Some h, Some b, Some m, Some d) \<Rightarrow> Some
          \<lparr>lm_poll_interval = p, lm_health_timeout = h, lm_max_restart_attempts = scf_max_restart_attempts c,
           lm_backoff_base = b, lm_backoff_max = m, lm_escalation_cooldown = d\<rparr>
      | _ \<Rightarrow> None)"

record 's environment =
  ev_time :: "'s \<Rightarrow> seconds"
  ev_monotonic :: "'s \<Rightarrow> seconds"
  ev_sleep :: "seconds \<Rightarrow> 's \<Rightarrow> 's"
  ev_stopped :: "'s \<Rightarrow> bool"
  ev_set_stop :: "bool \<Rightarrow> 's \<Rightarrow> 's"
  ev_health :: "string \<Rightarrow> ('s, bool) io"
  ev_start :: "string \<Rightarrow> string option \<Rightarrow> ('s, unit) io"
  ev_stop :: "string \<Rightarrow> ('s, unit) io"
  ev_alert :: "(incident \<Rightarrow> ('s, unit) io) option"

record supervisor =
  sv_services :: "string list"
  sv_limits :: limits
  sv_states :: "(string, service_state) dict"
  sv_backoff :: "(string, seconds) dict"
  sv_deadline :: "(string, seconds) dict"
  sv_poll_count :: nat
  sv_thread :: bool
  sv_status :: "(string \<times> int) option"

definition build_supervisor :: "supervision_config \<Rightarrow> supervisor option" where
  "build_supervisor c = (case limits_of c of
     None \<Rightarrow> None
   | Some l \<Rightarrow> Some \<lparr>sv_services = scf_services c, sv_limits = l, sv_states = [], sv_backoff = [], sv_deadline = [],
       sv_poll_count = 0, sv_thread = False, sv_status = None\<rparr>)"

section \<open>The poll of a service\<close>

definition get_state :: "string \<Rightarrow> supervisor \<Rightarrow> service_state \<times> supervisor" where
  "get_state name sv = (case dict_get (sv_states sv) name of
     Some st \<Rightarrow> (st, sv)
   | None \<Rightarrow> (new_service_state name, sv\<lparr>sv_states := dict_set name (new_service_state name) (sv_states sv)\<rparr>))"

text \<open>Write back the state object of a service.\<close>

definition put_state :: "string \<Rightarrow> service_state \<Rightarrow> supervisor \<Rightarrow> supervisor" where
  "put_state name st sv = sv\<lparr>sv_states := dict_set name st (sv_states sv)\<rparr>"

definition emit :: "'s environment \<Rightarrow> incident \<Rightarrow> 's \<Rightarrow> 's" where
  "emit ev inc s = (case ev_alert ev of None \<Rightarrow> s | Some f \<Rightarrow> snd (f inc s))"

text \<open>The health check: probe every half second until healthy or the time is over.\<close>

partial_function (option) health_loop :: "'s environment \<Rightarrow> string \<Rightarrow> seconds \<Rightarrow> 's \<Rightarrow> (bool \<times> 's) option" where
  "health_loop ev name deadline s =
     (if ev_monotonic ev s < deadline then
        (case ev_health ev name s of (r, s') \<Rightarrow>
           (if r = Inr True then Some (True, s') else health_loop ev name deadline (ev_sleep ev (1/2) s')))
      else Some (False, s))"

definition restart_incident :: "seconds \<Rightarrow> string \<Rightarrow> nat \<Rightarrow> incident" where
  "restart_incident now name attempt =
     \<lparr>inc_timestamp = now, inc_service = name, inc_kind = RESTARTED,
      inc_message = ''Service '' @ repr_str name @ '' restarted (attempt '' @ nat_str attempt @ '')'',
      inc_attempt = Some attempt\<rparr>"

definition next_backoff :: "limits \<Rightarrow> seconds \<Rightarrow> seconds" where
  "next_backoff lm current =
     (if current = 0 then lm_backoff_base lm else min (current * 2) (lm_backoff_max lm))"

text \<open>\<open>_attempt_restart\<close>; the errors of the backend are logged and dropped.\<close>

definition attempt_restart ::
  "'s environment \<Rightarrow> string \<Rightarrow> service_state \<Rightarrow> seconds \<Rightarrow> supervisor \<times> 's \<Rightarrow> supervisor \<times> 's" where
  "attempt_restart ev name st now w = (case w of (sv, s) \<Rightarrow>
     (let current = (case dict_get (sv_backoff sv) name of Some x \<Rightarrow> x | None \<Rightarrow> 0)
      in if (case ss_last_restart st of Some t \<Rightarrow> now - t < current | None \<Rightarrow> False)
         then (put_state name st sv, s)
         else
           (let attempt = ss_restart_count st + 1;
                s1 = snd (ev_stop ev name s);
                s2 = snd (ev_start ev name None s1);
                inc = restart_incident now name attempt;
                st' = st\<lparr>ss_restart_count := attempt, ss_last_restart := Some now,
                        ss_incidents := ss_incidents st @ [inc]\<rparr>
            in (put_state name st' (sv\<lparr>sv_backoff := dict_set name (next_backoff (sv_limits sv) current) (sv_backoff sv)\<rparr>),
                emit ev inc s2))))"

text \<open>\<open>f"{x:.0f}"\<close>: the nearest integer, to even from the middle.\<close>

definition round_half_even :: "rat \<Rightarrow> int" where
  "round_half_even x = (let f = \<lfloor>x\<rfloor>; d = x - of_int f in
     if d < 1/2 then f else if d > 1/2 then f + 1 else if even f then f else f + 1)"

definition escalation_incident :: "seconds \<Rightarrow> service_state \<Rightarrow> seconds \<Rightarrow> incident" where
  "escalation_incident now st cooldown =
     \<lparr>inc_timestamp = now, inc_service = ss_name st, inc_kind = ESCALATED,
      inc_message = ''Service '' @ repr_str (ss_name st) @ '' escalated after '' @
        nat_str (ss_consecutive_failures st) @ '' consecutive failures ('' @
        nat_str (ss_restart_count st) @ '' restart attempts); cooldown '' @
        int_str (round_half_even cooldown) @ ''s'',
      inc_attempt = None\<rparr>"

definition escalate ::
  "'s environment \<Rightarrow> string \<Rightarrow> service_state \<Rightarrow> seconds \<Rightarrow> supervisor \<times> 's \<Rightarrow> supervisor \<times> 's" where
  "escalate ev name st now w = (case w of (sv, s) \<Rightarrow>
     (let cooldown = lm_escalation_cooldown (sv_limits sv);
          inc = escalation_incident now st cooldown;
          st' = st\<lparr>ss_escalated := True, ss_escalation_time := Some now, ss_incidents := ss_incidents st @ [inc]\<rparr>
      in (put_state name st' (sv\<lparr>sv_deadline := dict_set name (now + cooldown) (sv_deadline sv),
            sv_backoff := dict_pop name (sv_backoff sv)\<rparr>),
          emit ev inc s)))"

definition degraded_incident :: "seconds \<Rightarrow> string \<Rightarrow> incident" where
  "degraded_incident now name =
     \<lparr>inc_timestamp = now, inc_service = name, inc_kind = DEGRADED,
      inc_message = ''Service '' @ repr_str name @ '' is unhealthy'', inc_attempt = None\<rparr>"

definition on_healthy :: "string \<Rightarrow> service_state \<Rightarrow> supervisor \<Rightarrow> supervisor" where
  "on_healthy name st sv =
     put_state name (st\<lparr>ss_healthy := True, ss_consecutive_failures := 0, ss_escalated := False\<rparr>)
       (sv\<lparr>sv_backoff := dict_pop name (sv_backoff sv), sv_deadline := dict_pop name (sv_deadline sv)\<rparr>)"

definition on_unhealthy ::
  "'s environment \<Rightarrow> string \<Rightarrow> service_state \<Rightarrow> seconds \<Rightarrow> supervisor \<times> 's \<Rightarrow> supervisor \<times> 's" where
  "on_unhealthy ev name st now w = (case w of (sv, s) \<Rightarrow>
     (let st1 = st\<lparr>ss_healthy := False, ss_consecutive_failures := ss_consecutive_failures st + 1,
                   ss_last_failure := Some now\<rparr>
      in if ss_escalated st1 then (put_state name st1 sv, s)
         else
           (let first = (ss_consecutive_failures st1 = 1);
                inc = degraded_incident now name;
                st2 = (if first then st1\<lparr>ss_incidents := ss_incidents st1 @ [inc]\<rparr> else st1);
                s1 = (if first then emit ev inc s else s)
            in if int (ss_consecutive_failures st2) > lm_max_restart_attempts (sv_limits sv)
               then escalate ev name st2 now (sv, s1)
               else attempt_restart ev name st2 now (sv, s1))))"

definition poll_service :: "'s environment \<Rightarrow> string \<Rightarrow> supervisor \<times> 's \<Rightarrow> (supervisor \<times> 's) option" where
  "poll_service ev name w = (case w of (sv0, s) \<Rightarrow>
     (case get_state name sv0 of (st, sv) \<Rightarrow>
       (let now = ev_time ev s
        in if (case dict_get (sv_deadline sv) name of Some d \<Rightarrow> now < d | None \<Rightarrow> False) then Some (sv, s)
           else
             (let st1 = st\<lparr>ss_last_health_check := now\<rparr>
              in case health_loop ev name (ev_monotonic ev s + lm_health_timeout (sv_limits sv)) s of
                   None \<Rightarrow> None
                 | Some (healthy, s1) \<Rightarrow>
                     Some (if healthy then (on_healthy name st1 sv, s1) else on_unhealthy ev name st1 now (sv, s1))))))"

section \<open>The poll loop, start and stop\<close>

text \<open>The \<open>for\<close> loop of a cycle; \<open>False\<close> when the stop event ended it.\<close>

fun poll_services :: "'s environment \<Rightarrow> string list \<Rightarrow> supervisor \<times> 's \<Rightarrow> (bool \<times> supervisor \<times> 's) option" where
  "poll_services ev [] w = Some (True, w)"
| "poll_services ev (name # names) w =
     (if ev_stopped ev (snd w) then Some (False, w)
      else (case poll_service ev name w of
        None \<Rightarrow> None
      | Some w' \<Rightarrow> poll_services ev names w'))"

text \<open>
  One round of \<open>_poll_loop\<close>: \<open>None\<close> as its first part when the loop ends. \<open>Event.wait\<close> is
  the sleep of the world, which a stop event cuts short.
\<close>

definition poll_cycle :: "'s environment \<Rightarrow> supervisor \<times> 's \<Rightarrow> (bool \<times> supervisor \<times> 's) option" where
  "poll_cycle ev w = (case w of (sv, s) \<Rightarrow>
     (if ev_stopped ev s then Some (False, w)
      else (case poll_services ev (sv_services sv) (sv\<lparr>sv_poll_count := sv_poll_count sv + 1\<rparr>, s) of
        None \<Rightarrow> None
      | Some (False, w') \<Rightarrow> Some (False, w')
      | Some (True, (sv', s')) \<Rightarrow>
          (let remaining = lm_poll_interval (sv_limits sv') - (ev_monotonic ev s' - ev_monotonic ev s)
           in Some (True, (sv', if remaining > 0 then ev_sleep ev remaining s' else s'))))))"

definition init_states :: "string list \<Rightarrow> (string, service_state) dict \<Rightarrow> (string, service_state) dict" where
  "init_states names d = fold (\<lambda>name. dict_setdefault name (new_service_state name)) names d"

text \<open>\<open>start\<close>: the status server is bound where the argument says, or fails to bind.\<close>

definition supervisor_start ::
  "'s environment \<Rightarrow> (string \<times> int) result \<Rightarrow> (supervisor \<times> 's, unit) io" where
  "supervisor_start ev bound w = (case w of (sv, s) \<Rightarrow>
     (if sv_thread sv then (Inr (), w)
      else
        (let sv' = sv\<lparr>sv_states := init_states (sv_services sv) (sv_states sv)\<rparr>
         in case bound of
              Inl e \<Rightarrow> (Inl e, (sv', s))
            | Inr addr \<Rightarrow> (Inr (), (sv'\<lparr>sv_status := Some addr, sv_thread := True\<rparr>, ev_set_stop ev False s)))))"

definition supervisor_stop :: "'s environment \<Rightarrow> supervisor \<times> 's \<Rightarrow> supervisor \<times> 's" where
  "supervisor_stop ev w = (case w of (sv, s) \<Rightarrow>
     (sv\<lparr>sv_thread := False, sv_status := None\<rparr>, ev_set_stop ev True s))"

section \<open>The status endpoint\<close>

fun kind_value :: "incident_kind \<Rightarrow> string" where
  "kind_value DEGRADED = ''degraded''"
| "kind_value RESTARTED = ''restarted''"
| "kind_value ESCALATED = ''escalated''"

definition opt_json :: "('a \<Rightarrow> json) \<Rightarrow> 'a option \<Rightarrow> json" where
  "opt_json f x = (case x of None \<Rightarrow> JNull | Some v \<Rightarrow> f v)"

definition incident_json :: "(seconds \<Rightarrow> string) \<Rightarrow> incident \<Rightarrow> json" where
  "incident_json ft inc = JDict
     [(''timestamp'', JFloat (ft (inc_timestamp inc))), (''kind'', JStr (kind_value (inc_kind inc))),
      (''message'', JStr (inc_message inc)), (''attempt'', opt_json (\<lambda>n. JInt (int n)) (inc_attempt inc))]"

definition service_json :: "(seconds \<Rightarrow> string) \<Rightarrow> service_state \<Rightarrow> json" where
  "service_json ft st =
     (let time = opt_json (\<lambda>t. JFloat (ft t)) in JDict
     [(''healthy'', JBool (ss_healthy st)), (''consecutive_failures'', JInt (int (ss_consecutive_failures st))),
      (''restart_count'', JInt (int (ss_restart_count st))), (''escalated'', JBool (ss_escalated st)),
      (''last_health_check'', JFloat (ft (ss_last_health_check st))), (''last_failure'', time (ss_last_failure st)),
      (''last_restart'', time (ss_last_restart st)), (''escalation_time'', time (ss_escalation_time st)),
      (''recent_incidents'', JList (map (incident_json ft) (last_n 10 (ss_incidents st))))])"

definition status_do_GET :: "(seconds \<Rightarrow> string) \<Rightarrow> string \<Rightarrow> supervisor \<Rightarrow> payload outcome" where
  "status_do_GET ft path sv =
     (if path = ''/status'' then
        Reply 200 (PJson (JDict
          [(''services'', JDict (map (\<lambda>(name, st). (name, service_json ft st)) (sv_states sv))),
           (''running'', JBool (sv_thread sv)), (''poll_count'', JInt (int (sv_poll_count sv)))]))
      else Reply 404 (PJson (error_payload ''not found'')))"

end
