(* ===== verification/Supervision_Props.thy ===== *)
theory Supervision_Props
  imports Supervision
begin

text \<open>
  The supervisor: its health check ends, and every outage of a service is handled with discipline:
  a bounded number of restarts, each after the exponential backoff of the one before, at most one
  escalation.
\<close>

section \<open>The health check ends\<close>

text \<open>
  What is assumed of the clock: a sleep lasts at least as long as asked, and a probe does not turn
  the monotonic clock back.
\<close>

definition fair_clock :: "'s environment \<Rightarrow> bool" where
  "fair_clock ev \<longleftrightarrow>
     (\<forall>t s. 0 \<le> t \<longrightarrow> ev_monotonic ev s + t \<le> ev_monotonic ev (ev_sleep ev t s)) \<and>
     (\<forall>name s. ev_monotonic ev s \<le> ev_monotonic ev (snd (ev_health ev name s)))"

text \<open>The loop with a bound on the number of probes.\<close>

fun probe_at_most :: "'s environment \<Rightarrow> string \<Rightarrow> seconds \<Rightarrow> nat \<Rightarrow> 's \<Rightarrow> (bool \<times> 's) option" where
  "probe_at_most ev name deadline 0 s = (if ev_monotonic ev s < deadline then None else Some (False, s))"
| "probe_at_most ev name deadline (Suc n) s =
     (if ev_monotonic ev s < deadline then
        (case ev_health ev name s of (r, s') \<Rightarrow>
           (if r = Inr True then Some (True, s') else probe_at_most ev name deadline n (ev_sleep ev (1/2) s')))
      else Some (False, s))"

lemma health_loop_bounded:
  assumes "fair_clock ev" "2 * (deadline - ev_monotonic ev s) \<le> of_nat n"
  shows "\<exists>r. health_loop ev name deadline s = Some r \<and> probe_at_most ev name deadline n s = Some r"
  using assms(2)
proof (induction n arbitrary: s)
  case 0
  then have "\<not> ev_monotonic ev s < deadline" by simp
  then show ?case by (intro exI[of _ "(False, s)"]) (subst health_loop.simps, simp)
next
  case (Suc n)
  obtain r s' where h: "ev_health ev name s = (r, s')" by fastforce
  have "ev_monotonic ev s \<le> ev_monotonic ev (snd (ev_health ev name s))" using assms(1) by (simp add: fair_clock_def)
  moreover have "ev_monotonic ev s' + 1/2 \<le> ev_monotonic ev (ev_sleep ev (1/2) s')"
    using assms(1) by (simp add: fair_clock_def)
  ultimately have "2 * (deadline - ev_monotonic ev (ev_sleep ev (1/2) s')) \<le> of_nat n"
    using Suc.prems h by (simp add: algebra_simps)
  from Suc.IH[OF this] obtain x where
    x: "health_loop ev name deadline (ev_sleep ev (1/2) s') = Some x"
       "probe_at_most ev name deadline n (ev_sleep ev (1/2) s') = Some x" by blast
  let ?x = "if ev_monotonic ev s < deadline then if r = Inr True then (True, s') else x else (False, s)"
  have "health_loop ev name deadline s = Some ?x" using x(1) by (subst health_loop.simps) (simp add: h)
  moreover have "probe_at_most ev name deadline (Suc n) s = Some ?x" using x(2) by (simp add: h)
  ultimately show ?case by blast
qed

lemma health_loop_ends:
  assumes "fair_clock ev"
  shows "\<exists>r. health_loop ev name (ev_monotonic ev s + t) s = Some r \<and>
    probe_at_most ev name (ev_monotonic ev s + t) (nat \<lceil>2 * t\<rceil>) s = Some r"
proof (rule health_loop_bounded[OF assms])
  have "2 * t \<le> of_int \<lceil>2 * t\<rceil>" by (rule le_of_int_ceiling)
  also have "\<dots> \<le> of_nat (nat \<lceil>2 * t\<rceil>)" by (metis of_int_of_nat_eq of_int_le_iff nat_le_iff order_refl)
  finally show "2 * (ev_monotonic ev s + t - ev_monotonic ev s) \<le> of_nat (nat \<lceil>2 * t\<rceil>)" by simp
qed

lemma poll_service_ends:
  assumes "fair_clock ev"
  shows "\<exists>w'. poll_service ev name w = Some w'"
proof -
  obtain sv0 s where w: "w = (sv0, s)" by (cases w)
  obtain st sv where g: "get_state name sv0 = (st, sv)" by (cases "get_state name sv0")
  from health_loop_ends[OF assms] obtain r where
    "health_loop ev name (ev_monotonic ev s + lm_health_timeout (sv_limits sv)) s = Some r" by blast
  with w g show ?thesis by (cases r) (simp add: poll_service_def Let_def)
qed

lemma poll_services_ends:
  assumes "fair_clock ev"
  shows "\<exists>r. poll_services ev names w = Some r"
proof (induction names arbitrary: w)
  case Nil
  show ?case by (rule exI[of _ "(True, w)"]) simp
next
  case (Cons name names)
  from poll_service_ends[OF assms] obtain w' where "poll_service ev name w = Some w'" by blast
  moreover obtain r where "poll_services ev names w' = Some r" using Cons.IH by blast
  ultimately have "poll_services ev (name # names) w = Some (if ev_stopped ev (snd w) then (False, w) else r)"
    by simp
  then show ?case by blast
qed

text \<open>During the cooldown of an escalated service a poll probes nothing and restarts nothing.\<close>

lemma cooldown_quiet:
  assumes "dict_get (sv_deadline sv) name = Some d" "ev_time ev s < d"
  shows "poll_service ev name (sv, s) = Some (snd (get_state name sv), s)"
  using assms by (auto simp: poll_service_def get_state_def Let_def split: option.splits)

section \<open>Outages\<close>

abbreviation is_restart :: "incident \<Rightarrow> bool" where
  "is_restart i \<equiv> inc_kind i = RESTARTED"

text \<open>The incidents since the service was last found degraded, and the times of its restarts.\<close>

definition outage :: "incident list \<Rightarrow> incident list" where
  "outage incs = rev (takeWhile (\<lambda>i. inc_kind i \<noteq> DEGRADED) (rev incs))"

definition restart_times :: "incident list \<Rightarrow> seconds list" where
  "restart_times incs = map inc_timestamp (filter is_restart (outage incs))"

definition escalations :: "incident list \<Rightarrow> nat" where
  "escalations incs = length (filter (\<lambda>i. inc_kind i = ESCALATED) (outage incs))"

lemma outage_append: "outage (incs @ [i]) = (if inc_kind i = DEGRADED then [] else outage incs @ [i])"
  by (simp add: outage_def)

lemma outage_Nil [simp]: "outage [] = []"
  by (simp add: outage_def)

text \<open>The backoff after \<open>n\<close> restarts.\<close>

definition backoff_after :: "limits \<Rightarrow> nat \<Rightarrow> seconds" where
  "backoff_after lm n = min (lm_backoff_base lm * 2 ^ (n - 1)) (lm_backoff_max lm)"

definition limits_ok :: "limits \<Rightarrow> bool" where
  "limits_ok lm \<longleftrightarrow> 0 \<le> lm_max_restart_attempts lm \<and> 0 < lm_backoff_base lm \<and> lm_backoff_base lm \<le> lm_backoff_max lm"

definition spaced :: "limits \<Rightarrow> seconds list \<Rightarrow> bool" where
  "spaced lm ts \<longleftrightarrow> (\<forall>i. Suc i < length ts \<longrightarrow> backoff_after lm (Suc i) \<le> ts ! Suc i - ts ! i)"

definition numbered :: "service_state \<Rightarrow> bool" where
  "numbered st \<longleftrightarrow> map inc_attempt (filter is_restart (ss_incidents st)) = map Some [1..<Suc (ss_restart_count st)]"

definition backing_off :: "limits \<Rightarrow> service_state \<Rightarrow> seconds option \<Rightarrow> bool" where
  "backing_off lm st bo \<longleftrightarrow> (let ts = restart_times (ss_incidents st) in
     bo = (if ts = [] then None else Some (backoff_after lm (length ts))) \<and>
     (ts \<noteq> [] \<longrightarrow> ss_last_restart st = Some (last ts)))"

definition disciplined :: "limits \<Rightarrow> incident list \<Rightarrow> bool" where
  "disciplined lm incs \<longleftrightarrow> int (length (restart_times incs)) \<le> lm_max_restart_attempts lm \<and>
     spaced lm (restart_times incs) \<and> escalations incs \<le> 1"

definition service_ok :: "limits \<Rightarrow> service_state \<Rightarrow> seconds option \<Rightarrow> bool" where
  "service_ok lm st bo \<longleftrightarrow>
     numbered st \<and> disciplined lm (ss_incidents st) \<and>
     (ss_healthy st \<longleftrightarrow> ss_consecutive_failures st = 0) \<and>
     (if ss_escalated st then \<not> ss_healthy st \<and> lm_max_restart_attempts lm < int (ss_consecutive_failures st) \<and> bo = None
      else int (ss_consecutive_failures st) \<le> lm_max_restart_attempts lm \<and>
        (if ss_healthy st then bo = None
         else backing_off lm st bo \<and> length (restart_times (ss_incidents st)) \<le> ss_consecutive_failures st \<and>
           escalations (ss_incidents st) = 0))"

text \<open>A service in the middle of a failed poll, before it is restarted or escalated.\<close>

definition failing :: "limits \<Rightarrow> service_state \<Rightarrow> seconds option \<Rightarrow> bool" where
  "failing lm st bo \<longleftrightarrow>
     numbered st \<and> disciplined lm (ss_incidents st) \<and> \<not> ss_healthy st \<and> \<not> ss_escalated st \<and>
     0 < ss_consecutive_failures st \<and> int (ss_consecutive_failures st) \<le> lm_max_restart_attempts lm + 1 \<and>
     backing_off lm st bo \<and> length (restart_times (ss_incidents st)) < ss_consecutive_failures st \<and>
     escalations (ss_incidents st) = 0"

lemma new_service_ok: "limits_ok lm \<Longrightarrow> service_ok lm (new_service_state name) None"
  by (simp add: service_ok_def new_service_state_def numbered_def disciplined_def spaced_def restart_times_def
      escalations_def limits_ok_def)

lemma healthy_ok:
  "limits_ok lm \<Longrightarrow> service_ok lm st bo \<Longrightarrow>
   service_ok lm (st\<lparr>ss_healthy := True, ss_consecutive_failures := 0, ss_escalated := False\<rparr>) None"
  by (auto simp: service_ok_def numbered_def limits_ok_def)

lemma checked_ok [simp]: "service_ok lm (st\<lparr>ss_last_health_check := t\<rparr>) bo = service_ok lm st bo"
  by (simp add: service_ok_def numbered_def backing_off_def)

lemma escalated_failure_ok:
  "service_ok lm st bo \<Longrightarrow> ss_escalated st \<Longrightarrow>
   service_ok lm (st\<lparr>ss_healthy := False, ss_consecutive_failures := ss_consecutive_failures st + 1, ss_last_failure := t\<rparr>) bo"
  by (auto simp: service_ok_def numbered_def)

lemma restart_times_degraded [simp]:
  "restart_times (incs @ [degraded_incident now name]) = []" "escalations (incs @ [degraded_incident now name]) = 0"
  by (simp_all add: restart_times_def escalations_def outage_append degraded_incident_def)

lemma first_failure:
  assumes "limits_ok lm" "service_ok lm st bo" "\<not> ss_escalated st" "ss_consecutive_failures st = 0"
  shows "failing lm (st\<lparr>ss_healthy := False, ss_consecutive_failures := 1, ss_last_failure := t,
    ss_incidents := ss_incidents st @ [degraded_incident now name]\<rparr>) bo"
  using assms
  by (simp add: failing_def service_ok_def numbered_def disciplined_def spaced_def backing_off_def limits_ok_def)
    (simp add: degraded_incident_def)

lemma further_failure:
  assumes "service_ok lm st bo" "\<not> ss_escalated st" "ss_consecutive_failures st \<noteq> 0"
  shows "failing lm (st\<lparr>ss_healthy := False, ss_consecutive_failures := ss_consecutive_failures st + 1, ss_last_failure := t\<rparr>) bo"
  using assms by (auto simp: failing_def service_ok_def numbered_def backing_off_def Let_def)

lemma waiting_ok: "failing lm st bo \<Longrightarrow> int (ss_consecutive_failures st) \<le> lm_max_restart_attempts lm \<Longrightarrow> service_ok lm st bo"
  by (auto simp: failing_def service_ok_def)

lemma escalation_ok:
  assumes "failing lm st bo" "lm_max_restart_attempts lm < int (ss_consecutive_failures st)"
  shows "service_ok lm (st\<lparr>ss_escalated := True, ss_escalation_time := Some now,
    ss_incidents := ss_incidents st @ [escalation_incident now st cooldown]\<rparr>) None"
  using assms
  by (simp add: failing_def service_ok_def numbered_def disciplined_def restart_times_def escalations_def
      outage_append escalation_incident_def)

lemma next_backoff_after:
  assumes "limits_ok lm"
  shows "next_backoff lm (if n = 0 then 0 else backoff_after lm n) = backoff_after lm (Suc n)"
proof (cases n)
  case 0
  then show ?thesis using assms by (simp add: next_backoff_def backoff_after_def limits_ok_def)
next
  case (Suc k)
  have "0 < lm_backoff_base lm * 2 ^ k" "0 < lm_backoff_max lm" using assms by (simp_all add: limits_ok_def)
  then have "0 < backoff_after lm n" using Suc by (simp add: backoff_after_def)
  then have "backoff_after lm n \<noteq> 0" by simp
  then have "next_backoff lm (backoff_after lm n) = min (backoff_after lm n * 2) (lm_backoff_max lm)"
    by (simp add: next_backoff_def)
  also have "\<dots> = backoff_after lm (Suc n)"
    using Suc \<open>0 < lm_backoff_max lm\<close> by (auto simp: backoff_after_def min_def algebra_simps)
  finally show ?thesis using Suc by simp
qed

lemma spaced_append:
  assumes "spaced lm ts" "ts \<noteq> [] \<Longrightarrow> backoff_after lm (length ts) \<le> now - last ts"
  shows "spaced lm (ts @ [now])"
  unfolding spaced_def
proof (intro allI impI)
  fix i
  assume i: "Suc i < length (ts @ [now])"
  show "backoff_after lm (Suc i) \<le> (ts @ [now]) ! Suc i - (ts @ [now]) ! i"
  proof (cases "Suc i < length ts")
    case True
    then show ?thesis using assms(1) by (simp add: spaced_def nth_append)
  next
    case False
    with i have "Suc i = length ts" by simp
    moreover from this have "ts \<noteq> []" by auto
    moreover from this have "last ts = ts ! i" using \<open>Suc i = length ts\<close> by (simp add: last_conv_nth flip: \<open>Suc i = length ts\<close>)
    ultimately show ?thesis using assms(2) by (simp add: nth_append)
  qed
qed

lemma restarted_ok:
  assumes "limits_ok lm" "failing lm st bo" "int (ss_consecutive_failures st) \<le> lm_max_restart_attempts lm"
    and "current = (case bo of Some x \<Rightarrow> x | None \<Rightarrow> 0)"
    and "\<not> (case ss_last_restart st of Some t \<Rightarrow> now - t < current | None \<Rightarrow> False)"
  shows "service_ok lm (st\<lparr>ss_restart_count := ss_restart_count st + 1, ss_last_restart := Some now,
      ss_incidents := ss_incidents st @ [restart_incident now name (ss_restart_count st + 1)]\<rparr>)
    (Some (next_backoff lm current))"
proof -
  let ?ts = "restart_times (ss_incidents st)"
  from assms(2) have bo: "bo = (if ?ts = [] then None else Some (backoff_after lm (length ?ts)))"
    and lr: "?ts \<noteq> [] \<Longrightarrow> ss_last_restart st = Some (last ?ts)"
    and len: "length ?ts < ss_consecutive_failures st"
    by (auto simp: failing_def backing_off_def Let_def)
  have current: "current = (if length ?ts = 0 then 0 else backoff_after lm (length ?ts))"
    using assms(4) bo by simp
  have nb: "next_backoff lm current = backoff_after lm (Suc (length ?ts))"
    unfolding current by (rule next_backoff_after[OF assms(1)])
  have rt: "restart_times (ss_incidents st @ [restart_incident now name k]) = ?ts @ [now]"
    "escalations (ss_incidents st @ [restart_incident now name k]) = escalations (ss_incidents st)" for k
    by (simp_all add: restart_times_def escalations_def outage_append restart_incident_def)
  have "spaced lm (?ts @ [now])"
    using assms(2,5) lr current by (intro spaced_append) (auto simp: failing_def disciplined_def)
  moreover have "map inc_attempt (filter is_restart (ss_incidents st @ [restart_incident now name (ss_restart_count st + 1)])) =
      map Some [1..<Suc (ss_restart_count st + 1)]"
    using assms(2) by (simp add: failing_def numbered_def) (simp add: restart_incident_def)
  ultimately show ?thesis
    using assms(2,3) nb len
    by (simp add: service_ok_def failing_def disciplined_def backing_off_def rt Let_def numbered_def del: upt_Suc)
qed

section \<open>The supervisor as a whole\<close>

definition service :: "supervisor \<Rightarrow> string \<Rightarrow> service_state" where
  "service sv name = (case dict_get (sv_states sv) name of Some st \<Rightarrow> st | None \<Rightarrow> new_service_state name)"

definition supervisor_ok :: "supervisor \<Rightarrow> bool" where
  "supervisor_ok sv \<longleftrightarrow> limits_ok (sv_limits sv) \<and>
     (\<forall>name. service_ok (sv_limits sv) (service sv name) (dict_get (sv_backoff sv) name))"

lemma service_put [simp]: "service (put_state name st sv) n = (if n = name then st else service sv n)"
  by (simp add: service_def put_state_def dict_simps)

lemma put_state_frame [simp]: "sv_limits (put_state name st sv) = sv_limits sv" "sv_backoff (put_state name st sv) = sv_backoff sv"
  by (simp_all add: put_state_def)

lemma service_frame [simp]:
  "service (sv\<lparr>sv_backoff := x\<rparr>) n = service sv n" "service (sv\<lparr>sv_deadline := y\<rparr>) n = service sv n"
  "service (sv\<lparr>sv_poll_count := k\<rparr>) n = service sv n" "service (sv\<lparr>sv_thread := t\<rparr>) n = service sv n"
  "service (sv\<lparr>sv_status := a\<rparr>) n = service sv n"
  by (simp_all add: service_def)

text \<open>What a poll may do: a new state and backoff for one service, within the same limits.\<close>

lemma supervisor_ok_update:
  assumes "supervisor_ok sv" "sv_limits sv' = sv_limits sv"
    and "\<And>n. n \<noteq> name \<Longrightarrow> service sv' n = service sv n \<and> dict_get (sv_backoff sv') n = dict_get (sv_backoff sv) n"
    and "service_ok (sv_limits sv) (service sv' name) (dict_get (sv_backoff sv') name)"
  shows "supervisor_ok sv'"
  unfolding supervisor_ok_def
proof (intro conjI allI)
  fix n
  show "service_ok (sv_limits sv') (service sv' n) (dict_get (sv_backoff sv') n)"
    using assms by (cases "n = name") (simp_all add: supervisor_ok_def)
qed (use assms(1,2) in \<open>simp add: supervisor_ok_def\<close>)

lemma on_healthy_ok:
  assumes "supervisor_ok sv" "service_ok (sv_limits sv) st (dict_get (sv_backoff sv) name)"
  shows "supervisor_ok (on_healthy name st sv)"
proof (rule supervisor_ok_update[OF assms(1)])
  have "limits_ok (sv_limits sv)" using assms(1) by (simp add: supervisor_ok_def)
  from healthy_ok[OF this assms(2)]
  show "service_ok (sv_limits sv) (service (on_healthy name st sv) name) (dict_get (sv_backoff (on_healthy name st sv)) name)"
    by (simp add: on_healthy_def dict_simps)
qed (auto simp: on_healthy_def dict_simps)

lemma escalate_ok:
  assumes "supervisor_ok sv" "failing (sv_limits sv) st (dict_get (sv_backoff sv) name)"
    and "lm_max_restart_attempts (sv_limits sv) < int (ss_consecutive_failures st)"
  shows "supervisor_ok (fst (escalate ev name st now (sv, s)))"
proof (rule supervisor_ok_update[OF assms(1)])
  show "service_ok (sv_limits sv) (service (fst (escalate ev name st now (sv, s))) name)
      (dict_get (sv_backoff (fst (escalate ev name st now (sv, s)))) name)"
    using escalation_ok[OF assms(2,3)] by (simp add: escalate_def Let_def dict_simps)
qed (auto simp: escalate_def Let_def dict_simps)

lemma attempt_restart_ok:
  assumes "supervisor_ok sv" "failing (sv_limits sv) st (dict_get (sv_backoff sv) name)"
    and "int (ss_consecutive_failures st) \<le> lm_max_restart_attempts (sv_limits sv)"
  shows "supervisor_ok (fst (attempt_restart ev name st now (sv, s)))"
proof -
  let ?current = "case dict_get (sv_backoff sv) name of Some x \<Rightarrow> x | None \<Rightarrow> 0"
  let ?wait = "case ss_last_restart st of Some t \<Rightarrow> now - t < ?current | None \<Rightarrow> False"
  have lm: "limits_ok (sv_limits sv)" using assms(1) by (simp add: supervisor_ok_def)
  show ?thesis
  proof (cases ?wait)
    case True
    then have "fst (attempt_restart ev name st now (sv, s)) = put_state name st sv"
      by (simp add: attempt_restart_def Let_def)
    then show ?thesis
      using supervisor_ok_update[OF assms(1), of "put_state name st sv" name] waiting_ok[OF assms(2,3)] by simp
  next
    case False
    let ?st = "st\<lparr>ss_restart_count := ss_restart_count st + 1, ss_last_restart := Some now,
      ss_incidents := ss_incidents st @ [restart_incident now name (ss_restart_count st + 1)]\<rparr>"
    let ?sv = "put_state name ?st (sv\<lparr>sv_backoff := dict_set name (next_backoff (sv_limits sv) ?current) (sv_backoff sv)\<rparr>)"
    from False have "fst (attempt_restart ev name st now (sv, s)) = ?sv"
      unfolding attempt_restart_def Let_def prod.case if_not_P[OF False] by simp
    then show ?thesis
      using supervisor_ok_update[OF assms(1), of ?sv name] restarted_ok[OF lm assms(2,3) refl False, of name]
      by (simp add: dict_simps)
  qed
qed

lemma on_unhealthy_ok:
  assumes "supervisor_ok sv" "service_ok (sv_limits sv) st (dict_get (sv_backoff sv) name)"
  shows "supervisor_ok (fst (on_unhealthy ev name st now (sv, s)))"
proof -
  let ?st1 = "st\<lparr>ss_healthy := False, ss_consecutive_failures := ss_consecutive_failures st + 1, ss_last_failure := Some now\<rparr>"
  have lm: "limits_ok (sv_limits sv)" using assms(1) by (simp add: supervisor_ok_def)
  show ?thesis
  proof (cases "ss_escalated st")
    case True
    then show ?thesis
      using supervisor_ok_update[OF assms(1), of "put_state name ?st1 sv" name]
        escalated_failure_ok[OF assms(2) True] by (simp add: on_unhealthy_def Let_def)
  next
    case False
    define first where "first \<longleftrightarrow> ss_consecutive_failures ?st1 = 1"
    define st2 where "st2 = (if first then ?st1\<lparr>ss_incidents := ss_incidents ?st1 @ [degraded_incident now name]\<rparr> else ?st1)"
    define s1 where "s1 = (if first then emit ev (degraded_incident now name) s else s)"
    have f: "failing (sv_limits sv) st2 (dict_get (sv_backoff sv) name)"
      using first_failure[OF lm assms(2) False, where t = "Some now"] further_failure[OF assms(2) False, where t = "Some now"]
      by (auto simp: st2_def first_def)
    have "on_unhealthy ev name st now (sv, s) =
        (if int (ss_consecutive_failures st2) > lm_max_restart_attempts (sv_limits sv)
         then escalate ev name st2 now (sv, s1) else attempt_restart ev name st2 now (sv, s1))"
      using False unfolding on_unhealthy_def Let_def prod.case st2_def s1_def first_def by simp
    then show ?thesis
      using escalate_ok[OF assms(1) f, of ev now s1] attempt_restart_ok[OF assms(1) f, of ev now s1]
      by (cases "lm_max_restart_attempts (sv_limits sv) < int (ss_consecutive_failures st2)") simp_all
  qed
qed

lemma get_state_service:
  "get_state name sv0 = (st, sv) \<Longrightarrow> st = service sv0 name \<and> sv_limits sv = sv_limits sv0 \<and> sv_backoff sv = sv_backoff sv0 \<and>
   (\<forall>n. service sv n = service sv0 n)"
  by (auto simp: get_state_def service_def dict_simps split: option.splits if_splits)

lemma poll_service_ok:
  assumes "supervisor_ok sv0" "poll_service ev name (sv0, s) = Some (sv', s')"
  shows "supervisor_ok sv'"
proof -
  obtain st sv where g: "get_state name sv0 = (st, sv)" by (cases "get_state name sv0")
  note st = get_state_service[OF g]
  have ok: "supervisor_ok sv" using assms(1) st by (simp add: supervisor_ok_def)
  define st1 where "st1 = st\<lparr>ss_last_health_check := ev_time ev s\<rparr>"
  have ok1: "service_ok (sv_limits sv) st1 (dict_get (sv_backoff sv) name)"
    using ok st by (simp add: st1_def supervisor_ok_def)
  consider "sv' = sv" | "sv' = on_healthy name st1 sv" | s1 where "sv' = fst (on_unhealthy ev name st1 (ev_time ev s) (sv, s1))"
    using assms(2) g by (auto simp: poll_service_def Let_def st1_def split: option.splits prod.splits if_splits) (metis fst_conv)+
  then show ?thesis
    by cases (simp_all add: ok on_healthy_ok[OF ok ok1] on_unhealthy_ok[OF ok ok1])
qed

text \<open>The runs of a supervisor, over any worlds.\<close>

inductive supervised :: "'s environment \<Rightarrow> supervisor \<Rightarrow> bool" for ev where
  Build: "validate_supervision c = Inr () \<Longrightarrow> build_supervisor c = Some sv \<Longrightarrow> supervised ev sv"
| Poll: "supervised ev sv \<Longrightarrow> poll_service ev name (sv, s) = Some (sv', s') \<Longrightarrow> supervised ev sv'"
| Cycle: "supervised ev sv \<Longrightarrow> supervised ev (sv\<lparr>sv_poll_count := sv_poll_count sv + 1\<rparr>)"
| Start: "supervised ev sv \<Longrightarrow> supervised ev (fst (snd (supervisor_start ev bound (sv, s))))"
| Stop: "supervised ev sv \<Longrightarrow> supervised ev (fst (supervisor_stop ev (sv, s)))"

lemma init_states_service:
  "(case dict_get (init_states names d) n of Some st \<Rightarrow> st | None \<Rightarrow> new_service_state n) =
   (case dict_get d n of Some st \<Rightarrow> st | None \<Rightarrow> new_service_state n)"
proof (induction names arbitrary: d)
  case (Cons name names)
  show ?case
    using Cons.IH[of "dict_setdefault name (new_service_state name) d"]
    by (auto simp: init_states_def dict_setdefault_def dict_simps split: option.splits)
qed (simp add: init_states_def)

lemma built_ok:
  assumes "validate_supervision c = Inr ()" "build_supervisor c = Some sv"
  shows "supervisor_ok sv"
proof -
  obtain l where l: "limits_of c = Some l" "sv_limits sv = l" "sv_states sv = []" "sv_backoff sv = []"
    using assms(2) by (auto simp: build_supervisor_def split: option.splits)
  have "limits_ok l"
    using assms(1) l(1)
    by (auto simp: validate_supervision_def limits_of_def limits_ok_def split: if_splits option.splits elim!: finite_float.elims)
  with l new_service_ok show ?thesis by (simp add: supervisor_ok_def service_def)
qed

lemma supervised_ok: "supervised ev sv \<Longrightarrow> supervisor_ok sv"
proof (induction rule: supervised.induct)
  case (Build c sv)
  then show ?case by (rule built_ok)
next
  case (Poll sv name s sv' s')
  show ?case by (rule poll_service_ok[OF Poll.IH Poll.hyps(2)])
next
  case (Start sv bound s)
  have "service (sv\<lparr>sv_states := init_states (sv_services sv) (sv_states sv)\<rparr>) n = service sv n" for n
    by (simp add: service_def init_states_service)
  with Start show ?case
    by (auto simp: supervisor_start_def Let_def supervisor_ok_def split: sum.split)
qed (simp_all add: supervisor_ok_def supervisor_stop_def)

end
