(* ===== verification/Supervision_Properties.thy ===== *)
theory Supervision_Properties
  imports Supervision_Props
begin

text \<open>
  The properties of the supervisor, with a service that is never healthy.
\<close>

text \<open>
  Property C28. The supervisor never hangs: when the clock is fair, a cycle over all services
  ends, whatever the backend answers or raises. The health check of a service makes at most twice
  as many probes as its timeout has seconds, rounded up.
\<close>

theorem supervision_cycle_ends:
  assumes "fair_clock ev"
  shows "(\<exists>r. poll_cycle ev w = Some r) \<and>
    (\<exists>r. health_loop ev name (ev_monotonic ev s + t) s = Some r \<and>
         probe_at_most ev name (ev_monotonic ev s + t) (nat \<lceil>2 * t\<rceil>) s = Some r)"
proof
  obtain sv s where w: "w = (sv, s)" by (cases w)
  from poll_services_ends[OF assms] obtain go sv' s' where
    "poll_services ev (sv_services sv) (sv\<lparr>sv_poll_count := sv_poll_count sv + 1\<rparr>, s) = Some (go, sv', s')"
    by (metis prod_cases3)
  then show "\<exists>r. poll_cycle ev w = Some r"
    by (cases "ev_stopped ev s"; cases go) (fastforce simp: w poll_cycle_def Let_def)+
qed (rule health_loop_ends[OF assms])

definition dead_service :: "seconds environment" where
  "dead_service = \<lparr>ev_time = (\<lambda>s. s), ev_monotonic = (\<lambda>s. s), ev_sleep = (\<lambda>t s. s + t), ev_stopped = (\<lambda>s. False),
     ev_set_stop = (\<lambda>b s. s), ev_health = (\<lambda>name s. (Inr False, s)), ev_start = (\<lambda>name v s. (Inr (), s)),
     ev_stop = (\<lambda>name s. (Inl (PyRuntimeError ''not running''), s)), ev_alert = None\<rparr>"

definition web_config :: supervision_config where
  "web_config = default_supervision_config\<lparr>scf_health_timeout := Fin (1/2), scf_services := [''web'']\<rparr>"

definition web_supervisor :: supervisor where
  "web_supervisor = the (build_supervisor web_config)"

lemma dead_service_fair: "fair_clock dead_service"
  by (simp add: fair_clock_def dead_service_def)

theorem supervision_cycle_ends_witness: "\<exists>r. poll_cycle dead_service (web_supervisor, 0) = Some r"
  using supervision_cycle_ends[OF dead_service_fair, of "(web_supervisor, 0)"] by blast

text \<open>
  Property C9. In every run of a supervisor, whatever the clock shows, every outage of a service
  (what happened since it was last found degraded) has at most \<open>max_restart_attempts\<close>
  restarts, the wait before the next one is at least the base delay doubled with every restart,
  up to the maximum, and at most one escalation; a service is escalated only after more failed
  polls in a row than restarts are allowed. Restarts are numbered through from one.
\<close>

theorem outages_are_disciplined:
  assumes "supervised ev sv" "st = service sv name" "lm = sv_limits sv" "ts = restart_times (ss_incidents st)"
  shows "int (length ts) \<le> lm_max_restart_attempts lm \<and>
    (\<forall>i. Suc i < length ts \<longrightarrow> min (lm_backoff_base lm * 2 ^ i) (lm_backoff_max lm) \<le> ts ! Suc i - ts ! i) \<and>
    escalations (ss_incidents st) \<le> 1 \<and>
    (ss_escalated st \<longrightarrow> lm_max_restart_attempts lm < int (ss_consecutive_failures st)) \<and>
    (ss_healthy st \<longleftrightarrow> ss_consecutive_failures st = 0) \<and>
    map inc_attempt (filter is_restart (ss_incidents st)) = map Some [1..<Suc (ss_restart_count st)]"
proof -
  have "service_ok lm st (dict_get (sv_backoff sv) name)"
    using supervised_ok[OF assms(1)] assms(2,3) by (simp add: supervisor_ok_def)
  then show ?thesis
    unfolding service_ok_def disciplined_def spaced_def numbered_def backoff_after_def assms(4) by auto
qed

text \<open>A dead service, polled at the seconds 100 and 106.\<close>

definition web_1 :: supervisor where
  "web_1 = fst (the (poll_service dead_service ''web'' (web_supervisor, 100)))"

definition web_2 :: supervisor where
  "web_2 = fst (the (poll_service dead_service ''web'' (web_1, 106)))"

lemma dead_check: "health_loop dead_service ''web'' (s + 1/2) s = Some (False, s + 1/2)"
  by (subst health_loop.simps, simp add: dead_service_def, subst health_loop.simps, simp)

lemma web_supervisor_simps:
  "sv_limits web_supervisor = \<lparr>lm_poll_interval = 30, lm_health_timeout = 1/2, lm_max_restart_attempts = 3,
     lm_backoff_base = 5, lm_backoff_max = 300, lm_escalation_cooldown = 600\<rparr>"
  "sv_states web_supervisor = []" "sv_backoff web_supervisor = []" "sv_deadline web_supervisor = []"
  by (simp_all add: web_supervisor_def build_supervisor_def limits_of_def web_config_def default_supervision_config_def)

lemmas poll_simps = poll_service_def get_state_def Let_def on_unhealthy_def attempt_restart_def put_state_def emit_def
  new_service_state_def dict_simps restart_incident_def degraded_incident_def next_backoff_def

lemma dead_clock: "ev_time dead_service s = s" "ev_monotonic dead_service s = s" "ev_alert dead_service = None"
  "ev_stop dead_service n s = (Inl (PyRuntimeError ''not running''), s)" "ev_start dead_service n v s = (Inr (), s)"
  by (simp_all add: dead_service_def)

lemma web_polls:
  "\<exists>s'. poll_service dead_service ''web'' (web_supervisor, 100) = Some (web_1, s')"
  "\<exists>s'. poll_service dead_service ''web'' (web_1, 106) = Some (web_2, s')"
  using poll_service_ends[OF dead_service_fair, of "''web''"] unfolding web_1_def web_2_def
  by (metis option.sel prod.collapse)+

lemma web_1_simps: "sv_limits web_1 = sv_limits web_supervisor" "dict_get (sv_deadline web_1) n = None"
  "dict_get (sv_backoff web_1) ''web'' = Some 5"
  "dict_get (sv_states web_1) ''web'' = Some \<lparr>ss_name = ''web'', ss_healthy = False, ss_consecutive_failures = 1,
     ss_restart_count = 1, ss_escalated = False, ss_last_health_check = 100, ss_last_failure = Some 100,
     ss_last_restart = Some 100, ss_escalation_time = None,
     ss_incidents = [degraded_incident 100 ''web'', restart_incident 100 ''web'' 1]\<rparr>"
  unfolding web_1_def using dead_check[of 100]
  by (simp_all add: poll_simps web_supervisor_simps dead_clock)

lemma web_2_times: "restart_times (ss_incidents (service web_2 ''web'')) = [100, 106]"
proof -
  have "ss_incidents (service web_2 ''web'') =
      [degraded_incident 100 ''web'', restart_incident 100 ''web'' 1, restart_incident 106 ''web'' 2]"
    unfolding web_2_def using dead_check[of 106]
    by (simp add: poll_service_def get_state_def Let_def on_unhealthy_def attempt_restart_def put_state_def emit_def
        dict_simps web_1_simps web_supervisor_simps dead_clock service_def) (simp add: numeral_2_eq_2)
  then show ?thesis by (simp add: restart_times_def outage_def degraded_incident_def restart_incident_def)
qed

theorem outages_are_disciplined_witness:
  "restart_times (ss_incidents (service web_2 ''web'')) = [100, 106] \<and>
   int (length (restart_times (ss_incidents (service web_2 ''web'')))) \<le> lm_max_restart_attempts (sv_limits web_2)"
proof -
  have "validate_supervision web_config = Inr ()"
    by (simp add: validate_supervision_def web_config_def default_supervision_config_def)
  moreover have "build_supervisor web_config = Some web_supervisor"
    by (simp add: web_supervisor_def build_supervisor_def limits_of_def web_config_def default_supervision_config_def)
  ultimately have "supervised dead_service web_supervisor" by (rule supervised.Build)
  then have run: "supervised dead_service web_2" using web_polls by (blast intro: supervised.Poll)
  from outages_are_disciplined[OF run refl refl refl, of "''web''"] show ?thesis by (simp add: web_2_times)
qed

end
